theory Spec2Isabelle
  imports Main "HOL-Library.Word" "HOL-Library.Sublist" "HOL-Library.List_Lexorder" "HOL-Library.AList"
begin

section \<open>Strings of the script\<close>

text \<open>
  A JavaScript string is a sequence of 16-bit code units (UTF-16). The regular
  expressions of the script carry no \<open>u\<close> flag, so they too work on code units.
  ASCII literals of the source are written with \<open>str\<close>; other literals are written
  as their code units.
\<close>

type_synonym jsstring = "16 word list"

definition str :: "string \<Rightarrow> jsstring" where
  "str s = map of_char s"

text \<open>Exceptions the modelled code can meet.\<close>

datatype exn = URIError | SyntaxError | TypeError | TransportError

subsection \<open>Numbers in template literals\<close>

text \<open>
  The numbers of the model are the safe integers, from \<open>-(2^53 - 1)\<close> to \<open>2^53 - 1\<close>:
  each of them is a value of the type \<open>number\<close>, and a template literal renders it as
  its exact decimal numeral, with a leading minus sign when it is negative. The
  \<open>sentence_id\<close> of a sentence record and the Unix time in seconds are such numbers.
  Other values of \<open>number\<close> (fractions, \<open>NaN\<close>, the infinities, larger magnitudes) are
  outside the model.
\<close>

typedef safeInteger = "{i :: int. - 9007199254740991 \<le> i \<and> i \<le> 9007199254740991}"
  by (rule exI [of _ 0]) simp

setup_lifting type_definition_safeInteger

function digitsOf :: "nat \<Rightarrow> jsstring" where
  "digitsOf n = (if n < 10 then [of_nat (48 + n)]
                 else digitsOf (n div 10) @ [of_nat (48 + n mod 10)])"
  by pat_completeness auto
termination
  by (relation "measure id") auto

declare digitsOf.simps [simp del]

lift_definition numberToString :: "safeInteger \<Rightarrow> jsstring" is
  "\<lambda>i. if i < 0 then 0x2D # digitsOf (nat (- i)) else digitsOf (nat i)" .

subsection \<open>UTF-16 code points and UTF-8 bytes\<close>

definition isHighSurrogate :: "16 word \<Rightarrow> bool" where
  "isHighSurrogate c \<longleftrightarrow> 0xD800 \<le> c \<and> c \<le> 0xDBFF"

definition isLowSurrogate :: "16 word \<Rightarrow> bool" where
  "isLowSurrogate c \<longleftrightarrow> 0xDC00 \<le> c \<and> c \<le> 0xDFFF"

definition singleUnit :: "16 word \<Rightarrow> nat option" where
  "singleUnit c = (if isHighSurrogate c \<or> isLowSurrogate c then None else Some (unat c))"

text \<open>
  The code points of a string; \<open>None\<close> stands for a surrogate that has no partner.
\<close>

fun codePoints :: "jsstring \<Rightarrow> nat option list" where
  "codePoints [] = []"
| "codePoints [c] = [singleUnit c]"
| "codePoints (c # d # cs) =
     (if isHighSurrogate c \<and> isLowSurrogate d
      then Some (0x10000 + (unat c - 0xD800) * 0x400 + (unat d - 0xDC00)) # codePoints cs
      else singleUnit c # codePoints (d # cs))"

definition utf8 :: "nat \<Rightarrow> nat list" where
  "utf8 cp =
     (if cp < 0x80 then [cp]
      else if cp < 0x800 then [0xC0 + cp div 64, 0x80 + cp mod 64]
      else if cp < 0x10000 then [0xE0 + cp div 4096, 0x80 + (cp div 64) mod 64, 0x80 + cp mod 64]
      else [0xF0 + cp div 262144, 0x80 + (cp div 4096) mod 64,
            0x80 + (cp div 64) mod 64, 0x80 + cp mod 64])"

subsection \<open>Percent-encoding\<close>

definition hexDigit :: "nat \<Rightarrow> 16 word" where
  "hexDigit n = (if n < 10 then of_nat (48 + n) else of_nat (55 + n))"

definition pctByte :: "nat \<Rightarrow> jsstring" where
  "pctByte b = [0x25, hexDigit (b div 16), hexDigit (b mod 16)]"

definition isAlnum :: "nat \<Rightarrow> bool" where
  "isAlnum c \<longleftrightarrow> (0x30 \<le> c \<and> c \<le> 0x39) \<or> (0x41 \<le> c \<and> c \<le> 0x5A) \<or> (0x61 \<le> c \<and> c \<le> 0x7A)"

text \<open>
  The characters \<open>encodeURIComponent\<close> leaves as they are: letters, digits and
  \<^verbatim>\<open>- _ . ! ~ * ' ( )\<close>.
\<close>

definition uriUnescaped :: "nat \<Rightarrow> bool" where
  "uriUnescaped c \<longleftrightarrow> isAlnum c \<or> c \<in> {0x2D, 0x5F, 0x2E, 0x21, 0x7E, 0x2A, 0x27, 0x28, 0x29}"

definition escapeCodePoint :: "(nat \<Rightarrow> bool) \<Rightarrow> nat \<Rightarrow> jsstring" where
  "escapeCodePoint keep cp = (if keep cp then [of_nat cp] else concat (map pctByte (utf8 cp)))"

definition percentEncode :: "(nat \<Rightarrow> bool) \<Rightarrow> jsstring \<Rightarrow> exn + jsstring" where
  "percentEncode keep s =
     (case those (codePoints s) of
        None \<Rightarrow> Inl URIError
      | Some cps \<Rightarrow> Inr (concat (map (escapeCodePoint keep) cps)))"

text \<open>
  \<open>encodeURIComponent\<close> of the platform: every code point outside the unescaped set
  becomes the \<open>%XX\<close> escapes of its UTF-8 bytes; a string with an unpaired surrogate
  raises \<open>URIError\<close>.
\<close>

definition encodeURIComponent :: "jsstring \<Rightarrow> exn + jsstring" where
  "encodeURIComponent s = percentEncode uriUnescaped s"

section \<open>Content formatter\<close>

record baseSentenceMetadata =
  sentence_text :: jsstring
  book_id :: jsstring
  sentence_id :: safeInteger
  title :: jsstring
  author :: jsstring

record japaneseSentenceResponse = baseSentenceMetadata +
  char_count :: int
  card_url :: jsstring

record englishSentenceResponse = baseSentenceMetadata +
  word_count :: int

datatype language = Ja | En

text \<open>\<open>ShareContent\<close>; its fields \<open>text\<close> and \<open>url\<close> are \<open>sc_text\<close> and \<open>sc_url\<close> here.\<close>

record shareContent =
  sc_text :: jsstring
  sc_url :: jsstring

definition generateShareUrl :: "jsstring \<Rightarrow> safeInteger \<Rightarrow> language \<Rightarrow> exn + jsstring" where
  "generateShareUrl bookId sentenceId lang =
     (case encodeURIComponent bookId of
        Inl e \<Rightarrow> Inl e
      | Inr encodedBookId \<Rightarrow>
          if lang = En
          then Inr (str ''https://rmc-8.com/shosha/random_shosha_en/?book_id='' @ encodedBookId
                    @ str ''&sentence_id='' @ numberToString sentenceId)
          else Inr (str ''https://rmc-8.com/shosha/random_shosha/?book_id='' @ encodedBookId
                    @ str ''&sentence_id='' @ numberToString sentenceId))"

text \<open>\<^verbatim>\<open>bookId.replace(/-/g, '')\<close>: every hyphen is dropped, left to right.\<close>

fun replaceHyphens :: "jsstring \<Rightarrow> jsstring" where
  "replaceHyphens [] = []"
| "replaceHyphens (c # cs) = (if c = 0x2D then replaceHyphens cs else c # replaceHyphens cs)"

definition JA_MAIN_HASHTAG :: jsstring where
  "JA_MAIN_HASHTAG = [0x23, 0x30E9, 0x30F3, 0x30C0, 0x30E0, 0x66F8, 0x5199]"

definition EN_MAIN_HASHTAG :: jsstring where
  "EN_MAIN_HASHTAG = str ''#random_shosha''"

definition generateHashtags :: "jsstring \<Rightarrow> safeInteger \<Rightarrow> language \<Rightarrow> jsstring" where
  "generateHashtags bookId sentenceId lang =
     (let cleanBookId = replaceHyphens bookId;
          mainHashtag = (if lang = Ja then JA_MAIN_HASHTAG else EN_MAIN_HASHTAG)
      in mainHashtag @ str '' #'' @ cleanBookId @ str ''_'' @ numberToString sentenceId)"

definition generateJapaneseShareContent ::
  "'a japaneseSentenceResponse_scheme \<Rightarrow> exn + shareContent" where
  "generateJapaneseShareContent data =
     (case generateShareUrl (book_id data) (sentence_id data) Ja of
        Inl e \<Rightarrow> Inl e
      | Inr shareUrl \<Rightarrow>
          (let hashtags = generateHashtags (book_id data) (sentence_id data) Ja;
               body = [0x300E] @ title data @ [0x300F] @ author data @ [0x8457, 0x0A]
                      @ hashtags @ [0x0A] @ shareUrl
           in Inr \<lparr>sc_text = body, sc_url = shareUrl\<rparr>))"

definition generateEnglishShareContent ::
  "'a englishSentenceResponse_scheme \<Rightarrow> exn + shareContent" where
  "generateEnglishShareContent data =
     (case generateShareUrl (book_id data) (sentence_id data) En of
        Inl e \<Rightarrow> Inl e
      | Inr shareUrl \<Rightarrow>
          (let hashtags = generateHashtags (book_id data) (sentence_id data) En;
               body = str ''\"'' @ title data @ str ''\" by '' @ author data @ [0x0A]
                      @ hashtags @ [0x0A] @ shareUrl
           in Inr \<lparr>sc_text = body, sc_url = shareUrl\<rparr>))"

section \<open>The platform\<close>

text \<open>
  Values of parsed JSON and of untyped (\<open>any\<close>) variables. Numbers are integers in the
  model; the script only tests such values for truthiness and stores them.
\<close>

datatype jsval =
    JUndefined
  | JNull
  | JBool bool
  | JNum int
  | JStr jsstring
  | JArr "jsval list"
  | JObj "(jsstring \<times> jsval) list"

fun truthy :: "jsval \<Rightarrow> bool" where
  "truthy JUndefined = False"
| "truthy JNull = False"
| "truthy (JBool b) = b"
| "truthy (JNum n) = (n \<noteq> 0)"
| "truthy (JStr s) = (s \<noteq> [])"
| "truthy (JArr xs) = True"
| "truthy (JObj kvs) = True"

text \<open>
  \<open>data.key\<close> for the two keys the script reads, \<open>accessJwt\<close> and \<open>blob\<close>: a
  \<open>TypeError\<close> on \<open>null\<close> and \<open>undefined\<close>, the member of an object, and
  \<open>undefined\<close> where there is no such member.
\<close>

fun getProperty :: "jsval \<Rightarrow> jsstring \<Rightarrow> exn + jsval" where
  "getProperty JUndefined k = Inl TypeError"
| "getProperty JNull k = Inl TypeError"
| "getProperty (JObj kvs) k = (case map_of kvs k of Some v \<Rightarrow> Inr v | None \<Rightarrow> Inr JUndefined)"
| "getProperty v k = Inr JUndefined"

text \<open>Truthiness of an optional string parameter, and \<open>s || d\<close>.\<close>

fun truthyString :: "jsstring option \<Rightarrow> bool" where
  "truthyString None = False"
| "truthyString (Some s) = (s \<noteq> [])"

fun orDefault :: "jsstring option \<Rightarrow> jsstring \<Rightarrow> jsstring" where
  "orDefault None d = d"
| "orDefault (Some s) d = (if s \<noteq> [] then s else d)"

section \<open>Rich-text span extractor\<close>

text \<open>\<open>\s\<close> of a regular expression: white space and line terminators.\<close>

definition isWhiteSpace :: "16 word \<Rightarrow> bool" where
  "isWhiteSpace c \<longleftrightarrow>
     c \<in> {0x09, 0x0A, 0x0B, 0x0C, 0x0D, 0x20, 0xA0, 0x1680, 0x2028, 0x2029, 0x202F, 0x205F,
          0x3000, 0xFEFF}
     \<or> (0x2000 \<le> c \<and> c \<le> 0x200A)"

text \<open>
  The class of the hashtag pattern: ASCII letters, digits and the underscore, Hiragana
  (U+3040 to U+309F), Katakana (U+30A0 to U+30FF) and the CJK unified ideographs
  (U+4E00 to U+9FFF).
\<close>

definition isTagChar :: "16 word \<Rightarrow> bool" where
  "isTagChar c \<longleftrightarrow>
     (0x61 \<le> c \<and> c \<le> 0x7A) \<or> (0x41 \<le> c \<and> c \<le> 0x5A) \<or> (0x30 \<le> c \<and> c \<le> 0x39) \<or> c = 0x5F
     \<or> (0x3040 \<le> c \<and> c \<le> 0x309F) \<or> (0x30A0 \<le> c \<and> c \<le> 0x30FF) \<or> (0x4E00 \<le> c \<and> c \<le> 0x9FFF)"

datatype pattern = UrlRegex | HashtagRegex

text \<open>A literal at the start of the input: what follows it.\<close>

definition matchLiteral :: "jsstring \<Rightarrow> jsstring \<Rightarrow> jsstring option" where
  "matchLiteral lit s = (if prefix lit s then Some (drop (length lit) s) else None)"

text \<open>\<open>[class]+\<close>, greedy, at the start of the input: how many units it takes.\<close>

definition matchPlus :: "(16 word \<Rightarrow> bool) \<Rightarrow> jsstring \<Rightarrow> nat option" where
  "matchPlus cls s = (let m = takeWhile cls s in if m = [] then None else Some (length m))"

definition matchUrlTail :: "jsstring \<Rightarrow> nat option" where
  "matchUrlTail s =
     (case matchLiteral (str ''://'') s of
        None \<Rightarrow> None
      | Some r \<Rightarrow> map_option (\<lambda>n. 3 + n) (matchPlus (\<lambda>c. \<not> isWhiteSpace c) r))"

text \<open>
  \<^verbatim>\<open>/https?:\/\/[^\s]+/\<close> at the start of the input: the length of the match. The
  optional \<open>s\<close> is tried first, and given up when the rest does not match.
\<close>

definition matchUrl :: "jsstring \<Rightarrow> nat option" where
  "matchUrl s =
     (case matchLiteral (str ''http'') s of
        None \<Rightarrow> None
      | Some r \<Rightarrow>
          (case (case matchLiteral (str ''s'') r of
                   None \<Rightarrow> None
                 | Some r' \<Rightarrow> map_option (\<lambda>n. 5 + n) (matchUrlTail r')) of
             Some n \<Rightarrow> Some n
           | None \<Rightarrow> map_option (\<lambda>n. 4 + n) (matchUrlTail r)))"

text \<open>The hashtag pattern at the start of the input: the length of the match.\<close>

definition matchHashtag :: "jsstring \<Rightarrow> nat option" where
  "matchHashtag s =
     (case matchLiteral (str ''#'') s of
        None \<Rightarrow> None
      | Some r \<Rightarrow> map_option (\<lambda>n. 1 + n) (matchPlus isTagChar r))"

fun matchAt :: "pattern \<Rightarrow> jsstring \<Rightarrow> nat option" where
  "matchAt UrlRegex s = matchUrl s"
| "matchAt HashtagRegex s = matchHashtag s"

text \<open>
  \<open>regex.exec(text)\<close> of a global pattern whose \<open>lastIndex\<close> is \<open>i\<close>: the leftmost
  position from \<open>i\<close> on where the pattern matches, with the length of the match;
  \<open>None\<close> is the \<open>null\<close> result.
\<close>

function exec :: "pattern \<Rightarrow> jsstring \<Rightarrow> nat \<Rightarrow> (nat \<times> nat) option" where
  "exec p s i =
     (if length s < i then None
      else case matchAt p (drop i s) of
             Some n \<Rightarrow> Some (i, n)
           | None \<Rightarrow> exec p s (i + 1))"
  by pat_completeness auto
termination
  by (relation "measure (\<lambda>(p, s, i). length s + 1 - i)") auto

declare exec.simps [simp del]

text \<open>
  The loop \<^verbatim>\<open>while ((match = regex.exec(text)) !== null)\<close>: every match in turn, as
  the pair of \<open>match.index\<close> and \<open>match[0]\<close>; after a match \<open>lastIndex\<close> is its end.
\<close>

function execLoop :: "pattern \<Rightarrow> jsstring \<Rightarrow> nat \<Rightarrow> (nat \<times> jsstring) list" where
  "execLoop p s lastIndex =
     (case exec p s lastIndex of
        None \<Rightarrow> []
      | Some (i, n) \<Rightarrow> (i, take n (drop i s)) # execLoop p s (i + n))"
  by pat_completeness auto
termination
proof (relation "measure (\<lambda>(p, s, i). length s + 1 - i)")
  show "wf (measure (\<lambda>(p, s, i). length s + 1 - i))" by simp
next
  fix p :: pattern and s :: jsstring and lastIndex :: nat and x2 :: "nat \<times> nat" and i n :: nat
  assume ex: "exec p s lastIndex = Some x2" and x2: "(i, n) = x2"
  have plus: "0 < k" if "matchPlus cls r = Some k" for cls r k
    using that by (auto simp: matchPlus_def Let_def split: if_splits)
  have pos: "0 < k" if "matchAt q r = Some k" for q r k
    using that plus
    by (cases q)
       (auto simp: matchUrl_def matchUrlTail_def matchHashtag_def split: option.splits)
  have found: "j \<le> i' \<and> i' \<le> length t \<and> 0 < k" if "exec q t j = Some (i', k)" for q t j i' k
    using that
  proof (induction q t j rule: exec.induct)
    case (1 q t j)
    show ?case
    proof (cases "length t < j")
      case True
      with "1.prems" show ?thesis by (simp add: exec.simps)
    next
      case False
      show ?thesis
      proof (cases "matchAt q (drop j t)")
        case None
        with False "1.prems" have "exec q t (j + 1) = Some (i', k)" by (simp add: exec.simps [of q t j])
        with "1.IH" False None show ?thesis by fastforce
      next
        case (Some m)
        with False "1.prems" pos [OF Some] show ?thesis by (simp add: exec.simps [of q t j])
      qed
    qed
  qed
  from found [of p s lastIndex i n] ex x2
  show "((p, s, i + n), (p, s, lastIndex)) \<in> measure (\<lambda>(p, s, i). length s + 1 - i)"
    by auto
qed

declare execLoop.simps [simp del]

text \<open>
  \<open>Utilities.newBlob(s).getBytes()\<close>: the UTF-8 bytes of the string. What the
  platform writes for a surrogate without partner is not fixed by the script; the
  model takes those bytes as \<open>unpaired\<close>.
\<close>

definition newBlobBytes :: "nat list \<Rightarrow> jsstring \<Rightarrow> nat list" where
  "newBlobBytes unpaired s =
     concat (map (\<lambda>cp. case cp of Some c \<Rightarrow> utf8 c | None \<Rightarrow> unpaired) (codePoints s))"

record facetIndex =
  byteStart :: nat
  byteEnd :: nat

text \<open>
  A feature is \<^verbatim>\<open>{$type: 'app.bsky.richtext.facet#link', uri}\<close> or
  \<^verbatim>\<open>{$type: 'app.bsky.richtext.facet#tag', tag}\<close>.
\<close>

datatype feature = Link jsstring | Tag jsstring

record facet =
  index :: facetIndex
  features :: "feature list"

definition linkFacet :: "nat list \<Rightarrow> jsstring \<Rightarrow> nat \<times> jsstring \<Rightarrow> facet" where
  "linkFacet unpaired s m =
     (let url = snd m;
          byteStart = length (newBlobBytes unpaired (take (fst m) s));
          byteEnd = byteStart + length (newBlobBytes unpaired url)
      in \<lparr>index = \<lparr>byteStart = byteStart, byteEnd = byteEnd\<rparr>, features = [Link url]\<rparr>)"

definition tagFacet :: "nat list \<Rightarrow> jsstring \<Rightarrow> nat \<times> jsstring \<Rightarrow> facet" where
  "tagFacet unpaired s m =
     (let hashtag = snd m;
          tag = drop 1 hashtag;
          byteStart = length (newBlobBytes unpaired (take (fst m) s));
          byteEnd = byteStart + length (newBlobBytes unpaired hashtag)
      in \<lparr>index = \<lparr>byteStart = byteStart, byteEnd = byteEnd\<rparr>, features = [Tag tag]\<rparr>)"

text \<open>The two loops of \<open>extractFacets\<close>: URLs first, then hashtags.\<close>

definition extractFacets :: "nat list \<Rightarrow> jsstring \<Rightarrow> facet list" where
  "extractFacets unpaired s =
     map (linkFacet unpaired s) (execLoop UrlRegex s 0)
     @ map (tagFacet unpaired s) (execLoop HashtagRegex s 0)"

section \<open>Signed-request builder\<close>

text \<open>
  A \<open>Record<string, string>\<close> is an association list; of two entries with one key
  the first is the object's. \<open>Object.keys(o).sort()\<close> compares code units, as the
  lexicographic order of lists does. \<open>AList.update\<close> is the assignment \<open>o[k] = v\<close>.
\<close>

type_synonym params = "(jsstring \<times> jsstring) list"

definition objectKeys :: "params \<Rightarrow> jsstring list" where
  "objectKeys ps = remdups (map fst ps)"

text \<open>\<open>o[key]\<close> as a template argument: a missing member renders as \<open>undefined\<close>.\<close>

definition member :: "params \<Rightarrow> jsstring \<Rightarrow> jsstring" where
  "member ps key = (case map_of ps key of Some v \<Rightarrow> v | None \<Rightarrow> str ''undefined'')"

fun join :: "jsstring \<Rightarrow> jsstring list \<Rightarrow> jsstring" where
  "join sep [] = []"
| "join sep [x] = x"
| "join sep (x # y # ys) = x @ sep @ join sep (y # ys)"

text \<open>
  The callback of \<open>.map\<close> over the sorted keys: key and value are percent-encoded
  and put into the format \<open>fmt\<close>; the first \<open>URIError\<close> ends the loop.
\<close>

fun encodeEntries ::
  "(jsstring \<Rightarrow> jsstring \<Rightarrow> jsstring) \<Rightarrow> params \<Rightarrow> jsstring list \<Rightarrow> exn + jsstring list" where
  "encodeEntries fmt ps [] = Inr []"
| "encodeEntries fmt ps (key # keys) =
     (case encodeURIComponent key of
        Inl e \<Rightarrow> Inl e
      | Inr k \<Rightarrow>
          (case encodeURIComponent (member ps key) of
             Inl e \<Rightarrow> Inl e
           | Inr v \<Rightarrow>
               (case encodeEntries fmt ps keys of
                  Inl e \<Rightarrow> Inl e
                | Inr rest \<Rightarrow> Inr (fmt k v # rest))))"

definition sortedParams :: "params \<Rightarrow> exn + jsstring" where
  "sortedParams ps =
     (case encodeEntries (\<lambda>k v. k @ str ''='' @ v) ps (sort (objectKeys ps)) of
        Inl e \<Rightarrow> Inl e
      | Inr entries \<Rightarrow> Inr (join (str ''&'') entries))"

text \<open>
  \<open>toUpperCase\<close> on the letters \<open>a\<close> to \<open>z\<close>; the model leaves every other code
  unit as it is, which is the platform's result for the ASCII strings that name an
  HTTP method.
\<close>

definition toUpperCase :: "jsstring \<Rightarrow> jsstring" where
  "toUpperCase s = map (\<lambda>c. if 0x61 \<le> c \<and> c \<le> 0x7A then c - 0x20 else c) s"

definition signatureBaseString :: "jsstring \<Rightarrow> jsstring \<Rightarrow> params \<Rightarrow> exn + jsstring" where
  "signatureBaseString method url ps =
     (case sortedParams ps of
        Inl e \<Rightarrow> Inl e
      | Inr paramString \<Rightarrow>
          (case encodeURIComponent url of
             Inl e \<Rightarrow> Inl e
           | Inr encodedUrl \<Rightarrow>
               (case encodeURIComponent paramString of
                  Inl e \<Rightarrow> Inl e
                | Inr encodedParams \<Rightarrow>
                    Inr (join (str ''&'') [toUpperCase method, encodedUrl, encodedParams]))))"

definition signingKey :: "jsstring \<Rightarrow> jsstring \<Rightarrow> exn + jsstring" where
  "signingKey consumerSecret tokenSecret =
     (case encodeURIComponent consumerSecret of
        Inl e \<Rightarrow> Inl e
      | Inr c \<Rightarrow>
          (case encodeURIComponent tokenSecret of
             Inl e \<Rightarrow> Inl e
           | Inr t \<Rightarrow> Inr (c @ str ''&'' @ t)))"

record xCredentials =
  apiKey :: jsstring
  apiSecret :: jsstring
  accessToken :: jsstring
  accessTokenSecret :: jsstring

text \<open>\<open>BlueskyCredentials\<close>, with the fields \<open>identifier\<close> and \<open>password\<close>.\<close>

record blueskyCredentials =
  bsky_identifier :: jsstring
  bsky_password :: jsstring

section \<open>Requests, responses and the world\<close>

record externalData =
  uri :: jsstring
  ext_title :: jsstring
  description :: jsstring
  thumb :: "jsval option"

record embedExternal =
  embed_type :: jsstring
  external :: externalData

text \<open>
  The post record; a field that the object does not have is \<open>None\<close>. The fields
  \<open>$type\<close> and \<open>text\<close> are \<open>rec_type\<close> and \<open>rec_text\<close>.
\<close>

record postRecord =
  rec_type :: jsstring
  rec_text :: jsstring
  createdAt :: jsstring
  facets :: "facet list option"
  embed :: "embedExternal option"

datatype authorization = OAuthHeader jsstring | Bearer jsval

text \<open>
  The payload of a request, before \<open>JSON.stringify\<close>: the session payload
  (identifier, password), the tweet payload (text), the raw bytes of an image and the
  record payload (repo, collection, record).
\<close>

datatype payload =
    NoPayload
  | SessionPayload jsstring jsstring
  | TweetPayload jsstring
  | BytesPayload "nat list"
  | RecordPayload jsstring jsstring postRecord

record request =
  req_url :: jsstring
  req_method :: jsstring
  req_contentType :: "jsstring option"
  req_authorization :: "authorization option"
  req_payload :: payload
  muteHttpExceptions :: bool

text \<open>
  A response: \<open>getResponseCode()\<close>, \<open>getContentText()\<close>, what \<open>JSON.parse\<close> makes
  of that text (\<open>None\<close> when it raises \<open>SyntaxError\<close>), and of \<open>getBlob()\<close> the
  content type (\<open>None\<close> for \<open>null\<close>) and the bytes.
\<close>

record response =
  responseCode :: int
  contentText :: jsstring
  parsedJson :: "jsval option"
  blobContentType :: "jsstring option"
  blobBytes :: "nat list"

text \<open>
  What the script takes from its platform: the answer of \<open>UrlFetchApp.fetch\<close> to a
  request, given the requests made before it (\<open>Inl\<close> when the call raises), the clock
  (\<open>nowSeconds\<close> is \<open>Math.floor(Date.now() / 1000)\<close>, \<open>isoNow\<close> is
  \<open>new Date().toISOString()\<close>),
  \<open>Utilities.getUuid\<close>, \<open>Utilities.computeHmacSignature\<close> with HMAC-SHA1,
  \<open>Utilities.base64Encode\<close>, and the bytes \<open>Utilities.newBlob\<close> writes for an
  unpaired surrogate.
\<close>

record platform =
  fetchResult :: "request list \<Rightarrow> request \<Rightarrow> exn + response"
  nowSeconds :: safeInteger
  isoNow :: jsstring
  uuid :: jsstring
  hmacSha1 :: "jsstring \<Rightarrow> jsstring \<Rightarrow> nat list"
  base64Encode :: "nat list \<Rightarrow> jsstring"
  unpairedBytes :: "nat list"

text \<open>One constructor for each call of \<open>Logger.log\<close>, with the values it prints.\<close>

datatype logmsg =
    XPostSuccessful jsstring
  | XPostFailed int jsstring
  | XPostError exn
  | SessionCreated
  | SessionCreationFailed int jsstring
  | SessionCreationError exn
  | DownloadingImage jsstring jsstring
  | BlobUploaded jsval
  | BlobUploadFailed int jsstring
  | BlobUploadError exn
  | AuthenticationFailed
  | ThumbnailUploaded
  | AddingOgpCard jsstring "jsstring option"
  | PostRecord postRecord
  | BlueskyPostSuccessful jsstring
  | BlueskyPostFailed int jsstring
  | BlueskyPostError exn

record world =
  requests :: "request list"
  logged :: "logmsg list"

definition fetch :: "platform \<Rightarrow> request \<Rightarrow> world \<Rightarrow> (exn + response) \<times> world" where
  "fetch P req w = (fetchResult P (requests w) req, w\<lparr>requests := requests w @ [req]\<rparr>)"

definition logger :: "logmsg \<Rightarrow> world \<Rightarrow> world" where
  "logger m w = w\<lparr>logged := logged w @ [m]\<rparr>"

section \<open>Microblog publisher\<close>

definition generateOAuthSignature ::
  "platform \<Rightarrow> jsstring \<Rightarrow> jsstring \<Rightarrow> params \<Rightarrow> jsstring \<Rightarrow> jsstring \<Rightarrow> exn + jsstring" where
  "generateOAuthSignature P method url ps consumerSecret tokenSecret =
     (case signatureBaseString method url ps of
        Inl e \<Rightarrow> Inl e
      | Inr base \<Rightarrow>
          (case signingKey consumerSecret tokenSecret of
             Inl e \<Rightarrow> Inl e
           | Inr key \<Rightarrow> Inr (base64Encode P (hmacSha1 P base key))))"

definition startsWith :: "jsstring \<Rightarrow> jsstring \<Rightarrow> bool" where
  "startsWith s p = prefix p s"

definition generateOAuthHeader ::
  "platform \<Rightarrow> jsstring \<Rightarrow> jsstring \<Rightarrow> params \<Rightarrow> xCredentials \<Rightarrow> exn + jsstring" where
  "generateOAuthHeader P method url ps credentials =
     (let timestamp = numberToString (nowSeconds P);
          nonce = uuid P;
          oauthParams =
            foldl (\<lambda>obj key. AList.update key (member ps key) obj)
              [(str ''oauth_consumer_key'', apiKey credentials),
               (str ''oauth_token'', accessToken credentials),
               (str ''oauth_signature_method'', str ''HMAC-SHA1''),
               (str ''oauth_timestamp'', timestamp),
               (str ''oauth_nonce'', nonce),
               (str ''oauth_version'', str ''1.0'')]
              (objectKeys ps)
      in case generateOAuthSignature P method url oauthParams
                (apiSecret credentials) (accessTokenSecret credentials) of
           Inl e \<Rightarrow> Inl e
         | Inr signature \<Rightarrow>
             (let signed = AList.update (str ''oauth_signature'') signature oauthParams
              in case encodeEntries (\<lambda>k v. k @ str ''=\"'' @ v @ str ''\"'') signed
                        (sort (filter (\<lambda>key. startsWith key (str ''oauth_'')) (objectKeys signed))) of
                   Inl e \<Rightarrow> Inl e
                 | Inr headerParams \<Rightarrow> Inr (str ''OAuth '' @ join (str '', '') headerParams)))"

definition X_TWEETS_URL :: jsstring where
  "X_TWEETS_URL = str ''https://api.twitter.com/2/tweets''"

definition tweetRequest :: "jsstring \<Rightarrow> jsstring \<Rightarrow> request" where
  "tweetRequest authHeader txt =
     \<lparr>req_url = X_TWEETS_URL, req_method = str ''post'',
      req_contentType = Some (str ''application/json''),
      req_authorization = Some (OAuthHeader authHeader),
      req_payload = TweetPayload txt, muteHttpExceptions = True\<rparr>"

text \<open>The \<open>try\<close> block of \<open>postToX\<close>; \<open>Inl\<close> is an exception that leaves it.\<close>

definition postToX_try :: "platform \<Rightarrow> jsstring \<Rightarrow> xCredentials \<Rightarrow> world \<Rightarrow> (exn + bool) \<times> world" where
  "postToX_try P txt credentials w =
     (case generateOAuthHeader P (str ''POST'') X_TWEETS_URL [] credentials of
        Inl e \<Rightarrow> (Inl e, w)
      | Inr authHeader \<Rightarrow>
          (case fetch P (tweetRequest authHeader txt) w of
             (Inl e, w1) \<Rightarrow> (Inl e, w1)
           | (Inr response, w1) \<Rightarrow>
               if responseCode response = 201
               then (Inr True, logger (XPostSuccessful (contentText response)) w1)
               else (Inr False,
                     logger (XPostFailed (responseCode response) (contentText response)) w1)))"

text \<open>
  \<open>postToX\<close>: the \<open>catch\<close> clause logs the exception and returns \<open>false\<close>. The
  result is \<open>Inr\<close> of the returned boolean, or \<open>Inl\<close> of an exception that leaves
  the function.
\<close>

definition postToX :: "platform \<Rightarrow> jsstring \<Rightarrow> xCredentials \<Rightarrow> world \<Rightarrow> (exn + bool) \<times> world" where
  "postToX P txt credentials w =
     (case postToX_try P txt credentials w of
        (Inl error, w1) \<Rightarrow> (Inr False, logger (XPostError error) w1)
      | (Inr result, w1) \<Rightarrow> (Inr result, w1))"

section \<open>Federated publisher\<close>

definition BLUESKY_API_BASE :: jsstring where
  "BLUESKY_API_BASE = str ''https://bsky.social/xrpc''"

text \<open>\<open>JSON.parse(response.getContentText())\<close>.\<close>

definition jsonParse :: "response \<Rightarrow> exn + jsval" where
  "jsonParse r = (case parsedJson r of None \<Rightarrow> Inl SyntaxError | Some d \<Rightarrow> Inr d)"

definition createSessionRequest :: "blueskyCredentials \<Rightarrow> request" where
  "createSessionRequest credentials =
     \<lparr>req_url = BLUESKY_API_BASE @ str ''/com.atproto.server.createSession'',
      req_method = str ''post'', req_contentType = Some (str ''application/json''),
      req_authorization = None,
      req_payload = SessionPayload (bsky_identifier credentials) (bsky_password credentials),
      muteHttpExceptions = True\<rparr>"

text \<open>The \<open>try\<close> block of \<open>createBlueskySession\<close>.\<close>

definition createBlueskySession_try ::
  "platform \<Rightarrow> blueskyCredentials \<Rightarrow> world \<Rightarrow> (exn + jsval) \<times> world" where
  "createBlueskySession_try P credentials w =
     (case fetch P (createSessionRequest credentials) w of
        (Inl e, w1) \<Rightarrow> (Inl e, w1)
      | (Inr response, w1) \<Rightarrow>
          if responseCode response = 200
          then (case jsonParse response of
                  Inl e \<Rightarrow> (Inl e, w1)
                | Inr data \<Rightarrow> (getProperty data (str ''accessJwt''), logger SessionCreated w1))
          else (Inr JNull,
                logger (SessionCreationFailed (responseCode response) (contentText response)) w1))"

definition createBlueskySession ::
  "platform \<Rightarrow> blueskyCredentials \<Rightarrow> world \<Rightarrow> (exn + jsval) \<times> world" where
  "createBlueskySession P credentials w =
     (case createBlueskySession_try P credentials w of
        (Inl error, w1) \<Rightarrow> (Inr JNull, logger (SessionCreationError error) w1)
      | (Inr token, w1) \<Rightarrow> (Inr token, w1))"

definition downloadRequest :: "jsstring \<Rightarrow> request" where
  "downloadRequest imageUrl =
     \<lparr>req_url = imageUrl, req_method = str ''get'', req_contentType = None,
      req_authorization = None, req_payload = NoPayload, muteHttpExceptions = True\<rparr>"

definition uploadRequest :: "jsstring \<Rightarrow> jsval \<Rightarrow> nat list \<Rightarrow> request" where
  "uploadRequest mimeType accessJwt bytes =
     \<lparr>req_url = BLUESKY_API_BASE @ str ''/com.atproto.repo.uploadBlob'',
      req_method = str ''post'', req_contentType = Some mimeType,
      req_authorization = Some (Bearer accessJwt), req_payload = BytesPayload bytes,
      muteHttpExceptions = True\<rparr>"

text \<open>The \<open>try\<close> block of \<open>uploadBlobToBluesky\<close>.\<close>

definition uploadBlobToBluesky_try ::
  "platform \<Rightarrow> jsstring \<Rightarrow> jsval \<Rightarrow> world \<Rightarrow> (exn + jsval) \<times> world" where
  "uploadBlobToBluesky_try P imageUrl accessJwt w =
     (case fetch P (downloadRequest imageUrl) w of
        (Inl e, w1) \<Rightarrow> (Inl e, w1)
      | (Inr imageResponse, w1) \<Rightarrow>
          (let mimeType = orDefault (blobContentType imageResponse) (str ''image/jpeg'');
               w2 = logger (DownloadingImage imageUrl mimeType) w1
           in case fetch P (uploadRequest mimeType accessJwt (blobBytes imageResponse)) w2 of
                (Inl e, w3) \<Rightarrow> (Inl e, w3)
              | (Inr uploadResponse, w3) \<Rightarrow>
                  if responseCode uploadResponse = 200
                  then (case jsonParse uploadResponse of
                          Inl e \<Rightarrow> (Inl e, w3)
                        | Inr data \<Rightarrow>
                            (case getProperty data (str ''blob'') of
                               Inl e \<Rightarrow> (Inl e, w3)
                             | Inr blob \<Rightarrow> (Inr blob, logger (BlobUploaded blob) w3)))
                  else (Inr JNull,
                        logger (BlobUploadFailed (responseCode uploadResponse)
                                  (contentText uploadResponse)) w3)))"

definition uploadBlobToBluesky ::
  "platform \<Rightarrow> jsstring \<Rightarrow> jsval \<Rightarrow> world \<Rightarrow> (exn + jsval) \<times> world" where
  "uploadBlobToBluesky P imageUrl accessJwt w =
     (case uploadBlobToBluesky_try P imageUrl accessJwt w of
        (Inl error, w1) \<Rightarrow> (Inr JNull, logger (BlobUploadError error) w1)
      | (Inr blob, w1) \<Rightarrow> (Inr blob, w1))"

definition DEFAULT_OGP_TITLE :: jsstring where
  "DEFAULT_OGP_TITLE = str ''Random Shosha - '' @ [0x66F8, 0x5199, 0x306E, 0x304A, 0x984C]"

definition DEFAULT_OGP_DESCRIPTION :: jsstring where
  "DEFAULT_OGP_DESCRIPTION =
     [0x53E4, 0x5178, 0x6587, 0x5B66, 0x306E, 0x4E00, 0x6587, 0x3092, 0x66F8, 0x5199, 0x306E,
      0x304A, 0x984C, 0x3068, 0x3057, 0x3066]"

text \<open>The record as \<open>postToBluesky\<close> first builds it, from the text, the clock and the facets.\<close>

definition initialRecord :: "jsstring \<Rightarrow> jsstring \<Rightarrow> facet list \<Rightarrow> postRecord" where
  "initialRecord txt now fs =
     \<lparr>rec_type = str ''app.bsky.feed.post'', rec_text = txt, createdAt = now,
      facets = (if length fs > 0 then Some fs else None), embed = None\<rparr>"

text \<open>
  The thumbnail step, \<open>if (ogpImageUrl) { ... }\<close>: the external data with the blob as
  \<open>thumb\<close> when the upload gives a truthy value.
\<close>

definition attachThumb ::
  "platform \<Rightarrow> jsval \<Rightarrow> jsstring option \<Rightarrow> externalData \<Rightarrow> world \<Rightarrow> (exn + externalData) \<times> world" where
  "attachThumb P accessJwt ogpImageUrl externalData w =
     (case ogpImageUrl of
        None \<Rightarrow> (Inr externalData, w)
      | Some imageUrl \<Rightarrow>
          if imageUrl = [] then (Inr externalData, w)
          else (case uploadBlobToBluesky P imageUrl accessJwt w of
                  (Inl e, w1) \<Rightarrow> (Inl e, w1)
                | (Inr blob, w1) \<Rightarrow>
                    if truthy blob
                    then (Inr (externalData\<lparr>thumb := Some blob\<rparr>), logger ThumbnailUploaded w1)
                    else (Inr externalData, w1)))"

text \<open>The embed step, \<open>if (shareUrl) { ... }\<close>.\<close>

definition attachEmbed ::
  "platform \<Rightarrow> jsval \<Rightarrow> jsstring option \<Rightarrow> jsstring option \<Rightarrow> jsstring option \<Rightarrow> jsstring option
   \<Rightarrow> postRecord \<Rightarrow> world \<Rightarrow> (exn + postRecord) \<times> world" where
  "attachEmbed P accessJwt shareUrl ogpTitle ogpDescription ogpImageUrl record w =
     (case shareUrl of
        None \<Rightarrow> (Inr record, w)
      | Some u \<Rightarrow>
          if u = [] then (Inr record, w)
          else (case attachThumb P accessJwt ogpImageUrl
                       \<lparr>uri = u, ext_title = orDefault ogpTitle DEFAULT_OGP_TITLE,
                        description = orDefault ogpDescription DEFAULT_OGP_DESCRIPTION,
                        thumb = None\<rparr> w of
                  (Inl e, w1) \<Rightarrow> (Inl e, w1)
                | (Inr externalData, w1) \<Rightarrow>
                    (Inr (record\<lparr>embed := Some \<lparr>embed_type = str ''app.bsky.embed.external'',
                                                external = externalData\<rparr>\<rparr>),
                     logger (AddingOgpCard u ogpTitle) w1)))"

definition createRecordRequest :: "blueskyCredentials \<Rightarrow> jsval \<Rightarrow> postRecord \<Rightarrow> request" where
  "createRecordRequest credentials accessJwt record =
     \<lparr>req_url = BLUESKY_API_BASE @ str ''/com.atproto.repo.createRecord'',
      req_method = str ''post'', req_contentType = Some (str ''application/json''),
      req_authorization = Some (Bearer accessJwt),
      req_payload = RecordPayload (bsky_identifier credentials) (str ''app.bsky.feed.post'') record,
      muteHttpExceptions = True\<rparr>"

text \<open>The \<open>try\<close> block of \<open>postToBluesky\<close>.\<close>

definition postToBluesky_try ::
  "platform \<Rightarrow> jsstring \<Rightarrow> blueskyCredentials \<Rightarrow> jsval \<Rightarrow> jsstring option \<Rightarrow> jsstring option
   \<Rightarrow> jsstring option \<Rightarrow> jsstring option \<Rightarrow> world \<Rightarrow> (exn + bool) \<times> world" where
  "postToBluesky_try P txt credentials accessJwt shareUrl ogpTitle ogpDescription ogpImageUrl w =
     (let now = isoNow P;
          fs = extractFacets (unpairedBytes P) txt
      in case attachEmbed P accessJwt shareUrl ogpTitle ogpDescription ogpImageUrl
                (initialRecord txt now fs) w of
           (Inl e, w1) \<Rightarrow> (Inl e, w1)
         | (Inr record, w1) \<Rightarrow>
             (case fetch P (createRecordRequest credentials accessJwt record)
                     (logger (PostRecord record) w1) of
                (Inl e, w2) \<Rightarrow> (Inl e, w2)
              | (Inr response, w2) \<Rightarrow>
                  if responseCode response = 200
                  then (Inr True, logger (BlueskyPostSuccessful (contentText response)) w2)
                  else (Inr False,
                        logger (BlueskyPostFailed (responseCode response)
                                  (contentText response)) w2)))"

definition postToBluesky ::
  "platform \<Rightarrow> jsstring \<Rightarrow> blueskyCredentials \<Rightarrow> jsstring option \<Rightarrow> jsstring option
   \<Rightarrow> jsstring option \<Rightarrow> jsstring option \<Rightarrow> world \<Rightarrow> (exn + bool) \<times> world" where
  "postToBluesky P txt credentials shareUrl ogpTitle ogpDescription ogpImageUrl w =
     (case createBlueskySession P credentials w of
        (Inl e, w1) \<Rightarrow> (Inl e, w1)
      | (Inr accessJwt, w1) \<Rightarrow>
          if \<not> truthy accessJwt then (Inr False, logger AuthenticationFailed w1)
          else (case postToBluesky_try P txt credentials accessJwt shareUrl ogpTitle
                       ogpDescription ogpImageUrl w1 of
                  (Inl error, w2) \<Rightarrow> (Inr False, logger (BlueskyPostError error) w2)
                | (Inr result, w2) \<Rightarrow> (Inr result, w2)))"

section \<open>What the specification says of a text\<close>

text \<open>
  Following the specification's words. A URL span is a scheme (\<open>http\<close> or \<open>https\<close>),
  \<open>://\<close> and at least one unit that is not white space; a hashtag span is a \<open>#\<close>
  followed by at least one unit of the hashtag class. A text contains one when one of
  its suffixes starts with it.
\<close>

definition urlAt :: "jsstring \<Rightarrow> bool" where
  "urlAt r \<longleftrightarrow>
     (take 7 r = str ''http://'' \<and> drop 7 r \<noteq> [] \<and> \<not> isWhiteSpace (hd (drop 7 r)))
     \<or> (take 8 r = str ''https://'' \<and> drop 8 r \<noteq> [] \<and> \<not> isWhiteSpace (hd (drop 8 r)))"

definition hashtagAt :: "jsstring \<Rightarrow> bool" where
  "hashtagAt r \<longleftrightarrow> take 1 r = str ''#'' \<and> drop 1 r \<noteq> [] \<and> isTagChar (hd (drop 1 r))"

definition textHasUrl :: "jsstring \<Rightarrow> bool" where
  "textHasUrl s \<longleftrightarrow> list_ex urlAt (suffixes s)"

definition textHasHashtag :: "jsstring \<Rightarrow> bool" where
  "textHasHashtag s \<longleftrightarrow> list_ex hashtagAt (suffixes s)"

text \<open>The records that the requests of a world submit, in the order of the requests.\<close>

fun recordOf :: "request \<Rightarrow> postRecord list" where
  "recordOf req = (case req_payload req of RecordPayload repo collection record \<Rightarrow> [record] | _ \<Rightarrow> [])"

definition submittedRecords :: "world \<Rightarrow> postRecord list" where
  "submittedRecords w = concat (map recordOf (requests w))"

section \<open>Example inputs\<close>

text \<open>
  A text with a Japanese hashtag and a link: U+3042, a space, \<open>#\<close> U+66F8 U+5199, a
  space and \<open>https://a.b/c d\<close>.
\<close>

definition exampleText :: jsstring where
  "exampleText = [0x3042, 0x20, 0x23, 0x66F8, 0x5199, 0x20] @ str ''https://a.b/c d''"

text \<open>A text without link and hashtag: U+660E U+6697, a space and \<open>http:// # no\<close>.\<close>

definition plainText :: jsstring where
  "plainText = [0x660E, 0x6697, 0x20] @ str ''http:// # no''"

text \<open>The two spans of \<open>exampleText\<close>.\<close>

definition exampleLinkFacet :: facet where
  "exampleLinkFacet = \<lparr>index = \<lparr>byteStart = 12, byteEnd = 25\<rparr>,
                        features = [Link (str ''https://a.b/c'')]\<rparr>"

definition exampleTagFacet :: facet where
  "exampleTagFacet = \<lparr>index = \<lparr>byteStart = 4, byteEnd = 11\<rparr>,
                       features = [Tag [0x66F8, 0x5199]]\<rparr>"

definition emptyWorld :: world where
  "emptyWorld = \<lparr>requests = [], logged = []\<rparr>"

definition plainResponse :: "int \<Rightarrow> jsstring \<Rightarrow> jsval option \<Rightarrow> response" where
  "plainResponse code body parsed =
     \<lparr>responseCode = code, contentText = body, parsedJson = parsed,
      blobContentType = None, blobBytes = []\<rparr>"

lift_definition exampleSeconds :: safeInteger is 1700000000
  by simp

text \<open>A platform whose answers depend on the URL of the request only.\<close>

definition scriptedPlatform :: "(jsstring \<Rightarrow> exn + response) \<Rightarrow> platform" where
  "scriptedPlatform answer =
     \<lparr>fetchResult = (\<lambda>earlier req. answer (req_url req)),
      nowSeconds = exampleSeconds, isoNow = str ''2023-11-14T22:13:20.123Z'',
      uuid = str ''0b2f-4c'', hmacSha1 = (\<lambda>base key. [0]),
      base64Encode = (\<lambda>bytes. str ''AA==''), unpairedBytes = [0x3F]\<rparr>"

definition exampleX :: xCredentials where
  "exampleX = \<lparr>apiKey = str ''key'', apiSecret = str ''secret'',
               accessToken = str ''token'', accessTokenSecret = str ''tsecret''\<rparr>"

definition exampleBluesky :: blueskyCredentials where
  "exampleBluesky = \<lparr>bsky_identifier = str ''shosha.rmc-8.com'', bsky_password = str ''app-pass''\<rparr>"

text \<open>Every request is answered with status 403.\<close>

definition forbidden :: platform where
  "forbidden = scriptedPlatform (\<lambda>u. Inr (plainResponse 403 (str ''Forbidden'') None))"

text \<open>Every request is answered with status 201.\<close>

definition created :: platform where
  "created = scriptedPlatform (\<lambda>u. Inr (plainResponse 201 (str ''{}'') (Some (JObj []))))"

text \<open>Every request is answered with status 200 and a body that is not JSON.\<close>

definition notJson :: platform where
  "notJson = scriptedPlatform (\<lambda>u. Inr (plainResponse 200 (str ''<html>'') None))"

text \<open>
  The session request gets a token, the blob upload fails with status 500, and every
  other request (the image download, the record creation) is answered with status 200.
\<close>

definition sessionBody :: jsval where
  "sessionBody = JObj [(str ''accessJwt'', JStr (str ''jwt'')), (str ''did'', JStr (str ''did:plc:1''))]"

definition uploadFails :: platform where
  "uploadFails = scriptedPlatform (\<lambda>u.
     if u = BLUESKY_API_BASE @ str ''/com.atproto.server.createSession''
     then Inr (plainResponse 200 (str ''{...}'') (Some sessionBody))
     else if u = BLUESKY_API_BASE @ str ''/com.atproto.repo.uploadBlob''
     then Inr (plainResponse 500 (str ''error'') None)
     else Inr (plainResponse 200 (str ''{}'') (Some (JObj []))))"

text \<open>A share URL, the URL of a card image, and the token of \<open>sessionBody\<close>.\<close>

definition exampleShareUrl :: jsstring where
  "exampleShareUrl = str ''https://rmc-8.com/shosha/random_shosha/?book_id=meian-natsume&sentence_id=12''"

definition exampleImageUrl :: jsstring where
  "exampleImageUrl = str ''https://rmc-8.com/ogp.png''"

definition exampleToken :: jsval where
  "exampleToken = JStr (str ''jwt'')"

text \<open>
  The record of \<open>exampleText\<close> at the clock of the scripted platforms, with the link
  card of \<open>exampleShareUrl\<close> without thumbnail.
\<close>

definition exampleRecord :: postRecord where
  "exampleRecord =
     \<lparr>rec_type = str ''app.bsky.feed.post'', rec_text = exampleText,
      createdAt = str ''2023-11-14T22:13:20.123Z'',
      facets = Some [exampleLinkFacet, exampleTagFacet],
      embed = Some \<lparr>embed_type = str ''app.bsky.embed.external'',
                     external = \<lparr>uri = exampleShareUrl, ext_title = DEFAULT_OGP_TITLE,
                                  description = DEFAULT_OGP_DESCRIPTION, thumb = None\<rparr>\<rparr>\<rparr>"

section \<open>The scenario of the formatter\<close>

text \<open>
  The Japanese sentence record of the scenario: \<open>book_id\<close> \<open>meian-natsume\<close>,
  \<open>sentence_id\<close> 12, the title U+660E U+6697 and the author U+590F U+76EE U+6F31 U+77F3.
\<close>

lift_definition twelve :: safeInteger is 12
  by simp

definition meian :: japaneseSentenceResponse where
  "meian = \<lparr>sentence_text = [0x660E, 0x6697], book_id = str ''meian-natsume'', sentence_id = twelve,
     title = [0x660E, 0x6697], author = [0x590F, 0x76EE, 0x6F31, 0x77F3],
     char_count = 2, card_url = str ''https://rmc-8.com/card''\<rparr>"

definition meianEnglish :: englishSentenceResponse where
  "meianEnglish = \<lparr>sentence_text = str ''Light and dark.'', book_id = str ''meian-natsume'',
     sentence_id = twelve, title = str ''Meian'', author = str ''Natsume Soseki'', word_count = 3\<rparr>"

definition meianShare :: shareContent where
  "meianShare =
     \<lparr>sc_text = [0x300E, 0x660E, 0x6697, 0x300F, 0x590F, 0x76EE, 0x6F31, 0x77F3, 0x8457, 0x0A]
        @ [0x23, 0x30E9, 0x30F3, 0x30C0, 0x30E0, 0x66F8, 0x5199, 0x20]
        @ str ''#meiannatsume_12'' @ [0x0A]
        @ str ''https://rmc-8.com/shosha/random_shosha/?book_id=meian-natsume&sentence_id=12'',
      sc_url = str ''https://rmc-8.com/shosha/random_shosha/?book_id=meian-natsume&sentence_id=12''\<rparr>"

definition meianEnglishShare :: shareContent where
  "meianEnglishShare =
     \<lparr>sc_text = str ''\"Meian\" by Natsume Soseki'' @ [0x0A]
        @ str ''#random_shosha #meiannatsume_12'' @ [0x0A]
        @ str ''https://rmc-8.com/shosha/random_shosha_en/?book_id=meian-natsume&sentence_id=12'',
      sc_url = str ''https://rmc-8.com/shosha/random_shosha_en/?book_id=meian-natsume&sentence_id=12''\<rparr>"

section \<open>The script in \<open>src/Code.ts\<close>\<close>

text \<open>
  The repository holds the script twice. The functions above follow the longer file;
  \<open>src/Code.ts\<close> differs from it in the functions below. There \<open>generateHashtags\<close>
  has two parameters and the first tag is \<open>#random_shosha\<close> for both languages, and
  \<open>extractFacets\<close> has the loop over the URLs only.
\<close>

definition generateHashtags_Code :: "jsstring \<Rightarrow> safeInteger \<Rightarrow> jsstring" where
  "generateHashtags_Code bookId sentenceId =
     (let cleanBookId = replaceHyphens bookId
      in str ''#random_shosha #'' @ cleanBookId @ str ''_'' @ numberToString sentenceId)"

definition generateJapaneseShareContent_Code ::
  "'a japaneseSentenceResponse_scheme \<Rightarrow> exn + shareContent" where
  "generateJapaneseShareContent_Code data =
     (case generateShareUrl (book_id data) (sentence_id data) Ja of
        Inl e \<Rightarrow> Inl e
      | Inr shareUrl \<Rightarrow>
          (let hashtags = generateHashtags_Code (book_id data) (sentence_id data);
               body = [0x300E] @ title data @ [0x300F] @ author data @ [0x8457, 0x0A]
                      @ hashtags @ [0x0A] @ shareUrl
           in Inr \<lparr>sc_text = body, sc_url = shareUrl\<rparr>))"

definition generateEnglishShareContent_Code ::
  "'a englishSentenceResponse_scheme \<Rightarrow> exn + shareContent" where
  "generateEnglishShareContent_Code data =
     (case generateShareUrl (book_id data) (sentence_id data) En of
        Inl e \<Rightarrow> Inl e
      | Inr shareUrl \<Rightarrow>
          (let hashtags = generateHashtags_Code (book_id data) (sentence_id data);
               body = str ''\"'' @ title data @ str ''\" by '' @ author data @ [0x0A]
                      @ hashtags @ [0x0A] @ shareUrl
           in Inr \<lparr>sc_text = body, sc_url = shareUrl\<rparr>))"

definition meianShare_Code :: shareContent where
  "meianShare_Code =
     \<lparr>sc_text = [0x300E, 0x660E, 0x6697, 0x300F, 0x590F, 0x76EE, 0x6F31, 0x77F3, 0x8457, 0x0A]
        @ str ''#random_shosha #meiannatsume_12'' @ [0x0A]
        @ str ''https://rmc-8.com/shosha/random_shosha/?book_id=meian-natsume&sentence_id=12'',
      sc_url = str ''https://rmc-8.com/shosha/random_shosha/?book_id=meian-natsume&sentence_id=12''\<rparr>"

definition extractFacets_Code :: "nat list \<Rightarrow> jsstring \<Rightarrow> facet list" where
  "extractFacets_Code unpaired s = map (linkFacet unpaired s) (execLoop UrlRegex s 0)"

section \<open>What the specification says of the signed request\<close>

text \<open>
  A string is well formed when it has no surrogate without partner; these are the
  strings that \<open>encodeURIComponent\<close> accepts.
\<close>

definition wellFormed :: "jsstring \<Rightarrow> bool" where
  "wellFormed s \<longleftrightarrow> list_all (\<lambda>cp. cp \<noteq> None) (codePoints s)"

text \<open>
  Following the specification's words. Percent-encoding per RFC 3986 keeps the
  unreserved characters only: letters, digits and \<^verbatim>\<open>- . _ ~\<close>. The parameter string
  has every key and value percent-encoded, the entries sorted by the encoded key, and
  the pairs \<open>key=value\<close> joined with \<open>&\<close>.
\<close>

definition rfc3986Unreserved :: "nat \<Rightarrow> bool" where
  "rfc3986Unreserved c \<longleftrightarrow> isAlnum c \<or> c \<in> {0x2D, 0x2E, 0x5F, 0x7E}"

definition rfc3986Encode :: "jsstring \<Rightarrow> exn + jsstring" where
  "rfc3986Encode s = percentEncode rfc3986Unreserved s"

fun spec_encodePairs :: "params \<Rightarrow> jsstring list \<Rightarrow> exn + (jsstring \<times> jsstring) list" where
  "spec_encodePairs ps [] = Inr []"
| "spec_encodePairs ps (key # keys) =
     (case rfc3986Encode key of
        Inl e \<Rightarrow> Inl e
      | Inr k \<Rightarrow>
          (case rfc3986Encode (member ps key) of
             Inl e \<Rightarrow> Inl e
           | Inr v \<Rightarrow>
               (case spec_encodePairs ps keys of
                  Inl e \<Rightarrow> Inl e
                | Inr rest \<Rightarrow> Inr ((k, v) # rest))))"

definition spec_parameterString :: "params \<Rightarrow> exn + jsstring" where
  "spec_parameterString ps =
     (case spec_encodePairs ps (objectKeys ps) of
        Inl e \<Rightarrow> Inl e
      | Inr pairs \<Rightarrow>
          Inr (join (str ''&'') (map (\<lambda>(k, v). k @ str ''='' @ v) (sort_key fst pairs))))"

text \<open>An object whose keys sort differently before and after encoding.\<close>

definition slashAndHyphen :: params where
  "slashAndHyphen = [(str ''x/y'', str ''1''), (str ''x-y'', str ''2'')]"

section \<open>Properties of the strings\<close>

lemma isHighSurrogate_unat: "isHighSurrogate c \<longleftrightarrow> 0xD800 \<le> unat c \<and> unat c \<le> 0xDBFF"
  by (simp add: isHighSurrogate_def word_le_nat_alt)

lemma isLowSurrogate_unat: "isLowSurrogate c \<longleftrightarrow> 0xDC00 \<le> unat c \<and> unat c \<le> 0xDFFF"
  by (simp add: isLowSurrogate_def word_le_nat_alt)

lemma unat_unit_bound: "unat (c :: 16 word) < 0x10000"
  using unsigned_less [of c, where 'a = nat] by simp

lemma singleUnit_Some: "singleUnit c = Some n \<Longrightarrow> n = unat c \<and> n < 0x10000"
  using unat_unit_bound [of c] by (simp add: singleUnit_def split: if_splits)

lemma singleUnit_inj: "singleUnit c = Some n \<Longrightarrow> singleUnit c' = Some n \<Longrightarrow> c = c'"
  by (simp add: singleUnit_def word_unat_eq_iff split: if_splits)

lemma codePoints_Nil: "codePoints s = [] \<longleftrightarrow> s = []"
  by (cases s rule: codePoints.cases) simp_all

lemma codePoints_bound:
  "Some n \<in> set (codePoints s) \<Longrightarrow> n < 0x110000"
proof (induction s arbitrary: n rule: codePoints.induct)
  case 1
  then show ?case by simp
next
  case (2 c)
  then show ?case using singleUnit_Some [of c n] by simp
next
  case (3 c d cs)
  show ?case
  proof (cases "isHighSurrogate c \<and> isLowSurrogate d")
    case True
    with "3.prems" have "n = 0x10000 + (unat c - 0xD800) * 0x400 + (unat d - 0xDC00) \<or> Some n \<in> set (codePoints cs)"
      by auto
    then show ?thesis
    proof
      assume "n = 0x10000 + (unat c - 0xD800) * 0x400 + (unat d - 0xDC00)"
      with True show ?thesis unfolding isHighSurrogate_unat isLowSurrogate_unat by linarith
    next
      assume "Some n \<in> set (codePoints cs)"
      with "3.IH"(1) True show ?thesis by blast
    qed
  next
    case False
    with "3.prems" have "singleUnit c = Some n \<or> Some n \<in> set (codePoints (d # cs))"
      by auto
    then show ?thesis
    proof
      assume "singleUnit c = Some n"
      from singleUnit_Some [OF this] show ?thesis by simp
    next
      assume "Some n \<in> set (codePoints (d # cs))"
      with "3.IH"(2) False show ?thesis by blast
    qed
  qed
qed

lemma pair_inj:
  assumes "isHighSurrogate c" "isLowSurrogate d" "isHighSurrogate c'" "isLowSurrogate d'"
    and "(0x10000::nat) + (unat c - 0xD800) * 0x400 + (unat d - 0xDC00)
         = 0x10000 + (unat c' - 0xD800) * 0x400 + (unat d' - 0xDC00)"
  shows "c = c' \<and> d = d'"
proof -
  define a b a' b' where "a = unat c - 0xD800" and "b = unat d - 0xDC00"
    and "a' = unat c' - 0xD800" and "b' = unat d' - 0xDC00"
  from assms(1-4) have bounds: "b < 1024" "b' < 1024"
    and un: "unat c = a + 0xD800" "unat d = b + 0xDC00" "unat c' = a' + 0xD800" "unat d' = b' + 0xDC00"
    unfolding isHighSurrogate_unat isLowSurrogate_unat a_def b_def a'_def b'_def by linarith+
  from assms(5) have eq: "a * 1024 + b = a' * 1024 + b'"
    unfolding a_def b_def a'_def b'_def by simp
  from bounds have "(a * 1024 + b) div 1024 = a" "(a' * 1024 + b') div 1024 = a'" by simp_all
  with eq have "a = a'" by simp
  with eq have "b = b'" by simp
  with \<open>a = a'\<close> un show ?thesis by (simp add: word_unat_eq_iff)
qed

lemma pair_not_single:
  "singleUnit c' = Some (0x10000 + (unat c - 0xD800) * 0x400 + (unat d - 0xDC00)) \<Longrightarrow> False"
  using singleUnit_Some [of c' "0x10000 + (unat c - 0xD800) * 0x400 + (unat d - 0xDC00)"] by simp

lemma unat_small: "n < 0x10000 \<Longrightarrow> unat (of_nat n :: 16 word) = n"
  by (simp add: unat_of_nat)

lemma of_nat_unit_inj: "a < 0x10000 \<Longrightarrow> b < 0x10000 \<Longrightarrow> (of_nat a :: 16 word) = of_nat b \<Longrightarrow> a = b"
  by (metis unat_small)

lemma unat_hexDigit: "n < 16 \<Longrightarrow> unat (hexDigit n) = (if n < 10 then 48 + n else 55 + n)"
proof -
  assume "n < 16"
  then have "48 + n < 0x10000" "55 + n < 0x10000" by simp_all
  then have "unat (of_nat (48 + n) :: 16 word) = 48 + n" "unat (of_nat (55 + n) :: 16 word) = 55 + n"
    by (simp_all only: unat_small)
  then show ?thesis by (simp only: hexDigit_def split: if_split) blast
qed

lemma hexDigit_inj: "m < 16 \<Longrightarrow> n < 16 \<Longrightarrow> hexDigit m = hexDigit n \<Longrightarrow> m = n"
proof -
  assume a: "m < 16" "n < 16" "hexDigit m = hexDigit n"
  then have "unat (hexDigit m) = unat (hexDigit n)" by (simp only:)
  with a(1,2) have "(if m < 10 then 48 + m else 55 + m) = (if n < 10 then 48 + n else 55 + n)"
    by (simp only: unat_hexDigit)
  with a(1,2) show "m = n" by (simp split: if_splits)
qed

lemma pctByte_inj:
  assumes "p < 256" "q < 256" "pctByte p @ xs = pctByte q @ ys"
  shows "p = q \<and> xs = ys"
proof -
  from assms(1,2) have b: "p div 16 < 16" "q div 16 < 16" "p mod 16 < 16" "q mod 16 < 16"
    by simp_all
  from assms(3) have h: "hexDigit (p div 16) = hexDigit (q div 16)"
    "hexDigit (p mod 16) = hexDigit (q mod 16)" "xs = ys"
    by (simp_all add: pctByte_def)
  from hexDigit_inj [OF b(1,2) h(1)] hexDigit_inj [OF b(3,4) h(2)]
  have "p div 16 = q div 16" "p mod 16 = q mod 16" .
  then have "p = q" by (metis div_mult_mod_eq)
  with h(3) show ?thesis by simp
qed

lemma pct_prefix:
  assumes "\<forall>p\<in>set as. p < 256" "\<forall>q\<in>set bs. q < 256"
    and "concat (map pctByte as) @ x = concat (map pctByte bs) @ y"
    and "as \<noteq> []" "bs \<noteq> []"
  shows "hd as = hd bs"
proof -
  from assms(4,5) obtain a as' b bs' where s: "as = a # as'" "bs = b # bs'"
    by (cases as; cases bs) auto
  with assms(3) have "pctByte a @ (concat (map pctByte as') @ x) = pctByte b @ (concat (map pctByte bs') @ y)"
    by simp
  from pctByte_inj [OF _ _ this] assms(1,2) s show ?thesis by simp
qed

lemma pct_same_length:
  "\<forall>p\<in>set as. p < 256 \<Longrightarrow> \<forall>q\<in>set bs. q < 256 \<Longrightarrow> length as = length bs \<Longrightarrow>
   concat (map pctByte as) @ x = concat (map pctByte bs) @ y \<Longrightarrow> as = bs \<and> x = y"
proof (induction as bs rule: list_induct2')
  case 1
  then show ?case by simp
next
  case (2 a as)
  then show ?case by simp
next
  case (3 b bs)
  then show ?case by simp
next
  case (4 a as b bs)
  from "4.prems"(4) have "pctByte a @ (concat (map pctByte as) @ x) = pctByte b @ (concat (map pctByte bs) @ y)"
    by simp
  from pctByte_inj [OF _ _ this] "4.prems"(1,2)
  have "a = b" "concat (map pctByte as) @ x = concat (map pctByte bs) @ y" by simp_all
  with 4 show ?case by simp
qed

lemma div_bounds:
  fixes a :: nat
  shows "a < 0x800 \<Longrightarrow> a div 64 < 32"
    and "a < 0x10000 \<Longrightarrow> a div 4096 < 16"
    and "a < 0x110000 \<Longrightarrow> a div 262144 < 5"
  by (simp_all add: div_less_iff_less_mult)

lemma utf8_length:
  "length (utf8 a) = (if a < 0x80 then 1 else if a < 0x800 then 2 else if a < 0x10000 then 3 else 4)"
  by (simp add: utf8_def)

lemma utf8_nonempty: "utf8 a \<noteq> []"
  by (simp add: utf8_def)

lemma utf8_hd:
  "hd (utf8 a) = (if a < 0x80 then a else if a < 0x800 then 0xC0 + a div 64
                  else if a < 0x10000 then 0xE0 + a div 4096 else 0xF0 + a div 262144)"
  by (simp add: utf8_def)

lemma mod64_bound: "(x::nat) mod 64 < 128"
  by (rule less_trans [OF mod_less_divisor]) simp_all

lemma utf8_bytes: "a < 0x110000 \<Longrightarrow> \<forall>b\<in>set (utf8 a). b < 256"
  using div_bounds [of a] mod64_bound [of a] mod64_bound [of "a div 64"] mod64_bound [of "a div 4096"]
  by (auto simp: utf8_def)

lemma utf8_hd_length:
  assumes "a < 0x110000" "b < 0x110000" "hd (utf8 a) = hd (utf8 b)"
  shows "length (utf8 a) = length (utf8 b)"
  using assms div_bounds [of a] div_bounds [of b]
  by (simp add: utf8_hd utf8_length split: if_splits)

lemma split64: "(a::nat) div 64 = b div 64 \<Longrightarrow> a mod 64 = b mod 64 \<Longrightarrow> a = b"
  by (metis div_mult_mod_eq)

lemma utf8_inj: "utf8 a = utf8 b \<Longrightarrow> a = b"
proof -
  assume eq: "utf8 a = utf8 b"
  then have "length (utf8 a) = length (utf8 b)" by simp
  then consider (1) "a < 0x80" "b < 0x80" | (2) "\<not> a < 0x80" "a < 0x800" "\<not> b < 0x80" "b < 0x800"
    | (3) "\<not> a < 0x800" "a < 0x10000" "\<not> b < 0x800" "b < 0x10000" | (4) "\<not> a < 0x10000" "\<not> b < 0x10000"
    by (simp add: utf8_length split: if_splits)
  then show ?thesis
  proof cases
    case 1
    with eq show ?thesis by (simp add: utf8_def)
  next
    case 2
    with eq have "a div 64 = b div 64" "a mod 64 = b mod 64" by (simp_all add: utf8_def)
    then show ?thesis by (rule split64)
  next
    case 3
    with eq have h: "a div 4096 = b div 4096" "(a div 64) mod 64 = (b div 64) mod 64" "a mod 64 = b mod 64"
      by (simp_all add: utf8_def)
    have "a div 4096 = (a div 64) div 64" "b div 4096 = (b div 64) div 64"
      by (simp_all add: div_mult2_eq [symmetric])
    with h have "a div 64 = b div 64" using split64 [of "a div 64" "b div 64"] by simp
    with h(3) show ?thesis using split64 by blast
  next
    case 4
    with eq have h: "a div 262144 = b div 262144" "(a div 4096) mod 64 = (b div 4096) mod 64"
      "(a div 64) mod 64 = (b div 64) mod 64" "a mod 64 = b mod 64"
      by (simp_all add: utf8_def)
    have "a div 262144 = (a div 4096) div 64" "b div 262144 = (b div 4096) div 64"
      by (simp_all add: div_mult2_eq [symmetric])
    with h have "a div 4096 = b div 4096" using split64 [of "a div 4096" "b div 4096"] by simp
    moreover have "a div 4096 = (a div 64) div 64" "b div 4096 = (b div 64) div 64"
      by (simp_all add: div_mult2_eq [symmetric])
    ultimately have "a div 64 = b div 64" using h(3) split64 [of "a div 64" "b div 64"] by simp
    with h(4) show ?thesis using split64 by blast
  qed
qed

lemma pct_utf8_inj:
  assumes "a < 0x110000" "b < 0x110000"
    and "concat (map pctByte (utf8 a)) @ x = concat (map pctByte (utf8 b)) @ y"
  shows "a = b \<and> x = y"
proof -
  have "hd (utf8 a) = hd (utf8 b)"
    using pct_prefix [OF utf8_bytes [OF assms(1)] utf8_bytes [OF assms(2)] assms(3) utf8_nonempty utf8_nonempty] .
  then have "length (utf8 a) = length (utf8 b)" by (rule utf8_hd_length [OF assms(1,2)])
  from pct_same_length [OF utf8_bytes [OF assms(1)] utf8_bytes [OF assms(2)] this assms(3)]
  show ?thesis using utf8_inj by blast
qed

lemma uriUnescaped_small: "uriUnescaped c \<Longrightarrow> c < 0x80 \<and> c \<noteq> 0x25 \<and> c \<noteq> 0x26"
  by (auto simp: uriUnescaped_def isAlnum_def)

lemma pct_utf8_hd: "hd (concat (map pctByte (utf8 a)) @ x) = 0x25"
  by (simp add: utf8_def pctByte_def)

lemma escapeCodePoint_nonempty: "escapeCodePoint keep a \<noteq> []"
  by (simp add: escapeCodePoint_def utf8_def pctByte_def)

lemma escapeCodePoint_inj:
  assumes "a < 0x110000" "b < 0x110000"
    and "escapeCodePoint uriUnescaped a @ x = escapeCodePoint uriUnescaped b @ y"
  shows "a = b \<and> x = y"
proof (cases "uriUnescaped a")
  case True
  note ka = this
  from uriUnescaped_small [OF ka] have a: "a < 0x10000" "a \<noteq> 0x25" by simp_all
  show ?thesis
  proof (cases "uriUnescaped b")
    case True
    from uriUnescaped_small [OF True] have "b < 0x10000" by simp
    with assms(3) ka True a show ?thesis
      by (auto simp: escapeCodePoint_def dest: of_nat_unit_inj)
  next
    case False
    from assms(3) have "hd (escapeCodePoint uriUnescaped a @ x) = hd (escapeCodePoint uriUnescaped b @ y)"
      by (simp only:)
    with ka False have "(of_nat a :: 16 word) = hd (concat (map pctByte (utf8 b)) @ y)"
      by (simp add: escapeCodePoint_def)
    then have "(of_nat a :: 16 word) = of_nat 0x25" by (simp only: pct_utf8_hd) simp
    from of_nat_unit_inj [OF a(1) _ this] a(2) show ?thesis by simp
  qed
next
  case False
  note ka = this
  show ?thesis
  proof (cases "uriUnescaped b")
    case True
    from uriUnescaped_small [OF True] have b: "b < 0x10000" "b \<noteq> 0x25" by simp_all
    from assms(3) have "hd (escapeCodePoint uriUnescaped b @ y) = hd (escapeCodePoint uriUnescaped a @ x)"
      by (simp only:)
    with ka True have "(of_nat b :: 16 word) = hd (concat (map pctByte (utf8 a)) @ x)"
      by (simp add: escapeCodePoint_def)
    then have "(of_nat b :: 16 word) = of_nat 0x25" by (simp only: pct_utf8_hd) simp
    from of_nat_unit_inj [OF b(1) _ this] b(2) show ?thesis by simp
  next
    case False
    with ka assms(3) have "concat (map pctByte (utf8 a)) @ x = concat (map pctByte (utf8 b)) @ y"
      by (simp add: escapeCodePoint_def)
    from pct_utf8_inj [OF assms(1,2) this] show ?thesis .
  qed
qed

lemma escape_all_inj:
  "\<forall>a\<in>set as. a < 0x110000 \<Longrightarrow> \<forall>b\<in>set bs. b < 0x110000 \<Longrightarrow>
   concat (map (escapeCodePoint uriUnescaped) as) = concat (map (escapeCodePoint uriUnescaped) bs) \<Longrightarrow>
   as = bs"
proof (induction as bs rule: list_induct2')
  case 1
  then show ?case by simp
next
  case (2 a as)
  then show ?case using escapeCodePoint_nonempty [of uriUnescaped a] by simp
next
  case (3 b bs)
  then show ?case using escapeCodePoint_nonempty [of uriUnescaped b] by simp
next
  case (4 a as b bs)
  from "4.prems"(3) have "escapeCodePoint uriUnescaped a @ concat (map (escapeCodePoint uriUnescaped) as)
      = escapeCodePoint uriUnescaped b @ concat (map (escapeCodePoint uriUnescaped) bs)"
    by simp
  from escapeCodePoint_inj [OF _ _ this] "4.prems"(1,2)
  have "a = b" "concat (map (escapeCodePoint uriUnescaped) as) = concat (map (escapeCodePoint uriUnescaped) bs)"
    by simp_all
  with 4 show ?case by simp
qed

lemma codePoints_inj:
  "None \<notin> set (codePoints s) \<Longrightarrow> codePoints s = codePoints s' \<Longrightarrow> s = s'"
proof (induction s arbitrary: s' rule: codePoints.induct)
  case 1
  then show ?case using codePoints_Nil [of s'] by simp
next
  case (2 c)
  from "2.prems" obtain n where n: "singleUnit c = Some n" by (cases "singleUnit c") auto
  show ?case
  proof (cases s' rule: codePoints.cases)
    case 1
    with "2.prems" show ?thesis by simp
  next
    case (2 c')
    with "2.prems"(2) have "singleUnit c = singleUnit c'" by simp
    with n have "singleUnit c' = Some n" by simp
    from singleUnit_inj [OF n this] 2 show ?thesis by simp
  next
    case (3 c' d' cs')
    with "2.prems" show ?thesis
      using codePoints_Nil [of cs'] codePoints_Nil [of "d' # cs'"] pair_not_single [of c c' d']
      by (simp split: if_splits)
  qed
next
  case (3 c d cs)
  show ?case
  proof (cases "isHighSurrogate c \<and> isLowSurrogate d")
    case True
    note pair = this
    from "3.prems"(1) pair have nn: "None \<notin> set (codePoints cs)" by simp
    show ?thesis
    proof (cases s' rule: codePoints.cases)
      case 1
      with "3.prems" pair show ?thesis by simp
    next
      case (2 c')
      with "3.prems" pair show ?thesis using codePoints_Nil [of cs] pair_not_single [of c' c d] by simp
    next
      case (3 c' d' cs')
      note s' = this
      show ?thesis
      proof (cases "isHighSurrogate c' \<and> isLowSurrogate d'")
        case True
        with "3.prems"(2) pair s'
        have e: "(0x10000::nat) + (unat c - 0xD800) * 0x400 + (unat d - 0xDC00)
                = 0x10000 + (unat c' - 0xD800) * 0x400 + (unat d' - 0xDC00)"
          and rest: "codePoints cs = codePoints cs'"
          by simp_all
        from pair True e have "c = c' \<and> d = d'" by (intro pair_inj) simp_all
        moreover from "3.IH"(1) [OF pair nn rest] have "cs = cs'" .
        ultimately show ?thesis using s' by simp
      next
        case False
        with "3.prems"(2) pair s'
        have "singleUnit c' = Some (0x10000 + (unat c - 0xD800) * 0x400 + (unat d - 0xDC00))"
          by simp
        from pair_not_single [OF this] show ?thesis ..
      qed
    qed
  next
    case False
    note nopair = this
    from "3.prems"(1) nopair obtain n where n: "singleUnit c = Some n"
      and nn: "None \<notin> set (codePoints (d # cs))"
      by (cases "singleUnit c") auto
    show ?thesis
    proof (cases s' rule: codePoints.cases)
      case 1
      with "3.prems" nopair show ?thesis by simp
    next
      case (2 c')
      with "3.prems"(2) nopair show ?thesis using codePoints_Nil [of "d # cs"] by simp
    next
      case (3 c' d' cs')
      note s' = this
      show ?thesis
      proof (cases "isHighSurrogate c' \<and> isLowSurrogate d'")
        case True
        with "3.prems"(2) nopair s'
        have "singleUnit c = Some (0x10000 + (unat c' - 0xD800) * 0x400 + (unat d' - 0xDC00))"
          by simp
        from pair_not_single [OF this] show ?thesis ..
      next
        case False
        with "3.prems"(2) nopair s' n have h: "singleUnit c' = Some n"
          and rest: "codePoints (d # cs) = codePoints (d' # cs')"
          by simp_all
        from singleUnit_inj [OF n h] have "c = c'" .
        moreover from "3.IH"(2) [OF nopair nn rest] have "d # cs = d' # cs'" .
        ultimately show ?thesis using s' by simp
      qed
    qed
  qed
qed

lemma those_Some: "those xs = Some ys \<Longrightarrow> xs = map Some ys"
  by (induction xs arbitrary: ys) (auto split: option.splits)

lemma encodeURIComponent_inj:
  assumes "encodeURIComponent s = Inr r" "encodeURIComponent s' = Inr r"
  shows "s = s'"
proof -
  from assms obtain cps cps' where c: "those (codePoints s) = Some cps" "those (codePoints s') = Some cps'"
    and r: "r = concat (map (escapeCodePoint uriUnescaped) cps)" "r = concat (map (escapeCodePoint uriUnescaped) cps')"
    by (auto simp: encodeURIComponent_def percentEncode_def split: option.splits)
  from c have m: "codePoints s = map Some cps" "codePoints s' = map Some cps'"
    by (simp_all add: those_Some)
  then have "\<forall>a\<in>set cps. a < 0x110000" "\<forall>a\<in>set cps'. a < 0x110000"
    using codePoints_bound [of _ s] codePoints_bound [of _ s'] by auto
  from escape_all_inj [OF this] r have "cps = cps'" by simp
  with m have "codePoints s = codePoints s'" "None \<notin> set (codePoints s)" by auto
  then show ?thesis using codePoints_inj by blast
qed

lemma hexDigit_not_amp: "n < 16 \<Longrightarrow> hexDigit n \<noteq> 0x26"
proof
  assume "n < 16" "hexDigit n = 0x26"
  then have "unat (hexDigit n) = 0x26" by simp
  with \<open>n < 16\<close> show False by (simp add: unat_hexDigit split: if_splits)
qed

lemma escapeCodePoint_no_amp:
  assumes "a < 0x110000" shows "0x26 \<notin> set (escapeCodePoint uriUnescaped a)"
proof (cases "uriUnescaped a")
  case True
  from uriUnescaped_small [OF True] have "a < 0x10000" "a \<noteq> 0x26" by simp_all
  then have "(of_nat a :: 16 word) \<noteq> of_nat 0x26" using of_nat_unit_inj [of a "0x26"] by auto
  with True show ?thesis by (simp add: escapeCodePoint_def)
next
  case False
  have "\<And>b. b < 256 \<Longrightarrow> 0x26 \<notin> set (pctByte b)"
    using hexDigit_not_amp by (simp add: pctByte_def)
  with utf8_bytes [OF assms] False show ?thesis
    by (auto simp: escapeCodePoint_def)
qed

lemma encodeURIComponent_no_amp:
  assumes "encodeURIComponent s = Inr r" shows "0x26 \<notin> set r"
proof -
  from assms obtain cps where c: "those (codePoints s) = Some cps"
    and r: "r = concat (map (escapeCodePoint uriUnescaped) cps)"
    by (auto simp: encodeURIComponent_def percentEncode_def split: option.splits)
  from c have "codePoints s = map Some cps" by (simp add: those_Some)
  then have "\<forall>a\<in>set cps. a < 0x110000" using codePoints_bound [of _ s] by auto
  with r show ?thesis using escapeCodePoint_no_amp by auto
qed

lemma digitsOf_small: "n < 10 \<Longrightarrow> digitsOf n = [of_nat (48 + n)]"
  by (subst digitsOf.simps) (simp only: if_True)

lemma digitsOf_big: "\<not> n < 10 \<Longrightarrow> digitsOf n = digitsOf (n div 10) @ [of_nat (48 + n mod 10)]"
  by (subst digitsOf.simps) (simp only: if_False)

lemma digitsOf_nonempty: "digitsOf n \<noteq> []"
proof (cases "n < 10")
  case True
  show ?thesis unfolding digitsOf_small [OF True] by simp
next
  case False
  show ?thesis unfolding digitsOf_big [OF False] by simp
qed

lemma digitsOf_length: "length (digitsOf n) = 1 \<longleftrightarrow> n < 10"
proof (cases "n < 10")
  case True
  show ?thesis unfolding digitsOf_small [OF True] using True by simp
next
  case False
  have "length (digitsOf (n div 10)) \<noteq> 0" using digitsOf_nonempty [of "n div 10"] by simp
  then show ?thesis unfolding digitsOf_big [OF False] using False by simp
qed

lemma digit_unat: "d < 10 \<Longrightarrow> unat (of_nat (48 + d) :: 16 word) = 48 + d"
  by (rule unat_small) simp

lemma digit_inj: "d < 10 \<Longrightarrow> e < 10 \<Longrightarrow> (of_nat (48 + d) :: 16 word) = of_nat (48 + e) \<Longrightarrow> d = e"
proof -
  assume a: "d < 10" "e < 10" "(of_nat (48 + d) :: 16 word) = of_nat (48 + e)"
  from a(1,2) have "48 + d < 0x10000" "48 + e < 0x10000" by simp_all
  from of_nat_unit_inj [OF this a(3)] show "d = e" by simp
qed

lemma digitsOf_digits: "c \<in> set (digitsOf n) \<Longrightarrow> 48 \<le> unat c \<and> unat c \<le> 57"
proof (induction n arbitrary: c rule: digitsOf.induct)
  case (1 n)
  show ?case
  proof (cases "n < 10")
    case True
    from "1.prems" have "c = of_nat (48 + n)" unfolding digitsOf_small [OF True] by simp
    then have "unat c = 48 + n" using digit_unat [OF True] by (simp only:)
    with True show ?thesis by simp
  next
    case False
    from "1.prems" have "c \<in> set (digitsOf (n div 10)) \<or> c = of_nat (48 + n mod 10)"
      unfolding digitsOf_big [OF False] by auto
    then show ?thesis
    proof
      assume "c \<in> set (digitsOf (n div 10))"
      with "1.IH" False show ?thesis by blast
    next
      assume "c = of_nat (48 + n mod 10)"
      moreover have "unat (of_nat (48 + n mod 10) :: 16 word) = 48 + n mod 10"
        by (rule digit_unat) simp
      ultimately have "unat c = 48 + n mod 10" by (simp only:)
      then show ?thesis by simp
    qed
  qed
qed

lemma digitsOf_inj: "digitsOf n = digitsOf m \<Longrightarrow> n = m"
proof (induction n arbitrary: m rule: digitsOf.induct)
  case (1 n)
  show ?case
  proof (cases "n < 10")
    case True
    from "1.prems" have "length (digitsOf m) = length (digitsOf n)" by (simp only:)
    with True have "length (digitsOf m) = 1" using digitsOf_length [of n] by simp
    then have m: "m < 10" using digitsOf_length [of m] by blast
    from "1.prems" have "(of_nat (48 + n) :: 16 word) = of_nat (48 + m)"
      unfolding digitsOf_small [OF True] digitsOf_small [OF m] by (simp only: list.inject)
    from digit_inj [OF True m this] show ?thesis .
  next
    case False
    from "1.prems" have "length (digitsOf m) = length (digitsOf n)" by (simp only:)
    with False have "length (digitsOf m) \<noteq> 1" using digitsOf_length [of n] by simp
    then have m: "\<not> m < 10" using digitsOf_length [of m] by blast
    from "1.prems" have "digitsOf (n div 10) @ [of_nat (48 + n mod 10)]
        = digitsOf (m div 10) @ [of_nat (48 + m mod 10) :: 16 word]"
      unfolding digitsOf_big [OF False] digitsOf_big [OF m] .
    then have a: "digitsOf (n div 10) = digitsOf (m div 10)"
      and b: "(of_nat (48 + n mod 10) :: 16 word) = of_nat (48 + m mod 10)"
      by (simp_all only: append1_eq_conv)
    from "1.IH" [OF False a] have "n div 10 = m div 10" .
    moreover from digit_inj [OF _ _ b] have "n mod 10 = m mod 10" by simp
    ultimately show ?thesis by (metis div_mult_mod_eq)
  qed
qed

lemma digitsOf_hd: "hd (digitsOf n) \<noteq> 0x2D"
proof
  assume h: "hd (digitsOf n) = 0x2D"
  have "hd (digitsOf n) \<in> set (digitsOf n)" using digitsOf_nonempty by simp
  from digitsOf_digits [OF this] show False unfolding h by simp
qed

lemma decimal_inj:
  fixes i j :: int
  assumes eq: "(if i < 0 then 0x2D # digitsOf (nat (- i)) else digitsOf (nat i))
             = (if j < 0 then 0x2D # digitsOf (nat (- j)) else digitsOf (nat j))"
  shows "i = j"
proof -
  consider (nn) "i < 0" "j < 0" | (np) "i < 0" "\<not> j < 0" | (pn) "\<not> i < 0" "j < 0" | (pp) "\<not> i < 0" "\<not> j < 0"
    by blast
  then show ?thesis
  proof cases
    case nn
    with eq have "digitsOf (nat (- i)) = digitsOf (nat (- j))" by simp
    from digitsOf_inj [OF this] nn show ?thesis by simp
  next
    case np
    with eq have "0x2D # digitsOf (nat (- i)) = digitsOf (nat j)" by simp
    then have "hd (digitsOf (nat j)) = 0x2D" by (metis list.sel(1))
    with digitsOf_hd show ?thesis by blast
  next
    case pn
    with eq have "digitsOf (nat i) = 0x2D # digitsOf (nat (- j))" by simp
    then have "hd (digitsOf (nat i)) = 0x2D" by (metis list.sel(1))
    with digitsOf_hd show ?thesis by blast
  next
    case pp
    with eq have "digitsOf (nat i) = digitsOf (nat j)" by simp
    from digitsOf_inj [OF this] pp show ?thesis by simp
  qed
qed

lemma numberToString_inj: "numberToString i = numberToString j \<Longrightarrow> i = j"
proof -
  assume "numberToString i = numberToString j"
  then have "Rep_safeInteger i = Rep_safeInteger j"
    unfolding numberToString.rep_eq by (rule decimal_inj)
  then show ?thesis by (simp only: Rep_safeInteger_inject)
qed

lemma numberToString_no_amp: "0x26 \<notin> set (numberToString n)"
proof
  assume "0x26 \<in> set (numberToString n)"
  then have "0x26 \<in> set (digitsOf (nat (- Rep_safeInteger n))) \<or> 0x26 \<in> set (digitsOf (nat (Rep_safeInteger n)))"
    unfolding numberToString.rep_eq by (auto split: if_splits)
  then show False using digitsOf_digits [of "0x26"] by auto
qed

lemma replaceHyphens_filter: "replaceHyphens s = filter (\<lambda>c. c \<noteq> 0x2D) s"
  by (induction s) simp_all

lemma generateShareUrl_Inr:
  "generateShareUrl b n l = Inr u \<Longrightarrow>
   \<exists>e. encodeURIComponent b = Inr e \<and>
       u = (if l = En then str ''https://rmc-8.com/shosha/random_shosha_en/?book_id=''
            else str ''https://rmc-8.com/shosha/random_shosha/?book_id='')
           @ e @ str ''&sentence_id='' @ numberToString n"
  by (auto simp: generateShareUrl_def split: sum.splits if_splits)

lemma base_differs:
  "str ''https://rmc-8.com/shosha/random_shosha_en/?book_id='' @ x
   \<noteq> str ''https://rmc-8.com/shosha/random_shosha/?book_id='' @ y"
  by (simp add: str_def)

lemma first_occurrence_split:
  "x \<notin> set a \<Longrightarrow> x \<notin> set a' \<Longrightarrow> a @ x # b = a' @ x # b' \<Longrightarrow> a = a' \<and> b = b'"
proof (induction a arbitrary: a')
  case Nil
  then show ?case by (cases a') auto
next
  case (Cons y a)
  then show ?case by (cases a') auto
qed

lemma tail_split:
  assumes "0x26 \<notin> set e" "0x26 \<notin> set e'"
    and "e @ str ''&sentence_id='' @ m = e' @ str ''&sentence_id='' @ m'"
  shows "e = e' \<and> m = m'"
proof -
  have s: "str ''&sentence_id='' @ x = 0x26 # (str ''sentence_id='' @ x)" for x
    by (simp add: str_def)
  from assms(3) have "e @ 0x26 # (str ''sentence_id='' @ m) = e' @ 0x26 # (str ''sentence_id='' @ m')"
    by (simp only: s)
  from first_occurrence_split [OF assms(1) assms(2) this]
  have "e = e'" "str ''sentence_id='' @ m = str ''sentence_id='' @ m'" by blast+
  then show ?thesis by (simp only: same_append_eq simp_thms)
qed



lemma those_None_iff: "those xs = None \<longleftrightarrow> None \<in> set xs"
  by (induction xs) (auto split: option.splits)

lemma wellFormed_iff: "wellFormed s \<longleftrightarrow> None \<notin> set (codePoints s)"
  unfolding wellFormed_def list_all_iff by metis

lemma encodeURIComponent_raises: "\<not> wellFormed s \<Longrightarrow> encodeURIComponent s = Inl URIError"
  by (simp add: encodeURIComponent_def percentEncode_def wellFormed_iff those_None_iff [symmetric])

lemma encodeURIComponent_returns: "wellFormed s \<Longrightarrow> \<exists>e. encodeURIComponent s = Inr e"
proof -
  assume "wellFormed s"
  then have "those (codePoints s) \<noteq> None" by (simp add: wellFormed_iff those_None_iff)
  then show ?thesis by (auto simp: encodeURIComponent_def percentEncode_def)
qed

lemma generateShareUrl_raises: "\<not> wellFormed b \<Longrightarrow> generateShareUrl b n l = Inl URIError"
  by (simp add: generateShareUrl_def encodeURIComponent_raises)

lemma generateShareUrl_returns:
  "encodeURIComponent b = Inr e \<Longrightarrow>
   generateShareUrl b n l
   = Inr ((case l of En \<Rightarrow> str ''https://rmc-8.com/shosha/random_shosha_en/?book_id=''
                   | Ja \<Rightarrow> str ''https://rmc-8.com/shosha/random_shosha/?book_id='')
          @ e @ str ''&sentence_id='' @ numberToString n)"
  by (cases l) (simp_all add: generateShareUrl_def)

lemma str_meian_wellFormed: "wellFormed (str ''meian-natsume'')"
  by code_simp

lemma lone_surrogate_raises: "generateShareUrl [0xD83D] twelve Ja = Inl URIError"
  by code_simp

lemma twelve_string: "numberToString twelve = str ''12''"
  by (simp add: numberToString.rep_eq twelve.rep_eq digitsOf.simps str_def)

lemma meian_encoded: "encodeURIComponent (str ''meian-natsume'') = Inr (str ''meian-natsume'')"
  by code_simp

lemma meian_share_url:
  "generateShareUrl (str ''meian-natsume'') twelve Ja
   = Inr (str ''https://rmc-8.com/shosha/random_shosha/?book_id=meian-natsume&sentence_id=12'')"
  unfolding generateShareUrl_returns [OF meian_encoded] twelve_string by (simp add: str_def)

lemma meian_share_url_en:
  "generateShareUrl (str ''meian-natsume'') twelve En
   = Inr (str ''https://rmc-8.com/shosha/random_shosha_en/?book_id=meian-natsume&sentence_id=12'')"
  unfolding generateShareUrl_returns [OF meian_encoded] twelve_string by (simp add: str_def)

lemma generateHashtags_shape:
  "generateHashtags b n l
   = (case l of Ja \<Rightarrow> [0x23, 0x30E9, 0x30F3, 0x30C0, 0x30E0, 0x66F8, 0x5199]
              | En \<Rightarrow> str ''#random_shosha'')
     @ str '' #'' @ filter (\<lambda>c. c \<noteq> 0x2D) b @ str ''_'' @ numberToString n"
  by (cases l)
     (simp_all add: generateHashtags_def Let_def replaceHyphens_filter JA_MAIN_HASHTAG_def
        EN_MAIN_HASHTAG_def)

lemma generateHashtags_Code_shape:
  "generateHashtags_Code b n
   = str ''#random_shosha'' @ str '' #'' @ filter (\<lambda>c. c \<noteq> 0x2D) b @ str ''_'' @ numberToString n"
  by (simp add: generateHashtags_Code_def Let_def replaceHyphens_filter str_def)

lemma meian_hashtags:
  "generateHashtags (str ''meian-natsume'') twelve Ja
   = [0x23, 0x30E9, 0x30F3, 0x30C0, 0x30E0, 0x66F8, 0x5199, 0x20] @ str ''#meiannatsume_12''"
  unfolding generateHashtags_shape twelve_string by (simp add: str_def)

lemma meian_hashtags_Code:
  "generateHashtags_Code (str ''meian-natsume'') twelve = str ''#random_shosha #meiannatsume_12''"
  unfolding generateHashtags_Code_shape twelve_string by (simp add: str_def)

lemma meian_content_share: "generateJapaneseShareContent meian = Inr meianShare"
  unfolding generateJapaneseShareContent_def meian_def
  by (simp add: meian_share_url meian_hashtags meianShare_def Let_def)

lemma meianEnglish_content: "generateEnglishShareContent meianEnglish = Inr meianEnglishShare"
  unfolding generateEnglishShareContent_def meianEnglish_def
  by (simp add: meian_share_url_en generateHashtags_shape twelve_string meianEnglishShare_def Let_def)
     (simp add: str_def)

lemma shareUrl_equal_iff:
  assumes "generateShareUrl b n l = Inr u" and "generateShareUrl b' n' l' = Inr u'"
  shows "(u = u' \<longleftrightarrow> b = b' \<and> n = n' \<and> l = l')
       \<and> (\<exists>e. encodeURIComponent b = Inr e \<and> sublist e u)
       \<and> sublist (numberToString n) u"
proof -
  from generateShareUrl_Inr [OF assms(1)] obtain e where e: "encodeURIComponent b = Inr e"
    and u: "u = (if l = En then str ''https://rmc-8.com/shosha/random_shosha_en/?book_id=''
            else str ''https://rmc-8.com/shosha/random_shosha/?book_id='')
           @ e @ str ''&sentence_id='' @ numberToString n" by blast
  from generateShareUrl_Inr [OF assms(2)] obtain e' where e': "encodeURIComponent b' = Inr e'"
    and u': "u' = (if l' = En then str ''https://rmc-8.com/shosha/random_shosha_en/?book_id=''
            else str ''https://rmc-8.com/shosha/random_shosha/?book_id='')
           @ e' @ str ''&sentence_id='' @ numberToString n'" by blast
  have "b = b' \<and> n = n' \<and> l = l'" if eq: "u = u'"
  proof -
    have l: "l = l'"
    proof (rule ccontr)
      assume "l \<noteq> l'"
      then consider "l = En" "l' = Ja" | "l = Ja" "l' = En" by (cases l; cases l') auto
      then show False
        using eq base_differs unfolding u u' by cases (simp_all, metis)
    qed
    with eq have "e @ str ''&sentence_id='' @ numberToString n = e' @ str ''&sentence_id='' @ numberToString n'"
      unfolding u u' by simp
    from tail_split [OF encodeURIComponent_no_amp [OF e] encodeURIComponent_no_amp [OF e'] this]
    have "e = e'" "numberToString n = numberToString n'" by simp_all
    with e e' have "b = b'" "n = n'" using encodeURIComponent_inj numberToString_inj by auto
    with l show ?thesis by simp
  qed
  moreover have "u = u'" if "b = b' \<and> n = n' \<and> l = l'"
    using that assms by simp
  moreover have "sublist e u" unfolding u sublist_def by blast
  moreover have "sublist (numberToString n) u" unfolding u sublist_def
    by (metis append.assoc append_Nil2)
  ultimately show ?thesis using e by blast
qed


lemma japanese_content_shape:
  "generateJapaneseShareContent d = Inr sc \<Longrightarrow>
   sc_text sc = [0x300E] @ title d @ [0x300F] @ author d @ [0x8457, 0x0A]
                @ generateHashtags (book_id d) (sentence_id d) Ja @ [0x0A] @ sc_url sc
   \<and> generateShareUrl (book_id d) (sentence_id d) Ja = Inr (sc_url sc)"
  by (auto simp: generateJapaneseShareContent_def Let_def split: sum.splits)

lemma english_content_shape:
  "generateEnglishShareContent d = Inr sc \<Longrightarrow>
   sc_text sc = str ''\"'' @ title d @ str ''\" by '' @ author d @ [0x0A]
                @ generateHashtags (book_id d) (sentence_id d) En @ [0x0A] @ sc_url sc
   \<and> generateShareUrl (book_id d) (sentence_id d) En = Inr (sc_url sc)"
  by (auto simp: generateEnglishShareContent_def Let_def split: sum.splits)

lemma japanese_content_Code_shape:
  "generateJapaneseShareContent_Code d = Inr sc \<Longrightarrow>
   sc_text sc = [0x300E] @ title d @ [0x300F] @ author d @ [0x8457, 0x0A]
                @ generateHashtags_Code (book_id d) (sentence_id d) @ [0x0A] @ sc_url sc
   \<and> generateShareUrl (book_id d) (sentence_id d) Ja = Inr (sc_url sc)"
  by (auto simp: generateJapaneseShareContent_Code_def Let_def split: sum.splits)

lemma english_content_Code_shape:
  "generateEnglishShareContent_Code d = Inr sc \<Longrightarrow>
   sc_text sc = str ''\"'' @ title d @ str ''\" by '' @ author d @ [0x0A]
                @ generateHashtags_Code (book_id d) (sentence_id d) @ [0x0A] @ sc_url sc
   \<and> generateShareUrl (book_id d) (sentence_id d) En = Inr (sc_url sc)"
  by (auto simp: generateEnglishShareContent_Code_def Let_def split: sum.splits)

lemma generateShareUrl_returns_iff: "(\<exists>u. generateShareUrl b n l = Inr u) \<longleftrightarrow> wellFormed b"
proof
  assume "\<exists>u. generateShareUrl b n l = Inr u"
  then show "wellFormed b" using generateShareUrl_raises [of b n l] by (cases "wellFormed b") auto
next
  assume "wellFormed b"
  from encodeURIComponent_returns [OF this] obtain e where "encodeURIComponent b = Inr e" ..
  from generateShareUrl_returns [OF this, of n l] show "\<exists>u. generateShareUrl b n l = Inr u" by blast
qed

lemma content_returns_iff:
  "(\<exists>sc. generateJapaneseShareContent d = Inr sc) \<longleftrightarrow> wellFormed (book_id d)"
  "(\<exists>sc. generateEnglishShareContent de = Inr sc) \<longleftrightarrow> wellFormed (book_id de)"
  "(\<exists>sc. generateJapaneseShareContent_Code d = Inr sc) \<longleftrightarrow> wellFormed (book_id d)"
  "(\<exists>sc. generateEnglishShareContent_Code de = Inr sc) \<longleftrightarrow> wellFormed (book_id de)"
proof -
  have "(\<exists>sc. generateJapaneseShareContent d = Inr sc)
        \<longleftrightarrow> (\<exists>u. generateShareUrl (book_id d) (sentence_id d) Ja = Inr u)"
    by (auto simp: generateJapaneseShareContent_def Let_def split: sum.splits)
  then show "(\<exists>sc. generateJapaneseShareContent d = Inr sc) \<longleftrightarrow> wellFormed (book_id d)"
    by (simp only: generateShareUrl_returns_iff)
  have "(\<exists>sc. generateEnglishShareContent de = Inr sc)
        \<longleftrightarrow> (\<exists>u. generateShareUrl (book_id de) (sentence_id de) En = Inr u)"
    by (auto simp: generateEnglishShareContent_def Let_def split: sum.splits)
  then show "(\<exists>sc. generateEnglishShareContent de = Inr sc) \<longleftrightarrow> wellFormed (book_id de)"
    by (simp only: generateShareUrl_returns_iff)
  have "(\<exists>sc. generateJapaneseShareContent_Code d = Inr sc)
        \<longleftrightarrow> (\<exists>u. generateShareUrl (book_id d) (sentence_id d) Ja = Inr u)"
    by (auto simp: generateJapaneseShareContent_Code_def Let_def split: sum.splits)
  then show "(\<exists>sc. generateJapaneseShareContent_Code d = Inr sc) \<longleftrightarrow> wellFormed (book_id d)"
    by (simp only: generateShareUrl_returns_iff)
  have "(\<exists>sc. generateEnglishShareContent_Code de = Inr sc)
        \<longleftrightarrow> (\<exists>u. generateShareUrl (book_id de) (sentence_id de) En = Inr u)"
    by (auto simp: generateEnglishShareContent_Code_def Let_def split: sum.splits)
  then show "(\<exists>sc. generateEnglishShareContent_Code de = Inr sc) \<longleftrightarrow> wellFormed (book_id de)"
    by (simp only: generateShareUrl_returns_iff)
qed

lemma meian_content_Code: "generateJapaneseShareContent_Code meian = Inr meianShare_Code"
  unfolding generateJapaneseShareContent_Code_def meian_def
  by (simp add: meian_share_url meian_hashtags_Code meianShare_Code_def Let_def)

lemma meianEnglish_content_Code: "generateEnglishShareContent_Code meianEnglish = Inr meianEnglishShare"
  unfolding generateEnglishShareContent_Code_def meianEnglish_def
  by (simp add: meian_share_url_en meian_hashtags_Code meianEnglishShare_def Let_def)
     (simp add: str_def)

section \<open>The content formatter's claims\<close>

text \<open>
  Claim C7, as amended. In the longer copy of the script the hashtag line is the
  primary tag of the language (\<open>#\<close> U+30E9 U+30F3 U+30C0 U+30E0 U+66F8 U+5199 for
  Japanese, \<open>#random_shosha\<close> for English), a space, \<open>#\<close>, the \<open>book_id\<close> without its
  hyphens, \<open>_\<close> and the \<open>sentence_id\<close>; it is the second line of the text of every share
  content, and for the scenario it is the Japanese tag followed by \<open> #meiannatsume_12\<close>,
  with the share URL
  \<open>https://rmc-8.com/shosha/random_shosha/?book_id=meian-natsume&sentence_id=12\<close>.
  In \<open>src/Code.ts\<close> the primary tag is \<open>#random_shosha\<close> for both languages, and the
  line of the scenario is \<open>#random_shosha #meiannatsume_12\<close>; the share URL is the same.
\<close>

theorem hashtag_line_in_both_scripts:
  "generateHashtags bookId sentenceId lang
     = (case lang of Ja \<Rightarrow> [0x23, 0x30E9, 0x30F3, 0x30C0, 0x30E0, 0x66F8, 0x5199]
                   | En \<Rightarrow> str ''#random_shosha'')
       @ str '' #'' @ filter (\<lambda>c. c \<noteq> 0x2D) bookId @ str ''_'' @ numberToString sentenceId
   \<and> generateHashtags_Code bookId sentenceId
     = str ''#random_shosha'' @ str '' #'' @ filter (\<lambda>c. c \<noteq> 0x2D) bookId @ str ''_''
       @ numberToString sentenceId
   \<and> (generateJapaneseShareContent dj = Inr sj \<longrightarrow>
        sc_text sj = [0x300E] @ title dj @ [0x300F] @ author dj @ [0x8457, 0x0A]
                     @ generateHashtags (book_id dj) (sentence_id dj) Ja @ [0x0A] @ sc_url sj
        \<and> generateShareUrl (book_id dj) (sentence_id dj) Ja = Inr (sc_url sj))
   \<and> (generateEnglishShareContent de = Inr se \<longrightarrow>
        sc_text se = str ''\"'' @ title de @ str ''\" by '' @ author de @ [0x0A]
                     @ generateHashtags (book_id de) (sentence_id de) En @ [0x0A] @ sc_url se
        \<and> generateShareUrl (book_id de) (sentence_id de) En = Inr (sc_url se))
   \<and> (generateJapaneseShareContent_Code dj = Inr sj' \<longrightarrow>
        sc_text sj' = [0x300E] @ title dj @ [0x300F] @ author dj @ [0x8457, 0x0A]
                      @ generateHashtags_Code (book_id dj) (sentence_id dj) @ [0x0A] @ sc_url sj'
        \<and> generateShareUrl (book_id dj) (sentence_id dj) Ja = Inr (sc_url sj'))
   \<and> (generateEnglishShareContent_Code de = Inr se' \<longrightarrow>
        sc_text se' = str ''\"'' @ title de @ str ''\" by '' @ author de @ [0x0A]
                      @ generateHashtags_Code (book_id de) (sentence_id de) @ [0x0A] @ sc_url se'
        \<and> generateShareUrl (book_id de) (sentence_id de) En = Inr (sc_url se'))
   \<and> ((\<exists>sc. generateJapaneseShareContent dj = Inr sc) \<longleftrightarrow> wellFormed (book_id dj))
   \<and> ((\<exists>sc. generateJapaneseShareContent_Code dj = Inr sc) \<longleftrightarrow> wellFormed (book_id dj))
   \<and> generateHashtags (str ''meian-natsume'') twelve Ja
     = [0x23, 0x30E9, 0x30F3, 0x30C0, 0x30E0, 0x66F8, 0x5199, 0x20] @ str ''#meiannatsume_12''
   \<and> generateShareUrl (str ''meian-natsume'') twelve Ja
     = Inr (str ''https://rmc-8.com/shosha/random_shosha/?book_id=meian-natsume&sentence_id=12'')
   \<and> generateJapaneseShareContent meian
     = Inr \<lparr>sc_text = [0x300E, 0x660E, 0x6697, 0x300F, 0x590F, 0x76EE, 0x6F31, 0x77F3, 0x8457, 0x0A]
              @ [0x23, 0x30E9, 0x30F3, 0x30C0, 0x30E0, 0x66F8, 0x5199, 0x20]
              @ str ''#meiannatsume_12'' @ [0x0A]
              @ str ''https://rmc-8.com/shosha/random_shosha/?book_id=meian-natsume&sentence_id=12'',
            sc_url = str ''https://rmc-8.com/shosha/random_shosha/?book_id=meian-natsume&sentence_id=12''\<rparr>
   \<and> generateHashtags_Code (str ''meian-natsume'') twelve = str ''#random_shosha #meiannatsume_12''
   \<and> generateJapaneseShareContent_Code meian
     = Inr \<lparr>sc_text = [0x300E, 0x660E, 0x6697, 0x300F, 0x590F, 0x76EE, 0x6F31, 0x77F3, 0x8457, 0x0A]
              @ str ''#random_shosha #meiannatsume_12'' @ [0x0A]
              @ str ''https://rmc-8.com/shosha/random_shosha/?book_id=meian-natsume&sentence_id=12'',
            sc_url = str ''https://rmc-8.com/shosha/random_shosha/?book_id=meian-natsume&sentence_id=12''\<rparr>"
  using generateHashtags_shape [of bookId sentenceId lang]
    generateHashtags_Code_shape [of bookId sentenceId]
    japanese_content_shape [of dj sj] english_content_shape [of de se]
    japanese_content_Code_shape [of dj sj'] english_content_Code_shape [of de se']
    content_returns_iff(1) [of dj] content_returns_iff(3) [of dj]
    meian_hashtags meian_share_url meian_content_share [unfolded meianShare_def]
    meian_hashtags_Code meian_content_Code [unfolded meianShare_Code_def]
  by (intro conjI impI) blast+

theorem hashtag_line_in_both_scripts_witness:
  "generateJapaneseShareContent meian = Inr meianShare
   \<and> sc_text meianShare = [0x300E] @ title meian @ [0x300F] @ author meian @ [0x8457, 0x0A]
        @ generateHashtags (book_id meian) (sentence_id meian) Ja @ [0x0A] @ sc_url meianShare
   \<and> generateEnglishShareContent meianEnglish = Inr meianEnglishShare
   \<and> sc_text meianEnglishShare = str ''\"'' @ title meianEnglish @ str ''\" by ''
        @ author meianEnglish @ [0x0A]
        @ generateHashtags (book_id meianEnglish) (sentence_id meianEnglish) En @ [0x0A]
        @ sc_url meianEnglishShare
   \<and> generateJapaneseShareContent_Code meian = Inr meianShare_Code
   \<and> sc_text meianShare_Code = [0x300E] @ title meian @ [0x300F] @ author meian @ [0x8457, 0x0A]
        @ generateHashtags_Code (book_id meian) (sentence_id meian) @ [0x0A] @ sc_url meianShare_Code
   \<and> generateEnglishShareContent_Code meianEnglish = Inr meianEnglishShare
   \<and> wellFormed (book_id meian)"
  using hashtag_line_in_both_scripts [of _ _ _ meian meianShare meianEnglish meianEnglishShare
      meianShare_Code meianEnglishShare]
    meian_content_share meianEnglish_content meian_content_Code meianEnglish_content_Code
  by blast

text \<open>
  The scenario in \<open>src/Code.ts\<close>: the hashtag line is not the one with the Japanese tag.
\<close>

theorem hashtag_line_Code_counterexample:
  "generateHashtags_Code (str ''meian-natsume'') twelve = str ''#random_shosha #meiannatsume_12''
   \<and> generateHashtags_Code (str ''meian-natsume'') twelve
     \<noteq> [0x23, 0x30E9, 0x30F3, 0x30C0, 0x30E0, 0x66F8, 0x5199, 0x20] @ str ''#meiannatsume_12''"
  unfolding meian_hashtags_Code by (simp add: str_def)

text \<open>
  Claim C8, as amended. \<open>generateShareUrl\<close> raises \<open>URIError\<close> for a \<open>book_id\<close> with a
  surrogate that has no partner, and returns for every other \<open>book_id\<close>, every
  \<open>sentence_id\<close> and both languages; the URL is the base path of the language, the
  URL-encoded \<open>book_id\<close>, \<open>&sentence_id=\<close> and the decimal numeral of the \<open>sentence_id\<close>.
  Two calls that return give the same URL exactly when the triples of \<open>book_id\<close>,
  \<open>sentence_id\<close> and language are the same.
\<close>

theorem generateShareUrl_total_injective:
  "(\<not> wellFormed b \<longrightarrow> generateShareUrl b n l = Inl URIError)
   \<and> (wellFormed b \<longrightarrow>
        (\<exists>e. encodeURIComponent b = Inr e
           \<and> generateShareUrl b n l
             = Inr ((case l of En \<Rightarrow> str ''https://rmc-8.com/shosha/random_shosha_en/?book_id=''
                            | Ja \<Rightarrow> str ''https://rmc-8.com/shosha/random_shosha/?book_id='')
                    @ e @ str ''&sentence_id='' @ numberToString n)))
   \<and> (generateShareUrl b n l = Inr u \<and> generateShareUrl b' n' l' = Inr u' \<longrightarrow>
        (u = u' \<longleftrightarrow> b = b' \<and> n = n' \<and> l = l'))
   \<and> (generateShareUrl b n l = Inr u \<longrightarrow>
        (\<exists>e. encodeURIComponent b = Inr e \<and> sublist e u) \<and> sublist (numberToString n) u)"
proof (intro conjI impI)
  assume "\<not> wellFormed b"
  then show "generateShareUrl b n l = Inl URIError" by (rule generateShareUrl_raises)
next
  assume "wellFormed b"
  from encodeURIComponent_returns [OF this] obtain e where e: "encodeURIComponent b = Inr e" ..
  from generateShareUrl_returns [OF e, of n l] e
  show "\<exists>e. encodeURIComponent b = Inr e
           \<and> generateShareUrl b n l
             = Inr ((case l of En \<Rightarrow> str ''https://rmc-8.com/shosha/random_shosha_en/?book_id=''
                            | Ja \<Rightarrow> str ''https://rmc-8.com/shosha/random_shosha/?book_id='')
                    @ e @ str ''&sentence_id='' @ numberToString n)"
    by blast
next
  assume "generateShareUrl b n l = Inr u \<and> generateShareUrl b' n' l' = Inr u'"
  then show "u = u' \<longleftrightarrow> b = b' \<and> n = n' \<and> l = l'"
    using shareUrl_equal_iff [of b n l u b' n' l' u'] by blast
next
  assume a: "generateShareUrl b n l = Inr u"
  from shareUrl_equal_iff [OF a a]
  show "\<exists>e. encodeURIComponent b = Inr e \<and> sublist e u" and "sublist (numberToString n) u"
    by blast+
qed

theorem generateShareUrl_total_injective_witness:
  "wellFormed (str ''meian-natsume'')
   \<and> generateShareUrl (str ''meian-natsume'') twelve Ja
     = Inr (str ''https://rmc-8.com/shosha/random_shosha/?book_id=meian-natsume&sentence_id=12'')
   \<and> generateShareUrl (str ''meian-natsume'') twelve En
     = Inr (str ''https://rmc-8.com/shosha/random_shosha_en/?book_id=meian-natsume&sentence_id=12'')
   \<and> str ''https://rmc-8.com/shosha/random_shosha/?book_id=meian-natsume&sentence_id=12''
     \<noteq> str ''https://rmc-8.com/shosha/random_shosha_en/?book_id=meian-natsume&sentence_id=12''
   \<and> (\<exists>e. encodeURIComponent (str ''meian-natsume'') = Inr e
          \<and> sublist e (str ''https://rmc-8.com/shosha/random_shosha/?book_id=meian-natsume&sentence_id=12''))
   \<and> sublist (numberToString twelve)
        (str ''https://rmc-8.com/shosha/random_shosha/?book_id=meian-natsume&sentence_id=12'')
   \<and> \<not> wellFormed [0xD83D] \<and> generateShareUrl [0xD83D] twelve Ja = Inl URIError"
proof -
  have nw: "\<not> wellFormed [0xD83D]" by code_simp
  from generateShareUrl_total_injective [of "str ''meian-natsume''" twelve Ja
      "str ''https://rmc-8.com/shosha/random_shosha/?book_id=meian-natsume&sentence_id=12''"
      "str ''meian-natsume''" twelve En
      "str ''https://rmc-8.com/shosha/random_shosha_en/?book_id=meian-natsume&sentence_id=12''"]
    generateShareUrl_total_injective [of "[0xD83D]" twelve Ja]
    meian_share_url meian_share_url_en str_meian_wellFormed nw
  show ?thesis by simp
qed

text \<open>A \<open>book_id\<close> that is one high surrogate: the call raises, and no URL is returned.\<close>

theorem generateShareUrl_counterexample:
  "generateShareUrl [0xD83D] twelve Ja = Inl URIError"
  by (rule lone_surrogate_raises)



lemma matchPlus_bounds: "matchPlus cls r = Some k \<Longrightarrow> 0 < k \<and> k \<le> length r"
  by (auto simp: matchPlus_def Let_def length_takeWhile_le split: if_splits)

lemma matchLiteral_Some: "matchLiteral lit s = Some r \<Longrightarrow> s = lit @ r"
  by (auto simp: matchLiteral_def prefix_def split: if_splits)

lemma matchUrlTail_bounds: "matchUrlTail r = Some k \<Longrightarrow> 0 < k \<and> k \<le> length r"
proof -
  assume a: "matchUrlTail r = Some k"
  then obtain r' n where l: "matchLiteral (str ''://'') r = Some r'"
    and p: "matchPlus (\<lambda>c. \<not> isWhiteSpace c) r' = Some n" and k: "k = 3 + n"
    by (auto simp: matchUrlTail_def split: option.splits)
  from matchLiteral_Some [OF l] have "length r = 3 + length r'" by (simp add: str_def)
  with matchPlus_bounds [OF p] k show ?thesis by simp
qed

lemma matchUrl_bounds: "matchUrl r = Some k \<Longrightarrow> 0 < k \<and> k \<le> length r"
proof -
  assume a: "matchUrl r = Some k"
  then obtain r1 where l: "matchLiteral (str ''http'') r = Some r1"
    by (auto simp: matchUrl_def split: option.splits)
  from matchLiteral_Some [OF l] have len: "length r = 4 + length r1" by (simp add: str_def)
  from a l consider (s) r2 n where "matchLiteral (str ''s'') r1 = Some r2" "matchUrlTail r2 = Some n" "k = 5 + n"
    | (nos) n where "matchUrlTail r1 = Some n" "k = 4 + n"
    by (auto simp: matchUrl_def split: option.splits)
  then show ?thesis
  proof cases
    case s
    from matchLiteral_Some [OF s(1)] have "length r1 = 1 + length r2" by (simp add: str_def)
    with matchUrlTail_bounds [OF s(2)] s(3) len show ?thesis by simp
  next
    case nos
    with matchUrlTail_bounds [OF nos(1)] len show ?thesis by simp
  qed
qed

lemma matchHashtag_bounds: "matchHashtag r = Some k \<Longrightarrow> 0 < k \<and> k \<le> length r"
proof -
  assume a: "matchHashtag r = Some k"
  then obtain r' n where l: "matchLiteral (str ''#'') r = Some r'"
    and p: "matchPlus isTagChar r' = Some n" and k: "k = 1 + n"
    by (auto simp: matchHashtag_def split: option.splits)
  from matchLiteral_Some [OF l] have "length r = 1 + length r'" by (simp add: str_def)
  with matchPlus_bounds [OF p] k show ?thesis by simp
qed

lemma matchAt_bounds: "matchAt p r = Some k \<Longrightarrow> 0 < k \<and> k \<le> length r"
  by (cases p) (simp_all add: matchUrl_bounds matchHashtag_bounds)

lemma exec_Some:
  "exec p s i = Some (j, n) \<Longrightarrow> i \<le> j \<and> j \<le> length s \<and> matchAt p (drop j s) = Some n"
proof (induction p s i rule: exec.induct)
  case (1 p s i)
  show ?case
  proof (cases "length s < i")
    case True
    with "1.prems" show ?thesis by (simp add: exec.simps [of p s i])
  next
    case False
    show ?thesis
    proof (cases "matchAt p (drop i s)")
      case None
      with False "1.prems" have "exec p s (i + 1) = Some (j, n)" by (simp add: exec.simps [of p s i])
      from "1.IH" [OF False None this] show ?thesis by simp
    next
      case (Some m)
      with False "1.prems" show ?thesis by (simp add: exec.simps [of p s i])
    qed
  qed
qed

lemma exec_None:
  "exec p s i = None \<Longrightarrow> i \<le> j \<Longrightarrow> j \<le> length s \<Longrightarrow> matchAt p (drop j s) = None"
proof (induction p s i rule: exec.induct)
  case (1 p s i)
  from "1.prems"(2,3) have False: "\<not> length s < i" by simp
  show ?case
  proof (cases "matchAt p (drop i s)")
    case None
    with False "1.prems"(1) have e: "exec p s (i + 1) = None" by (simp add: exec.simps [of p s i])
    show ?thesis
    proof (cases "j = i")
      case True
      with None show ?thesis by simp
    next
      case False
      with "1.prems"(2) have "i + 1 \<le> j" by simp
      from "1.IH" [OF \<open>\<not> length s < i\<close> None e this "1.prems"(3)] show ?thesis .
    qed
  next
    case (Some m)
    with False "1.prems"(1) show ?thesis by (simp add: exec.simps [of p s i])
  qed
qed

lemma exec_no_match:
  "\<forall>j\<le>length s. matchAt p (drop j s) = None \<Longrightarrow> exec p s i = None"
proof (rule ccontr)
  assume a: "\<forall>j\<le>length s. matchAt p (drop j s) = None" and "exec p s i \<noteq> None"
  then obtain j n where "exec p s i = Some (j, n)" by auto
  from exec_Some [OF this] a show False by auto
qed

lemma execLoop_matches:
  "(j, m) \<in> set (execLoop p s i) \<Longrightarrow>
   i \<le> j \<and> j + length m \<le> length s \<and> m = take (length m) (drop j s)
   \<and> matchAt p (drop j s) = Some (length m)"
proof (induction p s i rule: execLoop.induct)
  case (1 p s i)
  show ?case
  proof (cases "exec p s i")
    case None
    with "1.prems" show ?thesis by (simp add: execLoop.simps [of p s i])
  next
    case (Some x)
    obtain k n where x: "x = (k, n)" by (cases x)
    from exec_Some [OF Some [unfolded x]] have ik: "i \<le> k" "k \<le> length s"
      and mt: "matchAt p (drop k s) = Some n" by simp_all
    from matchAt_bounds [OF mt] have n: "0 < n" "n \<le> length s - k" by simp_all
    from "1.prems" Some x have "(j, m) = (k, take n (drop k s)) \<or> (j, m) \<in> set (execLoop p s (k + n))"
      by (simp add: execLoop.simps [of p s i])
    then show ?thesis
    proof
      assume "(j, m) = (k, take n (drop k s))"
      with ik mt n show ?thesis by (simp add: min_absorb2)
    next
      assume "(j, m) \<in> set (execLoop p s (k + n))"
      from "1.IH" [OF Some x [symmetric] this] ik show ?thesis by simp
    qed
  qed
qed

lemma execLoop_empty:
  "\<forall>j\<le>length s. matchAt p (drop j s) = None \<Longrightarrow> execLoop p s i = []"
  by (simp add: execLoop.simps [of p s i] exec_no_match)

lemma execLoop_nonempty:
  "j \<le> length s \<Longrightarrow> matchAt p (drop j s) \<noteq> None \<Longrightarrow> execLoop p s 0 \<noteq> []"
proof
  assume j: "j \<le> length s" "matchAt p (drop j s) \<noteq> None" and e: "execLoop p s 0 = []"
  then have "exec p s 0 = None"
    by (cases "exec p s 0") (auto simp: execLoop.simps [of p s 0])
  from exec_None [OF this _ j(1)] j(2) show False by simp
qed

lemma matchLiteral_iff: "matchLiteral lit r = Some t \<longleftrightarrow> r = lit @ t"
  by (auto simp: matchLiteral_def prefix_def)

lemma matchLiteral_append: "matchLiteral lit (lit @ t) = Some t"
  by (simp add: matchLiteral_iff)

lemma matchPlus_defined: "(\<exists>k. matchPlus cls t = Some k) \<longleftrightarrow> t \<noteq> [] \<and> cls (hd t)"
  by (cases t) (auto simp: matchPlus_def Let_def)

lemma take_eq_iff: "length a = n \<Longrightarrow> (take n r = a \<and> P (drop n r)) = (\<exists>t. r = a @ t \<and> P t)"
proof
  assume n: "length a = n" and h: "take n r = a \<and> P (drop n r)"
  then have "r = a @ drop n r" by (metis append_take_drop_id)
  with h show "\<exists>t. r = a @ t \<and> P t" by blast
next
  assume n: "length a = n" and "\<exists>t. r = a @ t \<and> P t"
  then show "take n r = a \<and> P (drop n r)" by auto
qed

lemma hashtagAt_iff: "hashtagAt r \<longleftrightarrow> (\<exists>t. r = str ''#'' @ t \<and> t \<noteq> [] \<and> isTagChar (hd t))"
  unfolding hashtagAt_def
  using take_eq_iff [of "str ''#''" 1 r "\<lambda>t. t \<noteq> [] \<and> isTagChar (hd t)"]
  by (simp add: str_def)

lemma urlAt_iff:
  "urlAt r \<longleftrightarrow> (\<exists>t. r = str ''http://'' @ t \<and> t \<noteq> [] \<and> \<not> isWhiteSpace (hd t))
            \<or> (\<exists>t. r = str ''https://'' @ t \<and> t \<noteq> [] \<and> \<not> isWhiteSpace (hd t))"
  unfolding urlAt_def
  using take_eq_iff [of "str ''http://''" 7 r "\<lambda>t. t \<noteq> [] \<and> \<not> isWhiteSpace (hd t)"]
    take_eq_iff [of "str ''https://''" 8 r "\<lambda>t. t \<noteq> [] \<and> \<not> isWhiteSpace (hd t)"]
  by (simp add: str_def)

lemma matchHashtag_defined: "(\<exists>k. matchHashtag r = Some k) \<longleftrightarrow> hashtagAt r"
proof
  assume "\<exists>k. matchHashtag r = Some k"
  then obtain t k where "matchLiteral (str ''#'') r = Some t" "matchPlus isTagChar t = Some k"
    by (auto simp: matchHashtag_def split: option.splits)
  then show "hashtagAt r" using matchPlus_defined [of isTagChar t]
    by (auto simp: hashtagAt_iff matchLiteral_iff)
next
  assume "hashtagAt r"
  then obtain t where t: "r = str ''#'' @ t" "t \<noteq> []" "isTagChar (hd t)" by (auto simp: hashtagAt_iff)
  with matchPlus_defined [of isTagChar t] obtain k where "matchPlus isTagChar t = Some k" by blast
  with t show "\<exists>k. matchHashtag r = Some k" by (simp add: matchHashtag_def matchLiteral_append)
qed

lemma matchUrlTail_defined:
  "(\<exists>k. matchUrlTail r = Some k) \<longleftrightarrow> (\<exists>t. r = str ''://'' @ t \<and> t \<noteq> [] \<and> \<not> isWhiteSpace (hd t))"
proof
  assume "\<exists>k. matchUrlTail r = Some k"
  then obtain t k where "matchLiteral (str ''://'') r = Some t" "matchPlus (\<lambda>c. \<not> isWhiteSpace c) t = Some k"
    by (auto simp: matchUrlTail_def split: option.splits)
  then show "\<exists>t. r = str ''://'' @ t \<and> t \<noteq> [] \<and> \<not> isWhiteSpace (hd t)"
    using matchPlus_defined [of "\<lambda>c. \<not> isWhiteSpace c" t] by (auto simp: matchLiteral_iff)
next
  assume "\<exists>t. r = str ''://'' @ t \<and> t \<noteq> [] \<and> \<not> isWhiteSpace (hd t)"
  then obtain t where t: "r = str ''://'' @ t" "t \<noteq> []" "\<not> isWhiteSpace (hd t)" by blast
  with matchPlus_defined [of "\<lambda>c. \<not> isWhiteSpace c" t] obtain k
    where "matchPlus (\<lambda>c. \<not> isWhiteSpace c) t = Some k" by blast
  with t show "\<exists>k. matchUrlTail r = Some k" by (simp add: matchUrlTail_def matchLiteral_append)
qed

lemma matchUrl_defined: "(\<exists>k. matchUrl r = Some k) \<longleftrightarrow> urlAt r"
proof
  assume "\<exists>k. matchUrl r = Some k"
  then obtain k where k: "matchUrl r = Some k" by blast
  then obtain r1 where l: "r = str ''http'' @ r1"
    by (auto simp: matchUrl_def matchLiteral_iff split: option.splits)
  from k l consider (s) r2 n where "r1 = str ''s'' @ r2" "matchUrlTail r2 = Some n"
    | (nos) n where "matchUrlTail r1 = Some n"
    by (auto simp: matchUrl_def matchLiteral_append matchLiteral_iff split: option.splits)
  then show "urlAt r"
  proof cases
    case s
    from s(2) matchUrlTail_defined [of r2] obtain t where "r2 = str ''://'' @ t" "t \<noteq> []" "\<not> isWhiteSpace (hd t)"
      by blast
    with l s(1) have "r = str ''https://'' @ t \<and> t \<noteq> [] \<and> \<not> isWhiteSpace (hd t)" by (simp add: str_def)
    then show ?thesis unfolding urlAt_iff by blast
  next
    case nos
    from nos matchUrlTail_defined [of r1] obtain t where "r1 = str ''://'' @ t" "t \<noteq> []" "\<not> isWhiteSpace (hd t)"
      by blast
    with l have "r = str ''http://'' @ t \<and> t \<noteq> [] \<and> \<not> isWhiteSpace (hd t)" by (simp add: str_def)
    then show ?thesis unfolding urlAt_iff by blast
  qed
next
  assume "urlAt r"
  then consider (http) t where "r = str ''http://'' @ t" "t \<noteq> []" "\<not> isWhiteSpace (hd t)"
    | (https) t where "r = str ''https://'' @ t" "t \<noteq> []" "\<not> isWhiteSpace (hd t)"
    unfolding urlAt_iff by blast
  then show "\<exists>k. matchUrl r = Some k"
  proof cases
    case http
    then have r: "r = str ''http'' @ (str ''://'' @ t)" by (simp add: str_def)
    from http matchUrlTail_defined [of "str ''://'' @ t"] obtain n where n: "matchUrlTail (str ''://'' @ t) = Some n"
      by blast
    have "matchLiteral (str ''s'') (str ''://'' @ t) = None" by (simp add: matchLiteral_def str_def)
    with n show ?thesis unfolding r by (simp add: matchUrl_def matchLiteral_append)
  next
    case https
    then have r: "r = str ''http'' @ (str ''s'' @ (str ''://'' @ t))" by (simp add: str_def)
    from https matchUrlTail_defined [of "str ''://'' @ t"] obtain n where n: "matchUrlTail (str ''://'' @ t) = Some n"
      by blast
    then show ?thesis unfolding r by (simp add: matchUrl_def matchLiteral_append)
  qed
qed

lemma suffixes_drop: "set (suffixes s) = {drop j s | j. j \<le> length s}"
proof -
  have "suffix r s \<longleftrightarrow> (\<exists>j\<le>length s. r = drop j s)" for r
  proof
    assume "suffix r s"
    then obtain zs where "s = zs @ r" by (auto simp: suffix_def)
    then have "r = drop (length zs) s" "length zs \<le> length s" by simp_all
    then show "\<exists>j\<le>length s. r = drop j s" by blast
  next
    assume "\<exists>j\<le>length s. r = drop j s"
    then show "suffix r s" using suffix_drop by blast
  qed
  then show ?thesis by (auto simp: set_suffixes_eq)
qed

lemma textHasUrl_iff: "textHasUrl s \<longleftrightarrow> (\<exists>j\<le>length s. matchAt UrlRegex (drop j s) \<noteq> None)"
  using matchUrl_defined
  by (auto simp: textHasUrl_def list_ex_iff suffixes_drop)

lemma textHasHashtag_iff: "textHasHashtag s \<longleftrightarrow> (\<exists>j\<le>length s. matchAt HashtagRegex (drop j s) \<noteq> None)"
  using matchHashtag_defined
  by (auto simp: textHasHashtag_def list_ex_iff suffixes_drop)

lemma execLoop_Nil_iff: "execLoop p s 0 = [] \<longleftrightarrow> (\<forall>j\<le>length s. matchAt p (drop j s) = None)"
  using execLoop_empty [of s p 0] execLoop_nonempty [of _ s p] by blast

lemma extractFacets_Nil_iff:
  "extractFacets u s = [] \<longleftrightarrow> \<not> textHasUrl s \<and> \<not> textHasHashtag s"
  by (simp add: extractFacets_def execLoop_Nil_iff textHasUrl_iff textHasHashtag_iff)

lemma matchHashtag_starts: "matchHashtag r = Some k \<Longrightarrow> hd r = 0x23 \<and> r \<noteq> []"
  by (auto simp: matchHashtag_def matchLiteral_iff str_def split: option.splits)

lemma exec_leftmost:
  "exec p s k = Some (i, n) \<Longrightarrow> k \<le> j \<Longrightarrow> j < i \<Longrightarrow> matchAt p (drop j s) = None"
proof (induction p s k rule: exec.induct)
  case (1 p s k)
  from exec_Some [OF "1.prems"(1)] have i: "k \<le> i" "i \<le> length s" by simp_all
  with "1.prems"(3) have nl: "\<not> length s < k" by simp
  show ?case
  proof (cases "matchAt p (drop k s)")
    case None
    with nl "1.prems"(1) have e: "exec p s (k + 1) = Some (i, n)" by (simp add: exec.simps [of p s k])
    show ?thesis
    proof (cases "j = k")
      case True
      with None show ?thesis by simp
    next
      case False
      with "1.prems"(2) have "k + 1 \<le> j" by simp
      from "1.IH" [OF nl None e this "1.prems"(3)] show ?thesis .
    qed
  next
    case (Some m)
    with nl "1.prems"(1) have "i = k" by (simp add: exec.simps [of p s k])
    with "1.prems"(2,3) show ?thesis by simp
  qed
qed

lemma execLoop_covers:
  "k \<le> j \<Longrightarrow> j \<le> length s \<Longrightarrow> matchAt p (drop j s) = Some n \<Longrightarrow>
   \<exists>i m. (i, m) \<in> set (execLoop p s k) \<and> i \<le> j \<and> j < i + length m"
proof (induction p s k rule: execLoop.induct)
  case (1 p s k)
  show ?case
  proof (cases "exec p s k")
    case None
    from exec_None [OF None "1.prems"(1,2)] "1.prems"(3) show ?thesis by simp
  next
    case (Some x)
    obtain i n' where x: "x = (i, n')" by (cases x)
    note e = Some [unfolded x]
    from exec_Some [OF e] have b: "k \<le> i" "i \<le> length s" and mt: "matchAt p (drop i s) = Some n'"
      by simp_all
    from matchAt_bounds [OF mt] have n': "0 < n'" "n' \<le> length s - i" by simp_all
    have ij: "i \<le> j"
    proof (rule ccontr)
      assume "\<not> i \<le> j"
      then have "j < i" by simp
      from exec_leftmost [OF e "1.prems"(1) this] "1.prems"(3) show False by simp
    qed
    have unfold: "execLoop p s k = (i, take n' (drop i s)) # execLoop p s (i + n')"
      using e by (simp add: execLoop.simps [of p s k])
    show ?thesis
    proof (cases "j < i + n'")
      case True
      with ij n' b have "(i, take n' (drop i s)) \<in> set (execLoop p s k) \<and> i \<le> j
          \<and> j < i + length (take n' (drop i s))"
        unfolding unfold by (simp add: min_absorb2)
      then show ?thesis by blast
    next
      case False
      then have "i + n' \<le> j" by simp
      from "1.IH" [OF Some x [symmetric] this "1.prems"(2,3)]
      show ?thesis unfolding unfold by auto
    qed
  qed
qed

lemma codePoints_append:
  "b = [] \<or> \<not> isLowSurrogate (hd b) \<Longrightarrow> codePoints (a @ b) = codePoints a @ codePoints b"
proof (induction a rule: codePoints.induct)
  case 1
  then show ?case by simp
next
  case (2 c)
  then show ?case by (cases b) auto
next
  case (3 c d cs)
  then show ?case by auto
qed

lemma newBlobBytes_append:
  "b = [] \<or> \<not> isLowSurrogate (hd b) \<Longrightarrow>
   newBlobBytes u (a @ b) = newBlobBytes u a @ newBlobBytes u b"
  by (simp add: newBlobBytes_def codePoints_append)

lemma matchUrl_starts: "matchUrl r = Some k \<Longrightarrow> hd r = 0x68 \<and> r \<noteq> []"
  by (auto simp: matchUrl_def matchLiteral_iff str_def split: option.splits)

lemma matchAt_starts: "matchAt p r = Some k \<Longrightarrow> r \<noteq> [] \<and> \<not> isLowSurrogate (hd r)"
  using matchUrl_starts [of r k] matchHashtag_starts [of r k]
  by (cases p) (auto simp: isLowSurrogate_def)

lemma match_bytes_additive:
  assumes "(i, m) \<in> set (execLoop p s k)"
  shows "length (newBlobBytes u (take (i + length m) s))
         = length (newBlobBytes u (take i s)) + length (newBlobBytes u m)"
    and "newBlobBytes u s = newBlobBytes u (take i s) @ newBlobBytes u (drop i s)"
proof -
  from execLoop_matches [OF assms] have b: "i + length m \<le> length s"
    and m: "m = take (length m) (drop i s)" and mt: "matchAt p (drop i s) = Some (length m)"
    by simp_all
  from matchAt_starts [OF mt] have st: "drop i s \<noteq> []" "\<not> isLowSurrogate (hd (drop i s))" by simp_all
  from matchAt_bounds [OF mt] have "0 < length m" by simp
  then have "m \<noteq> []" by simp
  with m st have hm: "\<not> isLowSurrogate (hd m)" by (metis hd_take length_greater_0_conv)
  have "take (i + length m) s = take i s @ m" using m by (simp add: take_add)
  with newBlobBytes_append [of m u "take i s"] hm
  show "length (newBlobBytes u (take (i + length m) s))
         = length (newBlobBytes u (take i s)) + length (newBlobBytes u m)" by simp
  from newBlobBytes_append [of "drop i s" u "take i s"] st
  show "newBlobBytes u s = newBlobBytes u (take i s) @ newBlobBytes u (drop i s)" by simp
qed

lemma fetch_eq: "fetch P req w = (fetchResult P (requests w) req, w\<lparr>requests := requests w @ [req]\<rparr>)"
  by (simp add: fetch_def)

lemma requests_logger: "requests (logger m w) = requests w"
  by (simp add: logger_def)

lemma logged_logger: "logged (logger m w) = logged w @ [m]"
  by (simp add: logger_def)

lemma postToX_never_raises: "\<exists>b. fst (postToX P txt cr w) = Inr b"
  by (auto simp: postToX_def split: prod.splits sum.splits)

lemma postToX_true_iff:
  "fst (postToX P txt cr w) = Inr True \<longleftrightarrow>
   (\<exists>h resp. generateOAuthHeader P (str ''POST'') X_TWEETS_URL [] cr = Inr h
      \<and> fetchResult P (requests w) (tweetRequest h txt) = Inr resp \<and> responseCode resp = 201)"
  by (auto simp: postToX_def postToX_try_def fetch_eq split: prod.splits sum.splits if_splits)

lemma postToX_false_logged:
  "fst (postToX P txt cr w) = Inr False \<Longrightarrow>
   \<exists>m. logged (snd (postToX P txt cr w)) = logged w @ [m]
     \<and> ((\<exists>code body. m = XPostFailed code body \<and> code \<noteq> 201) \<or> (\<exists>e. m = XPostError e))"
  by (auto simp: postToX_def postToX_try_def fetch_eq logged_logger split: prod.splits sum.splits if_splits)

lemma postToX_requests:
  "requests (snd (postToX P txt cr w)) = requests w
   \<or> (\<exists>h. requests (snd (postToX P txt cr w)) = requests w @ [tweetRequest h txt])"
  by (auto simp: postToX_def postToX_try_def fetch_eq requests_logger split: prod.splits sum.splits if_splits)


lemma jsonParse_eq: "jsonParse r = (case parsedJson r of None \<Rightarrow> Inl SyntaxError | Some d \<Rightarrow> Inr d)"
  by (simp add: jsonParse_def)

lemma session_never_raises: "\<exists>tok. fst (createBlueskySession P cr w) = Inr tok"
  by (auto simp: createBlueskySession_def split: prod.splits sum.splits)

lemma session_requests:
  "requests (snd (createBlueskySession P cr w)) = requests w @ [createSessionRequest cr]"
  by (auto simp: createBlueskySession_def createBlueskySession_try_def fetch_eq requests_logger
           split: prod.splits sum.splits if_splits)

lemma session_token:
  "fetchResult P (requests w) (createSessionRequest cr) = Inr resp \<Longrightarrow> responseCode resp = 200 \<Longrightarrow>
   parsedJson resp = Some d \<Longrightarrow> getProperty d (str ''accessJwt'') = Inr tok \<Longrightarrow>
   fst (createBlueskySession P cr w) = Inr tok"
  by (simp add: createBlueskySession_def createBlueskySession_try_def fetch_eq jsonParse_eq)

lemma session_null:
  "fetchResult P (requests w) (createSessionRequest cr) = Inl e
   \<or> (\<exists>resp. fetchResult P (requests w) (createSessionRequest cr) = Inr resp
         \<and> (responseCode resp \<noteq> 200 \<or> parsedJson resp = None
            \<or> (\<exists>d e. parsedJson resp = Some d \<and> getProperty d (str ''accessJwt'') = Inl e))) \<Longrightarrow>
   fst (createBlueskySession P cr w) = Inr JNull"
  by (auto simp: createBlueskySession_def createBlueskySession_try_def fetch_eq jsonParse_eq)

lemma postToBluesky_no_session:
  "fst (createBlueskySession P cr w) = Inr tok \<Longrightarrow> \<not> truthy tok \<Longrightarrow>
   fst (postToBluesky P txt cr su ot od oi w) = Inr False
   \<and> requests (snd (postToBluesky P txt cr su ot od oi w)) = requests w @ [createSessionRequest cr]
   \<and> logged (snd (postToBluesky P txt cr su ot od oi w))
       = logged (snd (createBlueskySession P cr w)) @ [AuthenticationFailed]"
  using session_requests [of P cr w]
  by (cases "createBlueskySession P cr w") (simp add: postToBluesky_def requests_logger logged_logger)

lemma upload_never_raises: "\<exists>blob. fst (uploadBlobToBluesky P u tok w) = Inr blob"
  by (auto simp: uploadBlobToBluesky_def split: prod.splits sum.splits)

lemma upload_records:
  "submittedRecords (snd (uploadBlobToBluesky P u tok w)) = submittedRecords w"
  by (auto simp: uploadBlobToBluesky_def uploadBlobToBluesky_try_def fetch_eq Let_def logger_def
       submittedRecords_def downloadRequest_def uploadRequest_def
           split: prod.splits sum.splits if_splits)

lemma upload_not_Inl: "uploadBlobToBluesky P u tok w \<noteq> (Inl e, w1)"
  using upload_never_raises [of P u tok w] by auto

lemma session_not_Inl: "createBlueskySession P cr w \<noteq> (Inl e, w1)"
  using session_never_raises [of P cr w] by auto

lemma attachThumb_result:
  "\<exists>x. fst (attachThumb P tok oi ext w) = Inr x \<and> uri x = uri ext \<and> ext_title x = ext_title ext
      \<and> description x = description ext"
  by (auto simp: attachThumb_def upload_not_Inl split: option.splits prod.splits sum.splits)

lemma attachThumb_records:
  "submittedRecords (snd (attachThumb P tok oi ext w)) = submittedRecords w"
proof (cases oi)
  case None
  then show ?thesis by (simp add: attachThumb_def)
next
  case (Some i)
  show ?thesis
  proof (cases "i = []")
    case True
    with Some show ?thesis by (simp add: attachThumb_def)
  next
    case False
    obtain x w1 where u: "uploadBlobToBluesky P i tok w = (x, w1)" by (cases "uploadBlobToBluesky P i tok w")
    with upload_records [of P i tok w] have "submittedRecords w1 = submittedRecords w" by simp
    with Some False u show ?thesis
      by (auto simp: attachThumb_def logger_def submittedRecords_def split: sum.splits)
  qed
qed

lemma attachEmbed_result:
  "\<exists>r. fst (attachEmbed P tok su ot od oi record w) = Inr r \<and> facets r = facets record
      \<and> rec_text r = rec_text record \<and> rec_type r = rec_type record \<and> createdAt r = createdAt record"
proof (cases su)
  case None
  then show ?thesis by (simp add: attachEmbed_def)
next
  case (Some u)
  show ?thesis
  proof (cases "u = []")
    case True
    with Some show ?thesis by (simp add: attachEmbed_def)
  next
    case False
    define ext where "ext = \<lparr>uri = u, ext_title = orDefault ot DEFAULT_OGP_TITLE,
       description = orDefault od DEFAULT_OGP_DESCRIPTION, thumb = None\<rparr>"
    from attachThumb_result [of P tok oi ext w] obtain x where "fst (attachThumb P tok oi ext w) = Inr x"
      by blast
    then obtain w1 where "attachThumb P tok oi ext w = (Inr x, w1)" by (cases "attachThumb P tok oi ext w") simp
    with Some False show ?thesis by (simp add: attachEmbed_def ext_def)
  qed
qed

lemma attachEmbed_records:
  "submittedRecords (snd (attachEmbed P tok su ot od oi record w)) = submittedRecords w"
proof (cases su)
  case None
  then show ?thesis by (simp add: attachEmbed_def)
next
  case (Some u)
  show ?thesis
  proof (cases "u = []")
    case True
    with Some show ?thesis by (simp add: attachEmbed_def)
  next
    case False
    define ext where "ext = \<lparr>uri = u, ext_title = orDefault ot DEFAULT_OGP_TITLE,
       description = orDefault od DEFAULT_OGP_DESCRIPTION, thumb = None\<rparr>"
    obtain x w1 where a: "attachThumb P tok oi ext w = (x, w1)" by (cases "attachThumb P tok oi ext w")
    with attachThumb_records [of P tok oi ext w] have "submittedRecords w1 = submittedRecords w" by simp
    with Some False a show ?thesis
      by (auto simp: attachEmbed_def ext_def logger_def submittedRecords_def split: sum.splits)
  qed
qed


lemma attachEmbed_not_Inl: "attachEmbed P tok su ot od oi r0 w \<noteq> (Inl e, w1)"
  using attachEmbed_result [of P tok su ot od oi r0 w] by auto

lemma records_logger: "submittedRecords (logger m w) = submittedRecords w"
  by (simp add: submittedRecords_def logger_def)

lemma session_records: "submittedRecords (snd (createBlueskySession P cr w)) = submittedRecords w"
  using session_requests [of P cr w]
  by (simp add: submittedRecords_def createSessionRequest_def)

lemma publish_records:
  "\<exists>r. fst (attachEmbed P tok su ot od oi
              (initialRecord txt (isoNow P) (extractFacets (unpairedBytes P) txt)) w) = Inr r
     \<and> submittedRecords (snd (postToBluesky_try P txt cr tok su ot od oi w)) = submittedRecords w @ [r]"
proof -
  define rec0 where "rec0 = initialRecord txt (isoNow P) (extractFacets (unpairedBytes P) txt)"
  from attachEmbed_result [of P tok su ot od oi rec0 w] obtain r where
    r: "fst (attachEmbed P tok su ot od oi rec0 w) = Inr r" by blast
  then obtain w1 where a: "attachEmbed P tok su ot od oi rec0 w = (Inr r, w1)"
    by (cases "attachEmbed P tok su ot od oi rec0 w") simp
  with attachEmbed_records [of P tok su ot od oi rec0 w] have w1: "submittedRecords w1 = submittedRecords w"
    by simp
  have "submittedRecords (snd (postToBluesky_try P txt cr tok su ot od oi w)) = submittedRecords w1 @ [r]"
    using a
    by (auto simp: postToBluesky_try_def Let_def rec0_def fetch_eq createRecordRequest_def
          submittedRecords_def logger_def split: sum.splits)
  with r w1 show ?thesis unfolding rec0_def by simp
qed

lemma postToBluesky_never_raises: "\<exists>b. fst (postToBluesky P txt cr su ot od oi w) = Inr b"
  by (auto simp: postToBluesky_def session_not_Inl split: prod.splits sum.splits)

lemma postToBluesky_records:
  assumes "fst (createBlueskySession P cr w) = Inr tok" "truthy tok"
  shows "\<exists>r. submittedRecords (snd (postToBluesky P txt cr su ot od oi w)) = submittedRecords w @ [r]
     \<and> facets r = facets (initialRecord txt (isoNow P) (extractFacets (unpairedBytes P) txt))
     \<and> rec_text r = txt"
proof -
  obtain w1 where s: "createBlueskySession P cr w = (Inr tok, w1)"
    using assms(1) by (cases "createBlueskySession P cr w") simp
  with session_records [of P cr w] have w1: "submittedRecords w1 = submittedRecords w" by simp
  define rec0 where "rec0 = initialRecord txt (isoNow P) (extractFacets (unpairedBytes P) txt)"
  from publish_records [of P tok su ot od oi "txt" w1 cr] obtain r where
    r: "fst (attachEmbed P tok su ot od oi rec0 w1) = Inr r"
    and t: "submittedRecords (snd (postToBluesky_try P txt cr tok su ot od oi w1)) = submittedRecords w1 @ [r]"
    unfolding rec0_def by blast
  from attachEmbed_result [of P tok su ot od oi rec0 w1] r
  have f: "facets r = facets rec0" "rec_text r = rec_text rec0" by auto
  have "submittedRecords (snd (postToBluesky P txt cr su ot od oi w)) = submittedRecords w1 @ [r]"
    using s assms(2) t
    by (cases "postToBluesky_try P txt cr tok su ot od oi w1")
       (auto simp: postToBluesky_def records_logger split: sum.splits)
  with w1 f show ?thesis unfolding rec0_def by (simp add: initialRecord_def)
qed

lemma link_facet_offsets:
  assumes "(i, m) \<in> set (execLoop UrlRegex s 0)"
  shows "i + length m \<le> length s \<and> take (length m) (drop i s) = m
     \<and> features (linkFacet u s (i, m)) = [Link m] \<and> matchUrl (drop i s) = Some (length m)
     \<and> byteStart (index (linkFacet u s (i, m))) = length (newBlobBytes u (take i s))
     \<and> byteEnd (index (linkFacet u s (i, m)))
       = byteStart (index (linkFacet u s (i, m))) + length (newBlobBytes u m)
     \<and> byteEnd (index (linkFacet u s (i, m))) = length (newBlobBytes u (take (i + length m) s))"
  using execLoop_matches [OF assms] match_bytes_additive(1) [OF assms, of u]
  by (simp add: linkFacet_def Let_def)

lemma tag_facet_offsets:
  assumes "(i, m) \<in> set (execLoop HashtagRegex s 0)"
  shows "i + length m \<le> length s \<and> take (length m) (drop i s) = m
     \<and> features (tagFacet u s (i, m)) = [Tag (drop 1 m)]
     \<and> matchHashtag (drop i s) = Some (length m) \<and> m = 0x23 # drop 1 m
     \<and> byteStart (index (tagFacet u s (i, m))) = length (newBlobBytes u (take i s))
     \<and> byteEnd (index (tagFacet u s (i, m)))
       = byteStart (index (tagFacet u s (i, m))) + length (newBlobBytes u m)
     \<and> byteEnd (index (tagFacet u s (i, m))) = length (newBlobBytes u (take (i + length m) s))"
proof -
  from execLoop_matches [OF assms] have b: "i + length m \<le> length s"
    and m: "m = take (length m) (drop i s)" and mt: "matchHashtag (drop i s) = Some (length m)"
    by simp_all
  from matchHashtag_bounds [OF mt] have "m \<noteq> []" by auto
  moreover from matchHashtag_starts [OF mt] have "hd (drop i s) = 0x23" by simp
  ultimately have "hd m = 0x23" using m by (metis hd_take length_greater_0_conv)
  with \<open>m \<noteq> []\<close> have shape: "m = 0x23 # drop 1 m" by (cases m) simp_all
  from b m mt shape match_bytes_additive(1) [OF assms, of u] show ?thesis
    by (simp add: tagFacet_def Let_def)
qed

lemma extractFacets_members:
  "f \<in> set (extractFacets u s) \<longleftrightarrow>
   (\<exists>i m. (i, m) \<in> set (execLoop UrlRegex s 0) \<and> f = linkFacet u s (i, m))
   \<or> (\<exists>i m. (i, m) \<in> set (execLoop HashtagRegex s 0) \<and> f = tagFacet u s (i, m))"
  by (auto simp: extractFacets_def)

lemma extractFacets_Code_members:
  "f \<in> set (extractFacets_Code u s) \<longleftrightarrow>
   (\<exists>i m. (i, m) \<in> set (execLoop UrlRegex s 0) \<and> f = linkFacet u s (i, m))"
  by (auto simp: extractFacets_Code_def)

lemma facet_offsets:
  assumes "f \<in> set (extractFacets u s)"
  shows "(\<exists>i m. i + length m \<le> length s \<and> take (length m) (drop i s) = m
         \<and> ((features f = [Link m] \<and> matchUrl (drop i s) = Some (length m))
            \<or> (features f = [Tag (drop 1 m)] \<and> matchHashtag (drop i s) = Some (length m)
                \<and> m = 0x23 # drop 1 m))
         \<and> byteStart (index f) = length (newBlobBytes u (take i s))
         \<and> byteEnd (index f) = byteStart (index f) + length (newBlobBytes u m)
         \<and> byteEnd (index f) = length (newBlobBytes u (take (i + length m) s)))
      \<and> (\<forall>t. features f = [Tag t] \<longrightarrow>
            byteEnd (index f) - byteStart (index f) = length (newBlobBytes u (0x23 # t)))"
proof -
  from assms consider (link) i m where "(i, m) \<in> set (execLoop UrlRegex s 0)" "f = linkFacet u s (i, m)"
    | (tag) i m where "(i, m) \<in> set (execLoop HashtagRegex s 0)" "f = tagFacet u s (i, m)"
    unfolding extractFacets_members by blast
  then show ?thesis
  proof cases
    case link
    from link_facet_offsets [OF link(1), of u] show ?thesis unfolding link(2) by auto
  next
    case tag
    from tag_facet_offsets [OF tag(1), of u]
    have main: "i + length m \<le> length s \<and> take (length m) (drop i s) = m
     \<and> features f = [Tag (drop 1 m)]
     \<and> matchHashtag (drop i s) = Some (length m) \<and> m = 0x23 # drop 1 m
     \<and> byteStart (index f) = length (newBlobBytes u (take i s))
     \<and> byteEnd (index f) = byteStart (index f) + length (newBlobBytes u m)
     \<and> byteEnd (index f) = length (newBlobBytes u (take (i + length m) s))"
      unfolding tag(2) .
    then have "\<forall>t. features f = [Tag t] \<longrightarrow>
            byteEnd (index f) - byteStart (index f) = length (newBlobBytes u (0x23 # t))"
      by (metis add_diff_cancel_left' feature.inject(2) list.inject)
    with main show ?thesis by blast
  qed
qed

lemma facet_Code_offsets:
  assumes "g \<in> set (extractFacets_Code u s)"
  shows "\<exists>i m. i + length m \<le> length s \<and> take (length m) (drop i s) = m
         \<and> features g = [Link m] \<and> matchUrl (drop i s) = Some (length m)
         \<and> byteStart (index g) = length (newBlobBytes u (take i s))
         \<and> byteEnd (index g) = byteStart (index g) + length (newBlobBytes u m)"
proof -
  from assms obtain i m where l: "(i, m) \<in> set (execLoop UrlRegex s 0)" "g = linkFacet u s (i, m)"
    unfolding extractFacets_Code_members by blast
  from link_facet_offsets [OF l(1), of u] show ?thesis unfolding l(2) by blast
qed

lemma url_match_covered:
  assumes "j \<le> length s" "matchUrl (drop j s) = Some n"
  shows "\<exists>i m. i \<le> j \<and> j < i + length m
       \<and> linkFacet u s (i, m) \<in> set (extractFacets u s)
       \<and> linkFacet u s (i, m) \<in> set (extractFacets_Code u s)"
proof -
  from assms(2) have "matchAt UrlRegex (drop j s) = Some n" by simp
  from execLoop_covers [OF _ assms(1) this, of 0] obtain i m
    where "(i, m) \<in> set (execLoop UrlRegex s 0)" "i \<le> j" "j < i + length m" by auto
  then show ?thesis unfolding extractFacets_members extractFacets_Code_members by blast
qed

lemma hashtag_match_covered:
  assumes "j \<le> length s" "matchHashtag (drop j s) = Some n"
  shows "\<exists>i m. i \<le> j \<and> j < i + length m \<and> tagFacet u s (i, m) \<in> set (extractFacets u s)"
proof -
  from assms(2) have "matchAt HashtagRegex (drop j s) = Some n" by simp
  from execLoop_covers [OF _ assms(1) this, of 0] obtain i m
    where "(i, m) \<in> set (execLoop HashtagRegex s 0)" "i \<le> j" "j < i + length m" by auto
  then show ?thesis unfolding extractFacets_members by blast
qed

text \<open>
  Claim C1. For every span that \<open>extractFacets\<close> returns there is a match of the URL
  pattern or of the hashtag pattern in the text, at a position \<open>i\<close> and with the
  substring \<open>m\<close>, such that \<open>byteStart\<close> is the UTF-8 byte length of the text before
  \<open>i\<close> and \<open>byteEnd\<close> is \<open>byteStart\<close> plus the UTF-8 byte length of \<open>m\<close>, which is
  also the byte length of the text up to the end of the match. For a hashtag span
  \<open>byteEnd - byteStart\<close> is the byte length of \<open>#\<close> and the tag. The same holds of the
  URL spans of \<open>extractFacets\<close> in \<open>src/Code.ts\<close>. Every position where a pattern
  matches lies in a match that has its span.
\<close>

theorem extractFacets_byte_offsets:
  "(f \<in> set (extractFacets unpaired s) \<longrightarrow>
      (\<exists>i m. i + length m \<le> length s \<and> take (length m) (drop i s) = m
         \<and> ((features f = [Link m] \<and> matchUrl (drop i s) = Some (length m))
            \<or> (features f = [Tag (drop 1 m)] \<and> matchHashtag (drop i s) = Some (length m)
                \<and> m = 0x23 # drop 1 m))
         \<and> byteStart (index f) = length (newBlobBytes unpaired (take i s))
         \<and> byteEnd (index f) = byteStart (index f) + length (newBlobBytes unpaired m)
         \<and> byteEnd (index f) = length (newBlobBytes unpaired (take (i + length m) s)))
      \<and> (\<forall>t. features f = [Tag t] \<longrightarrow>
            byteEnd (index f) - byteStart (index f) = length (newBlobBytes unpaired (0x23 # t))))
   \<and> (g \<in> set (extractFacets_Code unpaired s) \<longrightarrow>
      (\<exists>i m. i + length m \<le> length s \<and> take (length m) (drop i s) = m
         \<and> features g = [Link m] \<and> matchUrl (drop i s) = Some (length m)
         \<and> byteStart (index g) = length (newBlobBytes unpaired (take i s))
         \<and> byteEnd (index g) = byteStart (index g) + length (newBlobBytes unpaired m)))
   \<and> (j \<le> length s \<and> matchUrl (drop j s) = Some n \<longrightarrow>
        (\<exists>i m. i \<le> j \<and> j < i + length m
           \<and> linkFacet unpaired s (i, m) \<in> set (extractFacets unpaired s)
           \<and> linkFacet unpaired s (i, m) \<in> set (extractFacets_Code unpaired s)))
   \<and> (k \<le> length s \<and> matchHashtag (drop k s) = Some n' \<longrightarrow>
        (\<exists>i m. i \<le> k \<and> k < i + length m
           \<and> tagFacet unpaired s (i, m) \<in> set (extractFacets unpaired s)))"
  using facet_offsets [of f unpaired s] facet_Code_offsets [of g unpaired s]
    url_match_covered [of j s n unpaired] hashtag_match_covered [of k s n' unpaired]
  by (intro conjI impI) blast+

lemma exampleText_units:
  "exampleText = [0x3042, 0x20, 0x23, 0x66F8, 0x5199, 0x20, 0x68, 0x74, 0x74, 0x70, 0x73, 0x3A,
                  0x2F, 0x2F, 0x61, 0x2E, 0x62, 0x2F, 0x63, 0x20, 0x64]"
  by (simp add: exampleText_def str_def)

lemma exampleText_urls: "execLoop UrlRegex exampleText 0 = [(6, str ''https://a.b/c'')]"
  unfolding exampleText_units
  by (simp add: execLoop.simps exec.simps str_def matchUrl_def matchUrlTail_def matchLiteral_def
        matchPlus_def isWhiteSpace_def)

lemma exampleText_hashtags: "execLoop HashtagRegex exampleText 0 = [(2, [0x23, 0x66F8, 0x5199])]"
  unfolding exampleText_units
  by (simp add: execLoop.simps exec.simps str_def matchHashtag_def matchLiteral_def
        matchPlus_def isTagChar_def)

lemma exampleText_link:
  "linkFacet [0x3F] exampleText (6, str ''https://a.b/c'') = exampleLinkFacet"
  unfolding exampleText_units
  by (simp add: linkFacet_def exampleLinkFacet_def newBlobBytes_def str_def singleUnit_def
        isHighSurrogate_def isLowSurrogate_def utf8_def)

lemma exampleText_tag:
  "tagFacet [0x3F] exampleText (2, [0x23, 0x66F8, 0x5199]) = exampleTagFacet"
  unfolding exampleText_units
  by (simp add: tagFacet_def exampleTagFacet_def newBlobBytes_def singleUnit_def
        isHighSurrogate_def isLowSurrogate_def utf8_def)

lemma exampleText_facets:
  "extractFacets [0x3F] exampleText = [exampleLinkFacet, exampleTagFacet]"
  by (simp add: extractFacets_def exampleText_urls exampleText_hashtags exampleText_link
        exampleText_tag)

lemma exampleText_facets_Code: "extractFacets_Code [0x3F] exampleText = [exampleLinkFacet]"
  by (simp add: extractFacets_Code_def exampleText_urls exampleText_link)

lemma exampleText_matches:
  "matchUrl (drop 6 exampleText) = Some 13" "matchHashtag (drop 2 exampleText) = Some 3"
  "length exampleText = 21"
  unfolding exampleText_units
  by (simp_all add: str_def matchUrl_def matchUrlTail_def matchHashtag_def matchLiteral_def
        matchPlus_def isWhiteSpace_def isTagChar_def)


theorem extractFacets_byte_offsets_witness:
  "exampleTagFacet \<in> set (extractFacets [0x3F] exampleText)
   \<and> exampleLinkFacet \<in> set (extractFacets_Code [0x3F] exampleText)
   \<and> (6 \<le> length exampleText \<and> matchUrl (drop 6 exampleText) = Some 13)
   \<and> (2 \<le> length exampleText \<and> matchHashtag (drop 2 exampleText) = Some 3)
   \<and> byteEnd (index exampleTagFacet) - byteStart (index exampleTagFacet)
     = length (newBlobBytes [0x3F] [0x23, 0x66F8, 0x5199])
   \<and> (\<exists>i m. i \<le> 6 \<and> 6 < i + length m
         \<and> linkFacet [0x3F] exampleText (i, m) \<in> set (extractFacets [0x3F] exampleText))
   \<and> (\<exists>i m. i \<le> 2 \<and> 2 < i + length m
         \<and> tagFacet [0x3F] exampleText (i, m) \<in> set (extractFacets [0x3F] exampleText))"
proof -
  have f: "exampleTagFacet \<in> set (extractFacets [0x3F] exampleText)"
    and g: "exampleLinkFacet \<in> set (extractFacets_Code [0x3F] exampleText)"
    by (simp_all add: exampleText_facets exampleText_facets_Code)
  have t: "features exampleTagFacet = [Tag [0x66F8, 0x5199]]" by (simp add: exampleTagFacet_def)
  have j: "6 \<le> length exampleText \<and> matchUrl (drop 6 exampleText) = Some 13"
    and k: "2 \<le> length exampleText \<and> matchHashtag (drop 2 exampleText) = Some 3"
    by (simp_all add: exampleText_matches)
  note T = extractFacets_byte_offsets
    [of exampleTagFacet "[0x3F]" exampleText exampleLinkFacet 6 13 2 3]
  from T f t have a: "byteEnd (index exampleTagFacet) - byteStart (index exampleTagFacet)
     = length (newBlobBytes [0x3F] [0x23, 0x66F8, 0x5199])" by blast
  from T j have b: "\<exists>i m. i \<le> 6 \<and> 6 < i + length m
         \<and> linkFacet [0x3F] exampleText (i, m) \<in> set (extractFacets [0x3F] exampleText)" by blast
  from T k have c: "\<exists>i m. i \<le> 2 \<and> 2 < i + length m
         \<and> tagFacet [0x3F] exampleText (i, m) \<in> set (extractFacets [0x3F] exampleText)" by blast
  from f g j k a b c show ?thesis by blast
qed

subsection \<open>The scripted platforms\<close>

lemma scripted_fields:
  "unpairedBytes (scriptedPlatform a) = [0x3F]"
  "isoNow (scriptedPlatform a) = str ''2023-11-14T22:13:20.123Z''"
  "fetchResult (scriptedPlatform a) rs req = a (req_url req)"
  by (simp_all add: scriptedPlatform_def)

lemma uploadFails_answers:
  "fetchResult uploadFails rs (createSessionRequest cr)
     = Inr (plainResponse 200 (str ''{...}'') (Some sessionBody))"
  "fetchResult uploadFails rs (uploadRequest m tok bs) = Inr (plainResponse 500 (str ''error'') None)"
  "fetchResult uploadFails rs (createRecordRequest cr tok r)
     = Inr (plainResponse 200 (str ''{}'') (Some (JObj [])))"
  "fetchResult uploadFails rs (downloadRequest exampleImageUrl)
     = Inr (plainResponse 200 (str ''{}'') (Some (JObj [])))"
  by (simp_all add: uploadFails_def scripted_fields createSessionRequest_def uploadRequest_def
        createRecordRequest_def downloadRequest_def exampleImageUrl_def BLUESKY_API_BASE_def str_def)

lemma uploadFails_fields:
  "unpairedBytes uploadFails = [0x3F]" "isoNow uploadFails = str ''2023-11-14T22:13:20.123Z''"
  by (simp_all add: uploadFails_def scripted_fields)

lemma plainResponse_fields:
  "responseCode (plainResponse c b p) = c" "contentText (plainResponse c b p) = b"
  "parsedJson (plainResponse c b p) = p" "blobContentType (plainResponse c b p) = None"
  "blobBytes (plainResponse c b p) = []"
  by (simp_all add: plainResponse_def)

lemma uploadFails_session:
  "fst (createBlueskySession uploadFails exampleBluesky w) = Inr exampleToken"
proof (rule session_token)
  show "fetchResult uploadFails (requests w) (createSessionRequest exampleBluesky)
     = Inr (plainResponse 200 (str ''{...}'') (Some sessionBody))" by (rule uploadFails_answers)
  show "responseCode (plainResponse 200 (str ''{...}'') (Some sessionBody)) = 200"
    by (simp add: plainResponse_fields)
  show "parsedJson (plainResponse 200 (str ''{...}'') (Some sessionBody)) = Some sessionBody"
    by (simp add: plainResponse_fields)
  show "getProperty sessionBody (str ''accessJwt'') = Inr exampleToken"
    by (simp add: sessionBody_def exampleToken_def)
qed

lemma exampleToken_truthy: "truthy exampleToken"
  by (simp add: exampleToken_def str_def)

lemma plainText_units:
  "plainText = [0x660E, 0x6697, 0x20, 0x68, 0x74, 0x74, 0x70, 0x3A, 0x2F, 0x2F, 0x20, 0x23, 0x20,
                0x6E, 0x6F]"
  by (simp add: plainText_def str_def)

lemma plainText_facets: "extractFacets unpaired plainText = []"
  unfolding plainText_units
  by (simp add: extractFacets_def execLoop.simps exec.simps str_def matchUrl_def matchUrlTail_def
        matchHashtag_def matchLiteral_def matchPlus_def isWhiteSpace_def isTagChar_def)

lemma plainText_plain: "\<not> textHasUrl plainText \<and> \<not> textHasHashtag plainText"
  using extractFacets_Nil_iff [of "[]" plainText] plainText_facets [of "[]"] by simp

text \<open>
  C4. A text without URL and without hashtag has no spans, and only such a text.
  The record that \<open>postToBluesky\<close> builds has the field \<open>facets\<close> exactly when there
  is a span, and then it holds the spans; the record submitted for the text, when
  the session gives a token, has no \<open>facets\<close> field for a text without URL and
  hashtag, and the spans of the text otherwise.
\<close>

theorem no_spans_no_facets_field:
  "(extractFacets unpaired s = [] \<longleftrightarrow> \<not> textHasUrl s \<and> \<not> textHasHashtag s)
   \<and> facets (initialRecord s now (extractFacets unpaired s))
       = (if extractFacets unpaired s = [] then None else Some (extractFacets unpaired s))
   \<and> (fst (createBlueskySession P cr w) = Inr tok \<and> truthy tok \<longrightarrow>
        (\<exists>r. submittedRecords (snd (postToBluesky P s cr su ot od oi w)) = submittedRecords w @ [r]
           \<and> rec_text r = s
           \<and> facets r = (if \<not> textHasUrl s \<and> \<not> textHasHashtag s then None
                         else Some (extractFacets (unpairedBytes P) s))))"
proof (intro conjI impI)
  show "extractFacets unpaired s = [] \<longleftrightarrow> \<not> textHasUrl s \<and> \<not> textHasHashtag s"
    by (rule extractFacets_Nil_iff)
  show "facets (initialRecord s now (extractFacets unpaired s))
       = (if extractFacets unpaired s = [] then None else Some (extractFacets unpaired s))"
    by (simp add: initialRecord_def)
next
  assume a: "fst (createBlueskySession P cr w) = Inr tok \<and> truthy tok"
  from postToBluesky_records [of P cr w tok s su ot od oi] a obtain r where
    r: "submittedRecords (snd (postToBluesky P s cr su ot od oi w)) = submittedRecords w @ [r]"
      "facets r = facets (initialRecord s (isoNow P) (extractFacets (unpairedBytes P) s))"
      "rec_text r = s" by blast
  have "facets r = (if \<not> textHasUrl s \<and> \<not> textHasHashtag s then None
                         else Some (extractFacets (unpairedBytes P) s))"
    using r(2) extractFacets_Nil_iff [of "unpairedBytes P" s] by (simp add: initialRecord_def)
  with r show "\<exists>r. submittedRecords (snd (postToBluesky P s cr su ot od oi w)) = submittedRecords w @ [r]
           \<and> rec_text r = s
           \<and> facets r = (if \<not> textHasUrl s \<and> \<not> textHasHashtag s then None
                         else Some (extractFacets (unpairedBytes P) s))" by blast
qed

theorem no_spans_no_facets_field_witness:
  "fst (createBlueskySession uploadFails exampleBluesky emptyWorld) = Inr exampleToken
   \<and> truthy exampleToken
   \<and> \<not> textHasUrl plainText \<and> \<not> textHasHashtag plainText
   \<and> extractFacets [0x3F] plainText = []
   \<and> facets (initialRecord plainText [] (extractFacets [0x3F] plainText)) = None
   \<and> (\<exists>r. submittedRecords (snd (postToBluesky uploadFails plainText exampleBluesky
                                     None None None None emptyWorld)) = [r]
          \<and> rec_text r = plainText \<and> facets r = None)
   \<and> facets (initialRecord exampleText [] (extractFacets [0x3F] exampleText))
       = Some [exampleLinkFacet, exampleTagFacet]
   \<and> (\<exists>r. submittedRecords (snd (postToBluesky uploadFails exampleText exampleBluesky
                                     None None None None emptyWorld)) = [r]
          \<and> rec_text r = exampleText \<and> facets r = Some [exampleLinkFacet, exampleTagFacet])"
proof -
  have e: "submittedRecords emptyWorld = []" by (simp add: submittedRecords_def emptyWorld_def)
  have x: "\<not> (\<not> textHasUrl exampleText \<and> \<not> textHasHashtag exampleText)"
    using extractFacets_Nil_iff [of "[0x3F]" exampleText] by (simp add: exampleText_facets)
  note T = no_spans_no_facets_field [of "[0x3F]" plainText "[]" uploadFails exampleBluesky
      emptyWorld exampleToken None None None None]
  note U = no_spans_no_facets_field [of "[0x3F]" exampleText "[]" uploadFails exampleBluesky
      emptyWorld exampleToken None None None None]
  from T have 1: "facets (initialRecord plainText [] (extractFacets [0x3F] plainText)) = None"
    by (simp add: plainText_facets)
  from T uploadFails_session [of emptyWorld] exampleToken_truthy plainText_plain
  have 2: "\<exists>r. submittedRecords (snd (postToBluesky uploadFails plainText exampleBluesky
                                     None None None None emptyWorld)) = [r]
          \<and> rec_text r = plainText \<and> facets r = None"
    by (simp add: e)
  from U have 3: "facets (initialRecord exampleText [] (extractFacets [0x3F] exampleText))
       = Some [exampleLinkFacet, exampleTagFacet]"
    by (simp add: exampleText_facets)
  from U uploadFails_session [of emptyWorld] exampleToken_truthy x
  have 4: "\<exists>r. submittedRecords (snd (postToBluesky uploadFails exampleText exampleBluesky
                                     None None None None emptyWorld)) = [r]
          \<and> rec_text r = exampleText \<and> facets r = Some [exampleLinkFacet, exampleTagFacet]"
    by (simp only: e uploadFails_fields exampleText_facets if_False append_Nil simp_thms)
  from uploadFails_session [of emptyWorld] exampleToken_truthy plainText_plain
    plainText_facets [of "[0x3F]"] 1 2 3 4
  show ?thesis by blast
qed

subsection \<open>The session\<close>

lemma session_result:
  "fst (createBlueskySession P cr w) =
     (case fetchResult P (requests w) (createSessionRequest cr) of
        Inl e \<Rightarrow> Inr JNull
      | Inr resp \<Rightarrow>
          if responseCode resp = 200
          then (case parsedJson resp of
                  None \<Rightarrow> Inr JNull
                | Some d \<Rightarrow> (case getProperty d (str ''accessJwt'') of
                              Inl e \<Rightarrow> Inr JNull
                            | Inr tok \<Rightarrow> Inr tok))
          else Inr JNull)"
  by (simp add: createBlueskySession_def createBlueskySession_try_def fetch_eq jsonParse_eq
        split: sum.splits option.splits)

lemma getProperty_member:
  "map_of kvs k = Some v \<Longrightarrow> getProperty (JObj kvs) k = Inr v"
  by simp

lemma notJson_answers: "fetchResult notJson rs req = Inr (plainResponse 200 (str ''<html>'') None)"
  by (simp add: notJson_def scripted_fields)

lemma notJson_session: "fst (createBlueskySession notJson exampleBluesky w) = Inr JNull"
  by (simp add: session_result notJson_answers plainResponse_fields)

text \<open>
  C5, as stated, fails: the platform \<open>notJson\<close> answers the session request with
  status 200 and a body that is not JSON, and \<open>createBlueskySession\<close> returns
  \<open>null\<close>, not a token.
\<close>

theorem session_status_200_counterexample:
  "fetchResult notJson (requests emptyWorld) (createSessionRequest exampleBluesky)
     = Inr (plainResponse 200 (str ''<html>'') None)
   \<and> responseCode (plainResponse 200 (str ''<html>'') None) = 200
   \<and> fst (createBlueskySession notJson exampleBluesky emptyWorld) = Inr JNull"
  by (simp add: notJson_answers notJson_session plainResponse_fields)

text \<open>
  C5, amended. \<open>createBlueskySession\<close> makes the session request and nothing else,
  and never raises. It returns the member \<open>accessJwt\<close> of the parsed body when the
  status is 200 and the body parses to a value that has members (the token string,
  when the body is an object whose \<open>accessJwt\<close> is a string); it returns \<open>null\<close>
  on any other status, on a transport failure, and on status 200 with a body that
  does not parse or parses to \<open>null\<close>. When what it returns is not truthy (\<open>null\<close>,
  \<open>undefined\<close>, the empty string), \<open>postToBluesky\<close> returns \<open>false\<close>, logs the
  failed authentication and has made the session request only.
\<close>

theorem session_token_or_null:
  "fst (createBlueskySession P cr w) =
     (case fetchResult P (requests w) (createSessionRequest cr) of
        Inl e \<Rightarrow> Inr JNull
      | Inr resp \<Rightarrow>
          if responseCode resp = 200
          then (case parsedJson resp of
                  None \<Rightarrow> Inr JNull
                | Some d \<Rightarrow> (case getProperty d (str ''accessJwt'') of
                              Inl e \<Rightarrow> Inr JNull
                            | Inr tok \<Rightarrow> Inr tok))
          else Inr JNull)
   \<and> requests (snd (createBlueskySession P cr w)) = requests w @ [createSessionRequest cr]
   \<and> (fetchResult P (requests w) (createSessionRequest cr) = Inr resp \<and> responseCode resp = 200
        \<and> parsedJson resp = Some (JObj kvs) \<and> map_of kvs (str ''accessJwt'') = Some (JStr t)
      \<longrightarrow> fst (createBlueskySession P cr w) = Inr (JStr t))
   \<and> (fetchResult P (requests w) (createSessionRequest cr) = Inr resp \<and> responseCode resp \<noteq> 200
      \<longrightarrow> fst (createBlueskySession P cr w) = Inr JNull)
   \<and> (fetchResult P (requests w) (createSessionRequest cr) = Inl e
      \<longrightarrow> fst (createBlueskySession P cr w) = Inr JNull)
   \<and> (fst (createBlueskySession P cr w) = Inr tok \<and> \<not> truthy tok \<longrightarrow>
        fst (postToBluesky P txt cr su ot od oi w) = Inr False
        \<and> requests (snd (postToBluesky P txt cr su ot od oi w)) = requests w @ [createSessionRequest cr]
        \<and> submittedRecords (snd (postToBluesky P txt cr su ot od oi w)) = submittedRecords w
        \<and> logged (snd (postToBluesky P txt cr su ot od oi w))
            = logged (snd (createBlueskySession P cr w)) @ [AuthenticationFailed])"
proof (intro conjI impI)
  show "fst (createBlueskySession P cr w) =
     (case fetchResult P (requests w) (createSessionRequest cr) of
        Inl e \<Rightarrow> Inr JNull
      | Inr resp \<Rightarrow>
          if responseCode resp = 200
          then (case parsedJson resp of
                  None \<Rightarrow> Inr JNull
                | Some d \<Rightarrow> (case getProperty d (str ''accessJwt'') of
                              Inl e \<Rightarrow> Inr JNull
                            | Inr tok \<Rightarrow> Inr tok))
          else Inr JNull)" by (rule session_result)
  show "requests (snd (createBlueskySession P cr w)) = requests w @ [createSessionRequest cr]"
    by (rule session_requests)
next
  assume "fetchResult P (requests w) (createSessionRequest cr) = Inr resp \<and> responseCode resp = 200
        \<and> parsedJson resp = Some (JObj kvs) \<and> map_of kvs (str ''accessJwt'') = Some (JStr t)"
  then show "fst (createBlueskySession P cr w) = Inr (JStr t)" by (simp add: session_result)
next
  assume "fetchResult P (requests w) (createSessionRequest cr) = Inr resp \<and> responseCode resp \<noteq> 200"
  then show "fst (createBlueskySession P cr w) = Inr JNull" by (simp add: session_result)
next
  assume "fetchResult P (requests w) (createSessionRequest cr) = Inl e"
  then show "fst (createBlueskySession P cr w) = Inr JNull" by (simp add: session_result)
next
  assume a: "fst (createBlueskySession P cr w) = Inr tok \<and> \<not> truthy tok"
  then have n: "fst (postToBluesky P txt cr su ot od oi w) = Inr False
   \<and> requests (snd (postToBluesky P txt cr su ot od oi w)) = requests w @ [createSessionRequest cr]
   \<and> logged (snd (postToBluesky P txt cr su ot od oi w))
       = logged (snd (createBlueskySession P cr w)) @ [AuthenticationFailed]"
    using postToBluesky_no_session [of P cr w tok "txt" su ot od oi] by blast
  from n show "fst (postToBluesky P txt cr su ot od oi w) = Inr False" by blast
  from n show "requests (snd (postToBluesky P txt cr su ot od oi w)) = requests w @ [createSessionRequest cr]"
    by blast
  from n show "logged (snd (postToBluesky P txt cr su ot od oi w))
       = logged (snd (createBlueskySession P cr w)) @ [AuthenticationFailed]" by blast
  from n show "submittedRecords (snd (postToBluesky P txt cr su ot od oi w)) = submittedRecords w"
    by (simp add: submittedRecords_def createSessionRequest_def)
qed

lemma forbidden_answers: "fetchResult forbidden rs req = Inr (plainResponse 403 (str ''Forbidden'') None)"
  by (simp add: forbidden_def scripted_fields)

theorem session_token_or_null_witness:
  "fetchResult uploadFails (requests emptyWorld) (createSessionRequest exampleBluesky)
     = Inr (plainResponse 200 (str ''{...}'') (Some sessionBody))
   \<and> fst (createBlueskySession uploadFails exampleBluesky emptyWorld) = Inr (JStr (str ''jwt''))
   \<and> fetchResult forbidden (requests emptyWorld) (createSessionRequest exampleBluesky)
     = Inr (plainResponse 403 (str ''Forbidden'') None)
   \<and> fst (createBlueskySession forbidden exampleBluesky emptyWorld) = Inr JNull
   \<and> \<not> truthy JNull
   \<and> postToBluesky forbidden exampleText exampleBluesky (Some exampleShareUrl) None None
        (Some exampleImageUrl) emptyWorld
     = (Inr False,
        \<lparr>requests = [createSessionRequest exampleBluesky],
         logged = [SessionCreationFailed 403 (str ''Forbidden''), AuthenticationFailed]\<rparr>)"
proof -
  note T = session_token_or_null [of uploadFails exampleBluesky emptyWorld
      "plainResponse 200 (str ''{...}'') (Some sessionBody)"
      "[(str ''accessJwt'', JStr (str ''jwt'')), (str ''did'', JStr (str ''did:plc:1''))]"
      "str ''jwt''"]
  note U = session_token_or_null [of forbidden exampleBluesky emptyWorld
      "plainResponse 403 (str ''Forbidden'') None" _ _ _ JNull exampleText
      "Some exampleShareUrl" None None "Some exampleImageUrl"]
  have a: "fetchResult uploadFails (requests emptyWorld) (createSessionRequest exampleBluesky)
     = Inr (plainResponse 200 (str ''{...}'') (Some sessionBody))" by (rule uploadFails_answers)
  from T a have 1: "fst (createBlueskySession uploadFails exampleBluesky emptyWorld) = Inr (JStr (str ''jwt''))"
    by (simp add: plainResponse_fields sessionBody_def)
  have b: "fetchResult forbidden (requests emptyWorld) (createSessionRequest exampleBluesky)
     = Inr (plainResponse 403 (str ''Forbidden'') None)" by (rule forbidden_answers)
  from U b have 2: "fst (createBlueskySession forbidden exampleBluesky emptyWorld) = Inr JNull"
    by (simp add: plainResponse_fields)
  have l: "logged (snd (createBlueskySession forbidden exampleBluesky emptyWorld))
     = [SessionCreationFailed 403 (str ''Forbidden'')]"
    by (simp add: createBlueskySession_def createBlueskySession_try_def fetch_eq forbidden_answers
          plainResponse_fields logged_logger emptyWorld_def)
  from U 2 l have 3: "fst (postToBluesky forbidden exampleText exampleBluesky (Some exampleShareUrl) None None
        (Some exampleImageUrl) emptyWorld) = Inr False
      \<and> requests (snd (postToBluesky forbidden exampleText exampleBluesky (Some exampleShareUrl) None None
        (Some exampleImageUrl) emptyWorld)) = [createSessionRequest exampleBluesky]
      \<and> logged (snd (postToBluesky forbidden exampleText exampleBluesky (Some exampleShareUrl) None None
        (Some exampleImageUrl) emptyWorld))
        = [SessionCreationFailed 403 (str ''Forbidden''), AuthenticationFailed]"
    by (simp add: emptyWorld_def)
  have 4: "postToBluesky forbidden exampleText exampleBluesky (Some exampleShareUrl) None None
        (Some exampleImageUrl) emptyWorld
     = (Inr False,
        \<lparr>requests = [createSessionRequest exampleBluesky],
         logged = [SessionCreationFailed 403 (str ''Forbidden''), AuthenticationFailed]\<rparr>)"
    using 3 by (cases "postToBluesky forbidden exampleText exampleBluesky (Some exampleShareUrl) None None
        (Some exampleImageUrl) emptyWorld") (auto intro: world.equality)
  from a 1 b 2 4 show ?thesis by simp
qed

subsection \<open>The thumbnail and the link card\<close>

lemma upload_result:
  "fst (uploadBlobToBluesky P i tok w) =
     (case fetchResult P (requests w) (downloadRequest i) of
        Inl e \<Rightarrow> Inr JNull
      | Inr img \<Rightarrow>
          (case fetchResult P (requests w @ [downloadRequest i])
                  (uploadRequest (orDefault (blobContentType img) (str ''image/jpeg'')) tok
                     (blobBytes img)) of
             Inl e \<Rightarrow> Inr JNull
           | Inr up \<Rightarrow>
               if responseCode up = 200
               then (case parsedJson up of
                       None \<Rightarrow> Inr JNull
                     | Some d \<Rightarrow> (case getProperty d (str ''blob'') of
                                   Inl e \<Rightarrow> Inr JNull
                                 | Inr blob \<Rightarrow> Inr blob))
               else Inr JNull))"
  by (simp add: uploadBlobToBluesky_def uploadBlobToBluesky_try_def fetch_eq jsonParse_eq Let_def
        requests_logger split: sum.splits option.splits)

lemma upload_fails_null:
  "fetchResult P (requests w) (downloadRequest i) = Inr img \<Longrightarrow>
   fetchResult P (requests w @ [downloadRequest i])
     (uploadRequest (orDefault (blobContentType img) (str ''image/jpeg'')) tok (blobBytes img)) = Inr up \<Longrightarrow>
   responseCode up \<noteq> 200 \<Longrightarrow>
   fst (uploadBlobToBluesky P i tok w) = Inr JNull"
  by (simp add: upload_result)

lemma upload_requests:
  "requests (snd (uploadBlobToBluesky P i tok w)) =
     (case fetchResult P (requests w) (downloadRequest i) of
        Inl e \<Rightarrow> requests w @ [downloadRequest i]
      | Inr img \<Rightarrow> requests w @ [downloadRequest i,
          uploadRequest (orDefault (blobContentType img) (str ''image/jpeg'')) tok (blobBytes img)])"
  by (simp add: uploadBlobToBluesky_def uploadBlobToBluesky_try_def fetch_eq jsonParse_eq Let_def
        requests_logger split: sum.splits option.splits)

lemma card_without_thumb:
  assumes s: "createBlueskySession P cr w = (Inr tok, w1)" and t: "truthy tok"
    and u: "u \<noteq> []" and i: "i \<noteq> []"
    and b: "uploadBlobToBluesky P i tok w1 = (Inr blob, w2)" and f: "\<not> truthy blob"
  shows "postToBluesky P txt cr (Some u) ot od (Some i) w =
     (let r = (initialRecord txt (isoNow P) (extractFacets (unpairedBytes P) txt))
                \<lparr>embed := Some \<lparr>embed_type = str ''app.bsky.embed.external'',
                   external = \<lparr>uri = u, ext_title = orDefault ot DEFAULT_OGP_TITLE,
                                description = orDefault od DEFAULT_OGP_DESCRIPTION,
                                thumb = None\<rparr>\<rparr>\<rparr>;
          w3 = logger (PostRecord r) (logger (AddingOgpCard u ot) w2);
          w4 = w3\<lparr>requests := requests w3 @ [createRecordRequest cr tok r]\<rparr>
      in case fetchResult P (requests w2) (createRecordRequest cr tok r) of
           Inl e \<Rightarrow> (Inr False, logger (BlueskyPostError e) w4)
         | Inr resp \<Rightarrow>
             if responseCode resp = 200
             then (Inr True, logger (BlueskyPostSuccessful (contentText resp)) w4)
             else (Inr False, logger (BlueskyPostFailed (responseCode resp) (contentText resp)) w4))"
  using s t u i b f
  by (simp add: postToBluesky_def postToBluesky_try_def attachEmbed_def attachThumb_def Let_def
        fetch_eq requests_logger split: sum.splits)

text \<open>
  C6. \<open>postToBluesky\<close> is given a share URL and an image URL that are not empty, the
  session gives a truthy token, and \<open>uploadBlobToBluesky\<close> returns \<open>null\<close>. Then
  the record that is submitted, after the requests of the session and of the
  upload, is the initial record with an embed of the share URL, the title and the
  description (or their defaults) and without \<open>thumb\<close>; and \<open>postToBluesky\<close>
  returns \<open>true\<close> when the answer to that request has status 200, \<open>false\<close> on
  another status and when the request fails.
\<close>

theorem failed_thumbnail_is_swallowed:
  assumes "fst (createBlueskySession P cr w) = Inr tok" and "truthy tok"
    and "u \<noteq> []" and "i \<noteq> []"
    and "fst (uploadBlobToBluesky P i tok (snd (createBlueskySession P cr w))) = Inr JNull"
  shows "\<exists>r w2. w2 = snd (uploadBlobToBluesky P i tok (snd (createBlueskySession P cr w)))
     \<and> r = (initialRecord txt (isoNow P) (extractFacets (unpairedBytes P) txt))
            \<lparr>embed := Some \<lparr>embed_type = str ''app.bsky.embed.external'',
               external = \<lparr>uri = u, ext_title = orDefault ot DEFAULT_OGP_TITLE,
                            description = orDefault od DEFAULT_OGP_DESCRIPTION, thumb = None\<rparr>\<rparr>\<rparr>
     \<and> requests (snd (postToBluesky P txt cr (Some u) ot od (Some i) w))
         = requests w2 @ [createRecordRequest cr tok r]
     \<and> submittedRecords (snd (postToBluesky P txt cr (Some u) ot od (Some i) w))
         = submittedRecords w @ [r]
     \<and> (\<forall>resp. fetchResult P (requests w2) (createRecordRequest cr tok r) = Inr resp \<longrightarrow>
           fst (postToBluesky P txt cr (Some u) ot od (Some i) w) = Inr (responseCode resp = 200))
     \<and> (\<forall>e. fetchResult P (requests w2) (createRecordRequest cr tok r) = Inl e \<longrightarrow>
           fst (postToBluesky P txt cr (Some u) ot od (Some i) w) = Inr False)"
proof -
  obtain w1 where s: "createBlueskySession P cr w = (Inr tok, w1)"
    using assms(1) by (cases "createBlueskySession P cr w") simp
  then obtain w2 where b: "uploadBlobToBluesky P i tok w1 = (Inr JNull, w2)"
    using assms(5) by (cases "uploadBlobToBluesky P i tok w1") simp
  define r where "r = (initialRecord txt (isoNow P) (extractFacets (unpairedBytes P) txt))
            \<lparr>embed := Some \<lparr>embed_type = str ''app.bsky.embed.external'',
               external = \<lparr>uri = u, ext_title = orDefault ot DEFAULT_OGP_TITLE,
                            description = orDefault od DEFAULT_OGP_DESCRIPTION, thumb = None\<rparr>\<rparr>\<rparr>"
  have n: "\<not> truthy JNull" by simp
  note c = card_without_thumb [of P cr w tok w1 u i JNull w2 "txt" ot od,
      OF s assms(2) assms(3) assms(4) b n, folded r_def]
  have w2: "snd (uploadBlobToBluesky P i tok (snd (createBlueskySession P cr w))) = w2"
    using s b by simp
  have q: "requests (snd (postToBluesky P txt cr (Some u) ot od (Some i) w))
         = requests w2 @ [createRecordRequest cr tok r]"
    by (simp add: c Let_def requests_logger split: sum.splits)
  have "submittedRecords w2 = submittedRecords w"
    using upload_records [of P i tok w1] session_records [of P cr w] s b by simp
  with q have v: "submittedRecords (snd (postToBluesky P txt cr (Some u) ot od (Some i) w))
         = submittedRecords w @ [r]"
    by (simp add: submittedRecords_def createRecordRequest_def)
  have x: "\<forall>resp. fetchResult P (requests w2) (createRecordRequest cr tok r) = Inr resp \<longrightarrow>
           fst (postToBluesky P txt cr (Some u) ot od (Some i) w) = Inr (responseCode resp = 200)"
    by (simp add: c Let_def)
  have y: "\<forall>e. fetchResult P (requests w2) (createRecordRequest cr tok r) = Inl e \<longrightarrow>
           fst (postToBluesky P txt cr (Some u) ot od (Some i) w) = Inr False"
    by (simp add: c Let_def)
  from q v x y show ?thesis unfolding w2 r_def by blast
qed

lemma uploadFails_upload: "fst (uploadBlobToBluesky uploadFails exampleImageUrl tok w) = Inr JNull"
  by (simp add: upload_result uploadFails_answers plainResponse_fields)

lemma example_urls: "exampleShareUrl \<noteq> []" "exampleImageUrl \<noteq> []"
  by (simp_all add: exampleShareUrl_def exampleImageUrl_def str_def)

theorem failed_thumbnail_is_swallowed_witness:
  "fst (createBlueskySession uploadFails exampleBluesky emptyWorld) = Inr exampleToken
   \<and> truthy exampleToken \<and> exampleShareUrl \<noteq> [] \<and> exampleImageUrl \<noteq> []
   \<and> fst (uploadBlobToBluesky uploadFails exampleImageUrl exampleToken
            (snd (createBlueskySession uploadFails exampleBluesky emptyWorld))) = Inr JNull
   \<and> submittedRecords (snd (postToBluesky uploadFails exampleText exampleBluesky
        (Some exampleShareUrl) None None (Some exampleImageUrl) emptyWorld)) = [exampleRecord]
   \<and> embed exampleRecord
       = Some \<lparr>embed_type = str ''app.bsky.embed.external'',
               external = \<lparr>uri = exampleShareUrl, ext_title = DEFAULT_OGP_TITLE,
                            description = DEFAULT_OGP_DESCRIPTION, thumb = None\<rparr>\<rparr>
   \<and> fst (postToBluesky uploadFails exampleText exampleBluesky
        (Some exampleShareUrl) None None (Some exampleImageUrl) emptyWorld) = Inr True"
proof -
  have e: "submittedRecords emptyWorld = []" by (simp add: submittedRecords_def emptyWorld_def)
  have r: "(initialRecord exampleText (isoNow uploadFails) (extractFacets (unpairedBytes uploadFails) exampleText))
            \<lparr>embed := Some \<lparr>embed_type = str ''app.bsky.embed.external'',
               external = \<lparr>uri = exampleShareUrl, ext_title = orDefault None DEFAULT_OGP_TITLE,
                            description = orDefault None DEFAULT_OGP_DESCRIPTION, thumb = None\<rparr>\<rparr>\<rparr>
           = exampleRecord"
    by (simp add: uploadFails_fields exampleText_facets initialRecord_def exampleRecord_def)
  note T = failed_thumbnail_is_swallowed [of uploadFails exampleBluesky emptyWorld exampleToken
      exampleShareUrl exampleImageUrl None None exampleText,
      OF uploadFails_session [of emptyWorld] exampleToken_truthy example_urls uploadFails_upload,
      unfolded r]
  from T have 1: "submittedRecords (snd (postToBluesky uploadFails exampleText exampleBluesky
        (Some exampleShareUrl) None None (Some exampleImageUrl) emptyWorld)) = [exampleRecord]"
    by (simp add: e)
  from T have 2: "fst (postToBluesky uploadFails exampleText exampleBluesky
        (Some exampleShareUrl) None None (Some exampleImageUrl) emptyWorld) = Inr True"
    by (simp add: uploadFails_answers plainResponse_fields)
  have 3: "embed exampleRecord
       = Some \<lparr>embed_type = str ''app.bsky.embed.external'',
               external = \<lparr>uri = exampleShareUrl, ext_title = DEFAULT_OGP_TITLE,
                            description = DEFAULT_OGP_DESCRIPTION, thumb = None\<rparr>\<rparr>"
    by (simp add: exampleRecord_def)
  from uploadFails_session [of emptyWorld] exampleToken_truthy example_urls
    uploadFails_upload [of exampleToken "snd (createBlueskySession uploadFails exampleBluesky emptyWorld)"]
    1 2 3
  show ?thesis by blast
qed

subsection \<open>The empty share URL\<close>

lemma postToBluesky_no_card:
  assumes s: "createBlueskySession P cr w = (Inr tok, w1)" and t: "truthy tok"
    and u: "\<not> truthyString su"
  shows "postToBluesky P txt cr su ot od oi w =
     (let r = initialRecord txt (isoNow P) (extractFacets (unpairedBytes P) txt);
          w3 = logger (PostRecord r) w1;
          w4 = w3\<lparr>requests := requests w3 @ [createRecordRequest cr tok r]\<rparr>
      in case fetchResult P (requests w1) (createRecordRequest cr tok r) of
           Inl e \<Rightarrow> (Inr False, logger (BlueskyPostError e) w4)
         | Inr resp \<Rightarrow>
             if responseCode resp = 200
             then (Inr True, logger (BlueskyPostSuccessful (contentText resp)) w4)
             else (Inr False, logger (BlueskyPostFailed (responseCode resp) (contentText resp)) w4))"
proof -
  have a: "attachEmbed P tok su ot od oi r0 w1 = (Inr r0, w1)" for r0
    using u by (cases su) (simp_all add: attachEmbed_def)
  show ?thesis
    using s t
    by (simp add: postToBluesky_def postToBluesky_try_def a Let_def fetch_eq requests_logger
          split: sum.splits)
qed

lemma empty_like_absent:
  "postToBluesky P txt cr (Some []) ot od oi w = postToBluesky P txt cr None ot' od' oi' w"
proof -
  have a: "attachEmbed P tok (Some []) ot od oi r0 w1 = attachEmbed P tok None ot' od' oi' r0 w1"
    for tok r0 w1 by (simp add: attachEmbed_def)
  have b: "postToBluesky_try P txt cr tok (Some []) ot od oi w1
      = postToBluesky_try P txt cr tok None ot' od' oi' w1" for tok w1
    unfolding postToBluesky_try_def a [of tok] by (rule refl)
  show ?thesis unfolding postToBluesky_def b by (rule refl)
qed

text \<open>
  C10. With the empty string as share URL \<open>postToBluesky\<close> does what it does without
  share URL, whatever title, description and image URL are given. The only requests
  are then the session request and, when the token is truthy, the request that
  creates the record: no image is downloaded and no blob is uploaded. The record
  submitted is the initial record, which has no \<open>embed\<close> field.
\<close>

theorem empty_share_url_is_absent:
  "postToBluesky P txt cr (Some []) ot od oi w = postToBluesky P txt cr None ot' od' oi' w
   \<and> embed (initialRecord txt (isoNow P) (extractFacets (unpairedBytes P) txt)) = None
   \<and> (fst (createBlueskySession P cr w) = Inr tok \<and> truthy tok \<longrightarrow>
        requests (snd (postToBluesky P txt cr (Some []) ot od oi w))
          = requests w @ [createSessionRequest cr,
               createRecordRequest cr tok
                 (initialRecord txt (isoNow P) (extractFacets (unpairedBytes P) txt))]
        \<and> submittedRecords (snd (postToBluesky P txt cr (Some []) ot od oi w))
          = submittedRecords w @ [initialRecord txt (isoNow P) (extractFacets (unpairedBytes P) txt)])
   \<and> (fst (createBlueskySession P cr w) = Inr tok \<and> \<not> truthy tok \<longrightarrow>
        requests (snd (postToBluesky P txt cr (Some []) ot od oi w))
          = requests w @ [createSessionRequest cr])"
proof (intro conjI impI)
  show "postToBluesky P txt cr (Some []) ot od oi w = postToBluesky P txt cr None ot' od' oi' w"
    by (rule empty_like_absent)
  show "embed (initialRecord txt (isoNow P) (extractFacets (unpairedBytes P) txt)) = None"
    by (simp add: initialRecord_def)
next
  assume a: "fst (createBlueskySession P cr w) = Inr tok \<and> truthy tok"
  then obtain w1 where s: "createBlueskySession P cr w = (Inr tok, w1)"
    by (cases "createBlueskySession P cr w") simp
  with session_requests [of P cr w] have w1: "requests w1 = requests w @ [createSessionRequest cr]"
    by simp
  have t: "truthy tok" "\<not> truthyString (Some [])" using a by simp_all
  note c = postToBluesky_no_card [of P cr w tok w1 "Some []" "txt" ot od oi, OF s t]
  show q: "requests (snd (postToBluesky P txt cr (Some []) ot od oi w))
          = requests w @ [createSessionRequest cr,
               createRecordRequest cr tok
                 (initialRecord txt (isoNow P) (extractFacets (unpairedBytes P) txt))]"
    by (simp add: c Let_def requests_logger w1 split: sum.splits)
  show "submittedRecords (snd (postToBluesky P txt cr (Some []) ot od oi w))
          = submittedRecords w @ [initialRecord txt (isoNow P) (extractFacets (unpairedBytes P) txt)]"
    unfolding submittedRecords_def q
    by (simp add: createRecordRequest_def createSessionRequest_def)
next
  assume "fst (createBlueskySession P cr w) = Inr tok \<and> \<not> truthy tok"
  then show "requests (snd (postToBluesky P txt cr (Some []) ot od oi w))
          = requests w @ [createSessionRequest cr]"
    using postToBluesky_no_session [of P cr w tok "txt" "Some []" ot od oi] by blast
qed

theorem empty_share_url_is_absent_witness:
  "fst (createBlueskySession uploadFails exampleBluesky emptyWorld) = Inr exampleToken
   \<and> truthy exampleToken
   \<and> requests (snd (postToBluesky uploadFails exampleText exampleBluesky (Some []) None None
        (Some exampleImageUrl) emptyWorld))
     = [createSessionRequest exampleBluesky,
        createRecordRequest exampleBluesky exampleToken (exampleRecord\<lparr>embed := None\<rparr>)]
   \<and> submittedRecords (snd (postToBluesky uploadFails exampleText exampleBluesky (Some []) None None
        (Some exampleImageUrl) emptyWorld)) = [exampleRecord\<lparr>embed := None\<rparr>]
   \<and> postToBluesky uploadFails exampleText exampleBluesky (Some []) None None
        (Some exampleImageUrl) emptyWorld
     = postToBluesky uploadFails exampleText exampleBluesky None None None None emptyWorld
   \<and> fst (createBlueskySession forbidden exampleBluesky emptyWorld) = Inr JNull \<and> \<not> truthy JNull
   \<and> requests (snd (postToBluesky forbidden exampleText exampleBluesky (Some []) None None
        (Some exampleImageUrl) emptyWorld)) = [createSessionRequest exampleBluesky]"
proof -
  have r: "initialRecord exampleText (isoNow uploadFails) (extractFacets (unpairedBytes uploadFails) exampleText)
       = exampleRecord\<lparr>embed := None\<rparr>"
    by (simp add: uploadFails_fields exampleText_facets initialRecord_def exampleRecord_def)
  have e: "submittedRecords emptyWorld = []" "requests emptyWorld = []"
    by (simp_all add: submittedRecords_def emptyWorld_def)
  note T = empty_share_url_is_absent [of uploadFails exampleText exampleBluesky None None
      "Some exampleImageUrl" emptyWorld None None None exampleToken, unfolded r]
  note U = empty_share_url_is_absent [of forbidden exampleText exampleBluesky None None
      "Some exampleImageUrl" emptyWorld None None None JNull]
  have f: "fst (createBlueskySession forbidden exampleBluesky emptyWorld) = Inr JNull"
    by (simp add: session_result forbidden_answers plainResponse_fields)
  from T [THEN conjunct2, THEN conjunct2, THEN conjunct1]
    uploadFails_session [of emptyWorld] exampleToken_truthy
  have 1: "requests (snd (postToBluesky uploadFails exampleText exampleBluesky (Some []) None None
        (Some exampleImageUrl) emptyWorld))
     = [createSessionRequest exampleBluesky,
        createRecordRequest exampleBluesky exampleToken (exampleRecord\<lparr>embed := None\<rparr>)]"
    and 2: "submittedRecords (snd (postToBluesky uploadFails exampleText exampleBluesky (Some []) None None
        (Some exampleImageUrl) emptyWorld)) = [exampleRecord\<lparr>embed := None\<rparr>]"
    by (simp_all add: e)
  from T have 3: "postToBluesky uploadFails exampleText exampleBluesky (Some []) None None
        (Some exampleImageUrl) emptyWorld
     = postToBluesky uploadFails exampleText exampleBluesky None None None None emptyWorld"
    by blast
  from U [THEN conjunct2, THEN conjunct2, THEN conjunct2] f have 4: "requests (snd (postToBluesky forbidden exampleText exampleBluesky (Some []) None None
        (Some exampleImageUrl) emptyWorld)) = [createSessionRequest exampleBluesky]"
    by (simp add: e)
  from uploadFails_session [of emptyWorld] exampleToken_truthy 1 2 3 f 4 show ?thesis by simp
qed

end
